(* ===== verification/Mu_Prelude.thy ===== *)
theory Mu_Prelude
  imports Main "HOL-Library.Word"
begin

unbundle bit_operations_syntax

text \<open>
  Shared vocabulary of the development: the OPC UA scalar types of
  \<^verbatim>\<open>include/muc_opcua/opcua_types.h\<close> at their machine width, the status codes of
  \<^verbatim>\<open>include/muc_opcua/status.h\<close> the modelled code returns, the compile-time limits of
  \<^verbatim>\<open>include/muc_opcua/config.h\<close> and \<^verbatim>\<open>capacities.h\<close> for the \<^verbatim>\<open>full\<close> profile, and the
  list, option and word lemmas the components share.

  Conventions.  Signed integers are kept as words and read with \<^const>\<open>sint\<close>; \<^verbatim>\<open>float\<close> and
  \<^verbatim>\<open>double\<close> are their IEEE-754 bit patterns, since the code only copies, compares or shifts
  the bits.  \<^verbatim>\<open>size_t\<close> values are naturals bounded by the buffers they index.
\<close>

section \<open>Scalar types\<close>

type_synonym opcua_boolean_t = bool
type_synonym opcua_sbyte_t = "8 word"
type_synonym opcua_byte_t = "8 word"
type_synonym opcua_int16_t = "16 word"
type_synonym opcua_uint16_t = "16 word"
type_synonym opcua_int32_t = "32 word"
type_synonym opcua_uint32_t = "32 word"
type_synonym opcua_int64_t = "64 word"
type_synonym opcua_uint64_t = "64 word"
type_synonym opcua_float_t = "32 word"
type_synonym opcua_double_t = "64 word"
type_synonym opcua_datetime_t = "64 word"
type_synonym opcua_statuscode_t = "32 word"
type_synonym bytes = "opcua_byte_t list"

section \<open>Status codes\<close>

abbreviation (input) MU_STATUS_GOOD :: opcua_statuscode_t where "MU_STATUS_GOOD \<equiv> 0"
abbreviation (input) MU_STATUS_BAD_INTERNALERROR :: opcua_statuscode_t where "MU_STATUS_BAD_INTERNALERROR \<equiv> 0x80020000"
abbreviation (input) MU_STATUS_BAD_OUTOFMEMORY :: opcua_statuscode_t where "MU_STATUS_BAD_OUTOFMEMORY \<equiv> 0x80030000"
abbreviation (input) MU_STATUS_BAD_RESOURCEUNAVAILABLE :: opcua_statuscode_t where "MU_STATUS_BAD_RESOURCEUNAVAILABLE \<equiv> 0x80040000"
abbreviation (input) MU_STATUS_BAD_COMMUNICATIONERROR :: opcua_statuscode_t where "MU_STATUS_BAD_COMMUNICATIONERROR \<equiv> 0x80050000"
abbreviation (input) MU_STATUS_BAD_ENCODINGERROR :: opcua_statuscode_t where "MU_STATUS_BAD_ENCODINGERROR \<equiv> 0x80060000"
abbreviation (input) MU_STATUS_BAD_DECODINGERROR :: opcua_statuscode_t where "MU_STATUS_BAD_DECODINGERROR \<equiv> 0x80070000"
abbreviation (input) MU_STATUS_BAD_ENCODINGLIMITSEXCEEDED :: opcua_statuscode_t where "MU_STATUS_BAD_ENCODINGLIMITSEXCEEDED \<equiv> 0x80080000"
abbreviation (input) MU_STATUS_BAD_REQUESTTOOLARGE :: opcua_statuscode_t where "MU_STATUS_BAD_REQUESTTOOLARGE \<equiv> 0x80B80000"
abbreviation (input) MU_STATUS_BAD_RESPONSETOOLARGE :: opcua_statuscode_t where "MU_STATUS_BAD_RESPONSETOOLARGE \<equiv> 0x80B90000"
abbreviation (input) MU_STATUS_BAD_TIMEOUT :: opcua_statuscode_t where "MU_STATUS_BAD_TIMEOUT \<equiv> 0x800A0000"
abbreviation (input) MU_STATUS_BAD_SERVICEUNSUPPORTED :: opcua_statuscode_t where "MU_STATUS_BAD_SERVICEUNSUPPORTED \<equiv> 0x800B0000"
abbreviation (input) MU_STATUS_BAD_NOTHINGTODO :: opcua_statuscode_t where "MU_STATUS_BAD_NOTHINGTODO \<equiv> 0x800F0000"
abbreviation (input) MU_STATUS_BAD_TOOMANYOPERATIONS :: opcua_statuscode_t where "MU_STATUS_BAD_TOOMANYOPERATIONS \<equiv> 0x80100000"
abbreviation (input) MU_STATUS_BAD_TOOMANYMONITOREDITEMS :: opcua_statuscode_t where "MU_STATUS_BAD_TOOMANYMONITOREDITEMS \<equiv> 0x80DB0000"
abbreviation (input) MU_STATUS_BAD_CERTIFICATEINVALID :: opcua_statuscode_t where "MU_STATUS_BAD_CERTIFICATEINVALID \<equiv> 0x80120000"
abbreviation (input) MU_STATUS_BAD_SECURITYCHECKSFAILED :: opcua_statuscode_t where "MU_STATUS_BAD_SECURITYCHECKSFAILED \<equiv> 0x80130000"
abbreviation (input) MU_STATUS_BAD_CERTIFICATEUNTRUSTED :: opcua_statuscode_t where "MU_STATUS_BAD_CERTIFICATEUNTRUSTED \<equiv> 0x801A0000"
abbreviation (input) MU_STATUS_BAD_USERACCESSDENIED :: opcua_statuscode_t where "MU_STATUS_BAD_USERACCESSDENIED \<equiv> 0x801F0000"
abbreviation (input) MU_STATUS_BAD_IDENTITYTOKENINVALID :: opcua_statuscode_t where "MU_STATUS_BAD_IDENTITYTOKENINVALID \<equiv> 0x80200000"
abbreviation (input) MU_STATUS_BAD_IDENTITYTOKENREJECTED :: opcua_statuscode_t where "MU_STATUS_BAD_IDENTITYTOKENREJECTED \<equiv> 0x80210000"
abbreviation (input) MU_STATUS_BAD_SECURECHANNELIDINVALID :: opcua_statuscode_t where "MU_STATUS_BAD_SECURECHANNELIDINVALID \<equiv> 0x80220000"
abbreviation (input) MU_STATUS_BAD_INVALIDTIMESTAMP :: opcua_statuscode_t where "MU_STATUS_BAD_INVALIDTIMESTAMP \<equiv> 0x80230000"
abbreviation (input) MU_STATUS_BAD_NONCEINVALID :: opcua_statuscode_t where "MU_STATUS_BAD_NONCEINVALID \<equiv> 0x80240000"
abbreviation (input) MU_STATUS_BAD_SESSIONIDINVALID :: opcua_statuscode_t where "MU_STATUS_BAD_SESSIONIDINVALID \<equiv> 0x80250000"
abbreviation (input) MU_STATUS_BAD_SESSIONCLOSED :: opcua_statuscode_t where "MU_STATUS_BAD_SESSIONCLOSED \<equiv> 0x80260000"
abbreviation (input) MU_STATUS_BAD_SESSIONNOTACTIVATED :: opcua_statuscode_t where "MU_STATUS_BAD_SESSIONNOTACTIVATED \<equiv> 0x80270000"
abbreviation (input) MU_STATUS_BAD_SUBSCRIPTIONIDINVALID :: opcua_statuscode_t where "MU_STATUS_BAD_SUBSCRIPTIONIDINVALID \<equiv> 0x80280000"
abbreviation (input) MU_STATUS_BAD_REQUESTHEADERINVALID :: opcua_statuscode_t where "MU_STATUS_BAD_REQUESTHEADERINVALID \<equiv> 0x802A0000"
abbreviation (input) MU_STATUS_BAD_TIMESTAMPSTORETURNINVALID :: opcua_statuscode_t where "MU_STATUS_BAD_TIMESTAMPSTORETURNINVALID \<equiv> 0x802B0000"
abbreviation (input) MU_STATUS_BAD_NODEIDINVALID :: opcua_statuscode_t where "MU_STATUS_BAD_NODEIDINVALID \<equiv> 0x80330000"
abbreviation (input) MU_STATUS_BAD_NODEIDUNKNOWN :: opcua_statuscode_t where "MU_STATUS_BAD_NODEIDUNKNOWN \<equiv> 0x80340000"
abbreviation (input) MU_STATUS_BAD_ATTRIBUTEIDINVALID :: opcua_statuscode_t where "MU_STATUS_BAD_ATTRIBUTEIDINVALID \<equiv> 0x80350000"
abbreviation (input) MU_STATUS_BAD_NOTSUPPORTED :: opcua_statuscode_t where "MU_STATUS_BAD_NOTSUPPORTED \<equiv> 0x803D0000"
abbreviation (input) MU_STATUS_BAD_MONITORINGMODEINVALID :: opcua_statuscode_t where "MU_STATUS_BAD_MONITORINGMODEINVALID \<equiv> 0x80410000"
abbreviation (input) MU_STATUS_BAD_MONITOREDITEMIDINVALID :: opcua_statuscode_t where "MU_STATUS_BAD_MONITOREDITEMIDINVALID \<equiv> 0x80420000"
abbreviation (input) MU_STATUS_BAD_MONITOREDITEMFILTERINVALID :: opcua_statuscode_t where "MU_STATUS_BAD_MONITOREDITEMFILTERINVALID \<equiv> 0x80430000"
abbreviation (input) MU_STATUS_BAD_MONITOREDITEMFILTERUNSUPPORTED :: opcua_statuscode_t where "MU_STATUS_BAD_MONITOREDITEMFILTERUNSUPPORTED \<equiv> 0x80440000"
abbreviation (input) MU_STATUS_BAD_FILTERNOTALLOWED :: opcua_statuscode_t where "MU_STATUS_BAD_FILTERNOTALLOWED \<equiv> 0x80450000"
abbreviation (input) MU_STATUS_BAD_REQUESTTYPEINVALID :: opcua_statuscode_t where "MU_STATUS_BAD_REQUESTTYPEINVALID \<equiv> 0x80530000"
abbreviation (input) MU_STATUS_BAD_SECURITYMODEREJECTED :: opcua_statuscode_t where "MU_STATUS_BAD_SECURITYMODEREJECTED \<equiv> 0x80540000"
abbreviation (input) MU_STATUS_BAD_SECURITYPOLICYREJECTED :: opcua_statuscode_t where "MU_STATUS_BAD_SECURITYPOLICYREJECTED \<equiv> 0x80550000"
abbreviation (input) MU_STATUS_BAD_TOOMANYSESSIONS :: opcua_statuscode_t where "MU_STATUS_BAD_TOOMANYSESSIONS \<equiv> 0x80560000"
abbreviation (input) MU_STATUS_BAD_TOOMANYSUBSCRIPTIONS :: opcua_statuscode_t where "MU_STATUS_BAD_TOOMANYSUBSCRIPTIONS \<equiv> 0x80770000"
abbreviation (input) MU_STATUS_BAD_TOOMANYPUBLISHREQUESTS :: opcua_statuscode_t where "MU_STATUS_BAD_TOOMANYPUBLISHREQUESTS \<equiv> 0x80780000"
abbreviation (input) MU_STATUS_BAD_NOSUBSCRIPTION :: opcua_statuscode_t where "MU_STATUS_BAD_NOSUBSCRIPTION \<equiv> 0x80790000"
abbreviation (input) MU_STATUS_BAD_SEQUENCENUMBERUNKNOWN :: opcua_statuscode_t where "MU_STATUS_BAD_SEQUENCENUMBERUNKNOWN \<equiv> 0x807A0000"
abbreviation (input) MU_STATUS_BAD_MESSAGENOTAVAILABLE :: opcua_statuscode_t where "MU_STATUS_BAD_MESSAGENOTAVAILABLE \<equiv> 0x807B0000"
abbreviation (input) MU_STATUS_BAD_TCPSERVERTOOBUSY :: opcua_statuscode_t where "MU_STATUS_BAD_TCPSERVERTOOBUSY \<equiv> 0x807D0000"
abbreviation (input) MU_STATUS_BAD_TCPMESSAGETYPEINVALID :: opcua_statuscode_t where "MU_STATUS_BAD_TCPMESSAGETYPEINVALID \<equiv> 0x807E0000"
abbreviation (input) MU_STATUS_BAD_TCPSECURECHANNELUNKNOWN :: opcua_statuscode_t where "MU_STATUS_BAD_TCPSECURECHANNELUNKNOWN \<equiv> 0x807F0000"
abbreviation (input) MU_STATUS_BAD_TCPMESSAGETOOLARGE :: opcua_statuscode_t where "MU_STATUS_BAD_TCPMESSAGETOOLARGE \<equiv> 0x80800000"
abbreviation (input) MU_STATUS_BAD_TCPNOTENOUGHRESOURCES :: opcua_statuscode_t where "MU_STATUS_BAD_TCPNOTENOUGHRESOURCES \<equiv> 0x80810000"
abbreviation (input) MU_STATUS_BAD_TCPINTERNALERROR :: opcua_statuscode_t where "MU_STATUS_BAD_TCPINTERNALERROR \<equiv> 0x80820000"
abbreviation (input) MU_STATUS_BAD_TCPENDPOINTURLINVALID :: opcua_statuscode_t where "MU_STATUS_BAD_TCPENDPOINTURLINVALID \<equiv> 0x80830000"
abbreviation (input) MU_STATUS_BAD_SECURECHANNELCLOSED :: opcua_statuscode_t where "MU_STATUS_BAD_SECURECHANNELCLOSED \<equiv> 0x80860000"
abbreviation (input) MU_STATUS_BAD_SECURECHANNELTOKENUNKNOWN :: opcua_statuscode_t where "MU_STATUS_BAD_SECURECHANNELTOKENUNKNOWN \<equiv> 0x80870000"
abbreviation (input) MU_STATUS_BAD_INVALIDARGUMENT :: opcua_statuscode_t where "MU_STATUS_BAD_INVALIDARGUMENT \<equiv> 0x80AB0000"
abbreviation (input) MU_STATUS_BAD_CONNECTIONCLOSED :: opcua_statuscode_t where "MU_STATUS_BAD_CONNECTIONCLOSED \<equiv> 0x80AE0000"

section \<open>Compile-time limits\<close>

abbreviation (input) MU_MAX_ENCODED_STRING_LENGTH :: nat where "MU_MAX_ENCODED_STRING_LENGTH \<equiv> 4096"
abbreviation (input) MU_INTERN_MAX_ARRAY_LENGTH :: nat where "MU_INTERN_MAX_ARRAY_LENGTH \<equiv> 8192"
abbreviation (input) MU_MIN_CHUNK_SIZE :: nat where "MU_MIN_CHUNK_SIZE \<equiv> 8192"

text \<open>\<^verbatim>\<open>SIZE_MAX\<close> of the 32-bit Arm Cortex-M0+ target the project is sized for.\<close>

definition SIZE_MAX :: nat where "SIZE_MAX = 2 ^ 32 - 1"

section \<open>Collections of rules\<close>

text \<open>
  \<open>decoder_intros\<close> and \<open>encoder_intros\<close> collect the rules that build the contract of a
  composed decoder or encoder from the contracts of its parts; \<open>codec_defs\<close> collects the
  defining equations of the byte layouts.
\<close>

named_theorems decoder_intros
named_theorems encoder_intros
named_theorems codec_defs

section \<open>Byte lists\<close>

definition cstr :: "string \<Rightarrow> bytes" where
  "cstr s = map of_char s"

text \<open>\<open>memcpy (dst + pos, src, length src)\<close> inside an array kept as a list.\<close>

definition put_at :: "nat \<Rightarrow> 'a list \<Rightarrow> 'a list \<Rightarrow> 'a list" where
  "put_at pos src dst = take pos dst @ src @ drop (pos + length src) dst"

definition slice :: "nat \<Rightarrow> nat \<Rightarrow> 'a list \<Rightarrow> 'a list" where
  "slice pos n xs = take n (drop pos xs)"

lemma length_put_at [simp]:
  "pos + length src \<le> length dst \<Longrightarrow> length (put_at pos src dst) = length dst"
  by (simp add: put_at_def)

lemma put_at_Nil [simp]: "pos \<le> length dst \<Longrightarrow> put_at pos [] dst = dst"
  by (simp add: put_at_def)

lemma put_at_append:
  "pos + length a + length b \<le> length dst \<Longrightarrow>
   put_at (pos + length a) b (put_at pos a dst) = put_at pos (a @ b) dst"
  by (simp add: put_at_def min_absorb2 ac_simps)

lemma slice_put_at [simp]:
  "pos + length src \<le> length dst \<Longrightarrow> slice pos (length src) (put_at pos src dst) = src"
  by (simp add: put_at_def slice_def)

lemma take_put_at [simp]: "pos \<le> length dst \<Longrightarrow> n \<le> pos \<Longrightarrow> take n (put_at pos src dst) = take n dst"
  by (simp add: put_at_def min_def)

lemma drop_put_at [simp]:
  "pos + length src \<le> length dst \<Longrightarrow> pos + length src \<le> n \<Longrightarrow> drop n (put_at pos src dst) = drop n dst"
  by (simp add: put_at_def min_def)

lemma nth_put_at_before [simp]:
  "pos \<le> length dst \<Longrightarrow> i < pos \<Longrightarrow> put_at pos src dst ! i = dst ! i"
  by (simp add: put_at_def nth_append)

lemma nth_put_at_after [simp]:
  "pos + length src \<le> length dst \<Longrightarrow> pos + length src \<le> i \<Longrightarrow> put_at pos src dst ! i = dst ! i"
  by (auto simp add: put_at_def nth_append min_absorb2)

lemma nth_put_at_inside:
  "pos + length src \<le> length dst \<Longrightarrow> pos \<le> i \<Longrightarrow> i < pos + length src \<Longrightarrow>
   put_at pos src dst ! i = src ! (i - pos)"
  by (simp add: put_at_def nth_append min_def) linarith

lemma length_slice [simp]: "pos + n \<le> length xs \<Longrightarrow> length (slice pos n xs) = n"
  by (simp add: slice_def)

lemma slice_append:
  "slice pos (m + n) xs = slice pos m xs @ slice (pos + m) n xs"
  by (simp add: slice_def take_add add.commute)

lemma slice_eq_appendD:
  assumes "slice pos (length a + length b) xs = a @ b"
  shows "slice pos (length a) xs = a" and "slice (pos + length a) (length b) xs = b"
proof -
  have "length (a @ b) = length (slice pos (length a + length b) xs)"
    by (simp add: assms)
  then have "length a + length b \<le> length xs - pos"
    by (simp add: slice_def)
  then have len: "length (slice pos (length a) xs) = length a"
    by (simp add: slice_def)
  have "slice pos (length a) xs @ slice (pos + length a) (length b) xs = a @ b"
    using assms by (simp add: slice_append)
  with len show "slice pos (length a) xs = a" and "slice (pos + length a) (length b) xs = b"
    by simp_all
qed

lemma slice_take: "pos + m \<le> n \<Longrightarrow> slice pos m (take n xs) = slice pos m xs"
  by (simp add: slice_def drop_take min_absorb1)

lemma slice_cong:
  "take n xs = take n ys \<Longrightarrow> pos + m \<le> n \<Longrightarrow> slice pos m xs = slice pos m ys"
  using slice_take [of pos m n xs] slice_take [of pos m n ys] by simp

lemma slice_0_take [simp]: "slice 0 n xs = take n xs"
  by (simp add: slice_def)

text \<open>An array filled from its start, piece after piece, and reads inside the filled part.\<close>

lemma put_at_0: "put_at 0 xs b = xs @ drop (length xs) b"
  by (simp add: put_at_def)

lemma put_at_chain:
  "length a = p \<Longrightarrow> p + length x \<le> length b \<Longrightarrow> put_at p x (put_at 0 a b) = put_at 0 (a @ x) b"
  using put_at_append [of 0 a x b] by simp

lemma put_at_fill:
  assumes "length a = p" "q = p + length t" "q + length r \<le> length b"
  shows "put_at p t (put_at q r (put_at 0 a b)) = put_at 0 (a @ t @ r) b"
proof -
  have "put_at p t (put_at q r (put_at 0 a b)) = a @ t @ r @ drop (q + length r) b"
    using assms by (simp add: put_at_def min_def ac_simps)
  then show ?thesis using assms by (simp add: put_at_0 add.assoc)
qed

lemma slice_put_at_0: "p + n \<le> length xs \<Longrightarrow> slice p n (put_at 0 xs b) = slice p n xs"
  by (simp add: put_at_0 slice_def)

lemma take_put_at_0: "n \<le> length xs \<Longrightarrow> take n (put_at 0 xs b) = take n xs"
  by (simp add: put_at_0)

lemma nth_put_at_0: "n < length xs \<Longrightarrow> put_at 0 xs b ! n = xs ! n"
  by (simp add: put_at_0 nth_append)

lemma slice_append1: "p + n \<le> length xs \<Longrightarrow> slice p n (xs @ ys) = slice p n xs"
  by (simp add: slice_def)

lemma slice_append2: "length xs \<le> p \<Longrightarrow> slice p n (xs @ ys) = slice (p - length xs) n ys"
  by (simp add: slice_def)

section \<open>Bytes and words\<close>

lemma byte_mask: "(0xFF :: 'a::len word) = mask 8"
  by (simp add: mask_eq_exp_minus_1)

lemma byte_high [simp]: "8 \<le> n \<Longrightarrow> \<not> bit (b :: 8 word) n"
  using bit_imp_le_length [of b n] by auto

lemma ucast_down_up16 [simp]: "x \<le> 255 \<Longrightarrow> ucast (ucast (x :: 16 word) :: 8 word) = x"
  by (simp add: word_unat_eq_iff unsigned_ucast_eq take_bit_eq_mod word_le_nat_alt unat_mod_distrib)

lemma ucast_down_up32 [simp]: "x \<le> 255 \<Longrightarrow> ucast (ucast (x :: 32 word) :: 8 word) = x"
  by (simp add: word_unat_eq_iff unsigned_ucast_eq take_bit_eq_mod word_le_nat_alt unat_mod_distrib)

lemma sint_of_nat32: "n < 2 ^ 31 \<Longrightarrow> sint (of_nat n :: 32 word) = int n"
  by (simp add: signed_of_nat signed_take_bit_int_eq_self)

lemma unat_of_nat32: "n < 2 ^ 32 \<Longrightarrow> unat (of_nat n :: 32 word) = n"
  by (simp add: unat_of_nat)

lemma of_nat32_not_minus1: "n < 2 ^ 31 \<Longrightarrow> (of_nat n :: 32 word) \<noteq> -1"
proof
  assume "n < 2 ^ 31" "(of_nat n :: 32 word) = -1"
  then have "int n = sint (-1 :: 32 word)"
    using sint_of_nat32 by metis
  then show False by simp
qed

lemmas int32_of_nat = sint_of_nat32 unat_of_nat32 of_nat32_not_minus1

lemma odd_div_iff: "k < 2 * m \<Longrightarrow> odd (k div m) \<longleftrightarrow> m \<le> k" for k m :: nat
proof (cases "m \<le> k")
  case True
  assume "k < 2 * m"
  then have "k div m = 1" using True by (intro div_nat_eqI) simp_all
  then show ?thesis using True by simp
qed simp

lemma sint_neg_iff: "sint x < 0 \<longleftrightarrow> 2 ^ (LENGTH('a) - 1) \<le> unat x" for x :: "'a::len word"
proof -
  have "sint x < 0 \<longleftrightarrow> bit x (LENGTH('a) - 1)" by (simp add: bit_last_iff)
  also have "\<dots> \<longleftrightarrow> bit (unat x) (LENGTH('a) - 1)" by (transfer, simp add: bit_simps) 
  also have "\<dots> \<longleftrightarrow> odd (unat x div 2 ^ (LENGTH('a) - 1))" by (simp add: bit_iff_odd)
  also have "\<dots> \<longleftrightarrow> 2 ^ (LENGTH('a) - 1) \<le> unat x"
    using unsigned_less [where ?'a = nat and w = x] by (intro odd_div_iff) (simp flip: power_Suc)
  finally show ?thesis .
qed

lemma sint_nonneg32: "0 \<le> sint x \<Longrightarrow> sint x = int (unat x)" for x :: "32 word"
  using sint_neg_iff [of x] sint_of_nat32 [of "unat x"] by simp

lemma nat_sint_unat: "0 \<le> sint x \<Longrightarrow> nat (sint x) = unat x" for x :: "32 word"
  by (simp only: sint_nonneg32 nat_int)

end
