(* ===== verification/Mu_Binary_IO.thy ===== *)
theory Mu_Binary_IO
  imports Mu_Prelude
begin

unbundle bit_operations_syntax

text \<open>
  The bounds-checked cursor the whole server parses and prints through:
  \<^verbatim>\<open>src/encoding/binary_le.h\<close>, the primitive operations of
  \<^verbatim>\<open>src/encoding/binary_reader.c\<close> and \<^verbatim>\<open>src/encoding/binary_writer.c\<close>, and the copy helpers of
  \<^verbatim>\<open>src/core/safe_mem.h\<close>.

  A reader operation is a function from a reader to a result and the reader it leaves behind;
  \<^verbatim>\<open>Inl\<close> is the non-Good status the C function returns, \<^verbatim>\<open>Inr\<close> the value it stores through its
  output pointer.  A writer operation returns the status and the writer.  The locales
  \<open>reader_op\<close>, \<open>decoder\<close>, \<open>writer_op\<close>, \<open>encoder\<close> and \<open>codec\<close> are the contracts every
  decoder and encoder built on these primitives has to meet.
\<close>

section \<open>Little-endian helpers\<close>

definition mu_binary_le_put_u16 :: "opcua_uint16_t \<Rightarrow> bytes" where
  "mu_binary_le_put_u16 value = [ucast (value AND 0xFF), ucast (drop_bit 8 value AND 0xFF)]"

definition mu_binary_le_put_u32 :: "opcua_uint32_t \<Rightarrow> bytes" where
  "mu_binary_le_put_u32 value =
    [ucast (value AND 0xFF), ucast (drop_bit 8 value AND 0xFF),
     ucast (drop_bit 16 value AND 0xFF), ucast (drop_bit 24 value AND 0xFF)]"

definition mu_binary_le_put_u64 :: "opcua_uint64_t \<Rightarrow> bytes" where
  "mu_binary_le_put_u64 value =
    [ucast (value AND 0xFF), ucast (drop_bit 8 value AND 0xFF),
     ucast (drop_bit 16 value AND 0xFF), ucast (drop_bit 24 value AND 0xFF),
     ucast (drop_bit 32 value AND 0xFF), ucast (drop_bit 40 value AND 0xFF),
     ucast (drop_bit 48 value AND 0xFF), ucast (drop_bit 56 value AND 0xFF)]"

definition mu_binary_le_get_u16 :: "bytes \<Rightarrow> opcua_uint16_t" where
  "mu_binary_le_get_u16 src = ucast (src ! 0) OR push_bit 8 (ucast (src ! 1))"

definition mu_binary_le_get_u32 :: "bytes \<Rightarrow> opcua_uint32_t" where
  "mu_binary_le_get_u32 src =
    ucast (src ! 0) OR push_bit 8 (ucast (src ! 1)) OR push_bit 16 (ucast (src ! 2)) OR
    push_bit 24 (ucast (src ! 3))"

definition mu_binary_le_get_u64 :: "bytes \<Rightarrow> opcua_uint64_t" where
  "mu_binary_le_get_u64 src =
    ucast (src ! 0) OR push_bit 8 (ucast (src ! 1)) OR push_bit 16 (ucast (src ! 2)) OR
    push_bit 24 (ucast (src ! 3)) OR push_bit 32 (ucast (src ! 4)) OR push_bit 40 (ucast (src ! 5)) OR
    push_bit 48 (ucast (src ! 6)) OR push_bit 56 (ucast (src ! 7))"

lemma length_le_put [simp]:
  "length (mu_binary_le_put_u16 a) = 2" "length (mu_binary_le_put_u32 b) = 4"
  "length (mu_binary_le_put_u64 c) = 8"
  by (simp_all add: mu_binary_le_put_u16_def mu_binary_le_put_u32_def mu_binary_le_put_u64_def)

lemma le_get_put_u16 [simp]: "mu_binary_le_get_u16 (mu_binary_le_put_u16 v) = v"
proof (rule bit_word_eqI)
  fix n assume "n < LENGTH(16)"
  then consider "n < 8" | "8 \<le> n" "n < 16" by (simp, linarith)
  then show "bit (mu_binary_le_get_u16 (mu_binary_le_put_u16 v)) n = bit v n"
    unfolding mu_binary_le_get_u16_def mu_binary_le_put_u16_def byte_mask
    by cases (simp_all add: bit_simps less_diff_conv2)
qed

lemma le_get_put_u32 [simp]: "mu_binary_le_get_u32 (mu_binary_le_put_u32 v) = v"
proof (rule bit_word_eqI)
  fix n assume "n < LENGTH(32)"
  then consider "n < 8" | "8 \<le> n" "n < 16" | "16 \<le> n" "n < 24" | "24 \<le> n" "n < 32"
    by (simp, linarith)
  then show "bit (mu_binary_le_get_u32 (mu_binary_le_put_u32 v)) n = bit v n"
    unfolding mu_binary_le_get_u32_def mu_binary_le_put_u32_def byte_mask
    by cases (simp_all add: bit_simps less_diff_conv2)
qed

lemma le_get_put_u64 [simp]: "mu_binary_le_get_u64 (mu_binary_le_put_u64 v) = v"
proof (rule bit_word_eqI)
  fix n assume "n < LENGTH(64)"
  then consider "n < 8" | "8 \<le> n" "n < 16" | "16 \<le> n" "n < 24" | "24 \<le> n" "n < 32"
    | "32 \<le> n" "n < 40" | "40 \<le> n" "n < 48" | "48 \<le> n" "n < 56" | "56 \<le> n" "n < 64"
    by (simp, linarith)
  then show "bit (mu_binary_le_get_u64 (mu_binary_le_put_u64 v)) n = bit v n"
    unfolding mu_binary_le_get_u64_def mu_binary_le_put_u64_def byte_mask
    by cases (simp_all add: bit_simps less_diff_conv2)
qed

lemma le_put_get_u32: "mu_binary_le_put_u32 (mu_binary_le_get_u32 [a, b, c, d]) = [a, b, c, d]"
  unfolding mu_binary_le_get_u32_def mu_binary_le_put_u32_def byte_mask
  by (auto intro!: bit_word_eqI simp add: bit_simps simp del: push_bit_numeral)

section \<open>Bounds-checked copies\<close>

text \<open>
  The destination is returned updated; \<^const>\<open>None\<close> is the \<^verbatim>\<open>NULL\<close> result that reports that the
  source does not fit.
\<close>

definition mu_checked_memcpy :: "bytes \<Rightarrow> nat \<Rightarrow> bytes \<Rightarrow> nat \<Rightarrow> bytes option" where
  "mu_checked_memcpy dst dst_size src n =
    (if n > dst_size then None else Some (put_at 0 (take n src) dst))"

definition mu_checked_memcpy_off :: "bytes \<Rightarrow> nat \<Rightarrow> nat \<Rightarrow> bytes \<Rightarrow> nat \<Rightarrow> bytes option" where
  "mu_checked_memcpy_off dst dst_cap dst_offset src n =
    (if dst_offset > dst_cap \<or> n > dst_cap - dst_offset then None
     else Some (put_at dst_offset (take n src) dst))"

definition mu_safe_int32_from_size_t :: "nat \<Rightarrow> opcua_int32_t" where
  "mu_safe_int32_from_size_t v = (if v > 0x7FFFFFFF then 0x7FFFFFFF else of_nat v)"

definition mu_safe_int32_from_size_t_max :: "nat \<Rightarrow> opcua_int32_t \<Rightarrow> opcua_int32_t" where
  "mu_safe_int32_from_size_t_max v max_val = (if v > unat max_val then max_val else of_nat v)"

section \<open>The reader\<close>

record mu_binary_reader =
  rd_buffer :: "bytes option"
  rd_length :: nat
  rd_position :: nat
  rd_status :: opcua_statuscode_t

type_synonym 'a rd = "mu_binary_reader \<Rightarrow> (opcua_statuscode_t + 'a) \<times> mu_binary_reader"

definition rd_return :: "'a \<Rightarrow> 'a rd" where
  "rd_return x r = (Inr x, r)"

text \<open>\<^verbatim>\<open>return status;\<close> without recording it in the reader.\<close>

definition rd_error :: "opcua_statuscode_t \<Rightarrow> 'a rd" where
  "rd_error status r = (Inl status, r)"

text \<open>\<^verbatim>\<open>status = m; if (status != GOOD) return status;\<close> followed by the continuation.\<close>

definition rd_bind :: "'a rd \<Rightarrow> ('a \<Rightarrow> 'b rd) \<Rightarrow> 'b rd" where
  "rd_bind m f r = (case m r of (Inl e, r') \<Rightarrow> (Inl e, r') | (Inr x, r') \<Rightarrow> f x r')"

definition mu_binary_reader_init :: "bytes option \<Rightarrow> nat \<Rightarrow> mu_binary_reader" where
  "mu_binary_reader_init buffer length' =
    \<lparr>rd_buffer = buffer, rd_length = length', rd_position = 0, rd_status = MU_STATUS_GOOD\<rparr>"

definition reader_status :: "unit rd" where
  "reader_status r =
    (if rd_status r \<noteq> MU_STATUS_GOOD then (Inl (rd_status r), r) else (Inr (), r))"

definition reader_fail :: "opcua_statuscode_t \<Rightarrow> 'a rd" where
  "reader_fail status r = (Inl status, r\<lparr>rd_status := status\<rparr>)"

definition ensure_bytes :: "nat \<Rightarrow> unit rd" where
  "ensure_bytes count r =
    (if rd_status r = MU_STATUS_GOOD \<and> rd_buffer r \<noteq> None \<and> rd_position r \<le> rd_length r \<and>
        count \<le> rd_length r - rd_position r then (Inr (), r)
     else if rd_status r \<noteq> MU_STATUS_GOOD then (Inl (rd_status r), r)
     else if rd_buffer r = None then reader_fail MU_STATUS_BAD_INTERNALERROR r
     else reader_fail MU_STATUS_BAD_DECODINGERROR r)"

text \<open>The bytes the cursor stands on: \<^verbatim>\<open>*value = f(&buffer[position]); position += n;\<close>\<close>

definition rd_take :: "nat \<Rightarrow> (bytes \<Rightarrow> 'a) \<Rightarrow> 'a rd" where
  "rd_take n f r =
    (Inr (f (slice (rd_position r) n (the (rd_buffer r)))), r\<lparr>rd_position := rd_position r + n\<rparr>)"

definition mu_binary_read_boolean :: "opcua_boolean_t rd" where
  "mu_binary_read_boolean = rd_bind (ensure_bytes 1) (\<lambda>_. rd_take 1 (\<lambda>b. b ! 0 \<noteq> 0))"

definition mu_binary_read_sbyte :: "opcua_sbyte_t rd" where
  "mu_binary_read_sbyte = rd_bind (ensure_bytes 1) (\<lambda>_. rd_take 1 (\<lambda>b. b ! 0))"

definition mu_binary_read_byte :: "opcua_byte_t rd" where
  "mu_binary_read_byte = rd_bind (ensure_bytes 1) (\<lambda>_. rd_take 1 (\<lambda>b. b ! 0))"

definition mu_binary_read_int16 :: "opcua_int16_t rd" where
  "mu_binary_read_int16 = rd_bind (ensure_bytes 2) (\<lambda>_. rd_take 2 mu_binary_le_get_u16)"

definition mu_binary_read_uint16 :: "opcua_uint16_t rd" where
  "mu_binary_read_uint16 = rd_bind (ensure_bytes 2) (\<lambda>_. rd_take 2 mu_binary_le_get_u16)"

definition mu_binary_read_int32 :: "opcua_int32_t rd" where
  "mu_binary_read_int32 = rd_bind (ensure_bytes 4) (\<lambda>_. rd_take 4 mu_binary_le_get_u32)"

definition mu_binary_read_uint32 :: "opcua_uint32_t rd" where
  "mu_binary_read_uint32 = rd_bind (ensure_bytes 4) (\<lambda>_. rd_take 4 mu_binary_le_get_u32)"

definition mu_binary_read_array_length :: "opcua_int32_t rd" where
  "mu_binary_read_array_length =
    rd_bind (ensure_bytes 4) (\<lambda>_.
    rd_bind (rd_take 4 mu_binary_le_get_u32) (\<lambda>decoded_length r.
      if sint decoded_length < -1 \<or>
         (sint decoded_length > 0 \<and> int (SIZE_MAX - rd_position r) < sint decoded_length)
      then reader_fail MU_STATUS_BAD_DECODINGERROR r
      else (Inr decoded_length, r)))"

definition mu_binary_read_int64 :: "opcua_int64_t rd" where
  "mu_binary_read_int64 = rd_bind (ensure_bytes 8) (\<lambda>_. rd_take 8 mu_binary_le_get_u64)"

definition mu_binary_read_uint64 :: "opcua_uint64_t rd" where
  "mu_binary_read_uint64 = rd_bind (ensure_bytes 8) (\<lambda>_. rd_take 8 mu_binary_le_get_u64)"

definition mu_binary_read_float :: "opcua_float_t rd" where
  "mu_binary_read_float = rd_bind mu_binary_read_uint32 rd_return"

definition mu_binary_read_double :: "opcua_double_t rd" where
  "mu_binary_read_double = rd_bind mu_binary_read_uint64 rd_return"

definition mu_binary_read_statuscode :: "opcua_statuscode_t rd" where
  "mu_binary_read_statuscode = mu_binary_read_uint32"

text \<open>Reading step by step.\<close>

lemma rd_bind_InrE:
  assumes "rd_bind m f r = (Inr y, r')"
  obtains x r1 where "m r = (Inr x, r1)" "f x r1 = (Inr y, r')"
  using assms by (auto simp: rd_bind_def split: prod.splits sum.splits)

lemma read_u32_value:
  assumes "rd_buffer r = Some b" "mu_binary_read_uint32 r = (Inr x, r')"
  shows "x = mu_binary_le_get_u32 (slice (rd_position r) 4 b)" "rd_position r' = rd_position r + 4" "rd_buffer r' = Some b"
  using assms
  by (auto simp: mu_binary_read_uint32_def rd_bind_def ensure_bytes_def rd_take_def reader_fail_def split: if_splits prod.splits sum.splits)

section \<open>Contract of reader operations\<close>

text \<open>
  Two readers have the same view when they differ at most in bytes at or beyond \<^const>\<open>rd_length\<close>.
  An operation that maps equal views to equal results reads nothing outside its buffer.
\<close>

definition same_view :: "mu_binary_reader \<Rightarrow> mu_binary_reader \<Rightarrow> bool" where
  "same_view r1 r2 \<longleftrightarrow>
     rd_length r1 = rd_length r2 \<and> rd_position r1 = rd_position r2 \<and> rd_status r1 = rd_status r2 \<and>
     map_option (take (rd_length r1)) (rd_buffer r1) = map_option (take (rd_length r1)) (rd_buffer r2)"

locale reader_op =
  fixes m :: "'a rd"
  assumes keeps_buffer: "rd_buffer (snd (m r)) = rd_buffer r"
    and keeps_length: "rd_length (snd (m r)) = rd_length r"
    and advances: "rd_position r \<le> rd_position (snd (m r))"
    and in_bounds: "rd_position r \<le> rd_length r \<Longrightarrow> rd_position (snd (m r)) \<le> rd_length r"
    and keeps_status: "fst (m r) = Inr v \<Longrightarrow> rd_status r = MU_STATUS_GOOD \<Longrightarrow>
      rd_status (snd (m r)) = MU_STATUS_GOOD"
    and error_code: "fst (m r) \<noteq> Inl MU_STATUS_GOOD"
    and view: "same_view r1 r2 \<Longrightarrow>
      fst (m r1) = fst (m r2) \<and> same_view (snd (m r1)) (snd (m r2))"
begin

lemma result_in_bounds:
  assumes "m r = (x, r')" "rd_position r \<le> rd_length r"
  shows "rd_position r \<le> rd_position r'" "rd_position r' \<le> rd_length r'"
  using assms advances [of r] in_bounds [of r] keeps_length [of r] by auto

text \<open>The bytes behind the declared length never influence the result.\<close>

lemma ignores_outside:
  assumes "take (rd_length r) b1 = take (rd_length r) b2"
  shows "fst (m (r\<lparr>rd_buffer := Some b1\<rparr>)) = fst (m (r\<lparr>rd_buffer := Some b2\<rparr>))"
  using view [of "r\<lparr>rd_buffer := Some b1\<rparr>" "r\<lparr>rd_buffer := Some b2\<rparr>"] assms
  by (simp add: same_view_def)

end

locale decoder = reader_op +
  assumes sticky: "rd_status r \<noteq> MU_STATUS_GOOD \<Longrightarrow> \<exists>e. m r = (Inl e, r)"
begin

lemma ok_only_if_good:
  assumes "m r = (Inr v, r')"
  shows "rd_status r = MU_STATUS_GOOD" and "rd_status r' = MU_STATUS_GOOD"
proof -
  show *: "rd_status r = MU_STATUS_GOOD"
    using assms sticky [of r] by auto
  show "rd_status r' = MU_STATUS_GOOD"
    using keeps_status [of r v] assms * by simp
qed

end

text \<open>The contract is closed under the combinators the decoders are written with.\<close>

lemma reader_op_return [decoder_intros]: "reader_op (rd_return x)"
  by unfold_locales (simp_all add: rd_return_def)

lemma reader_op_error [decoder_intros]: "e \<noteq> MU_STATUS_GOOD \<Longrightarrow> reader_op (rd_error e)"
  by unfold_locales (simp_all add: rd_error_def)

lemma reader_op_fail [decoder_intros]: "e \<noteq> MU_STATUS_GOOD \<Longrightarrow> reader_op (reader_fail e)"
  by unfold_locales (auto simp: reader_fail_def same_view_def)

lemma reader_op_if [decoder_intros]:
  "(b \<Longrightarrow> reader_op m) \<Longrightarrow> (\<not> b \<Longrightarrow> reader_op n) \<Longrightarrow> reader_op (if b then m else n)"
  by simp

lemma decoder_if [decoder_intros]:
  "(b \<Longrightarrow> decoder m) \<Longrightarrow> (\<not> b \<Longrightarrow> decoder n) \<Longrightarrow> decoder (if b then m else n)"
  by simp

lemma reader_op_bind [decoder_intros]:
  assumes m: "reader_op m" and f: "\<And>x. reader_op (f x)"
  shows "reader_op (rd_bind m f)"
proof unfold_locales
  fix r r1 r2 v
  obtain x s where ms: "m r = (x, s)" by fastforce
  note m' = reader_op.keeps_buffer [OF m, of r] reader_op.keeps_length [OF m, of r]
    reader_op.advances [OF m, of r] reader_op.in_bounds [OF m, of r]
    reader_op.error_code [OF m, of r]
  note f' = reader_op.keeps_buffer [OF f] reader_op.keeps_length [OF f]
    reader_op.error_code [OF f]
  show "rd_buffer (snd (rd_bind m f r)) = rd_buffer r"
    and "rd_length (snd (rd_bind m f r)) = rd_length r"
    and "fst (rd_bind m f r) \<noteq> Inl MU_STATUS_GOOD"
    using m' by (auto simp: rd_bind_def ms f' split: sum.splits)
  show "rd_position r \<le> rd_position (snd (rd_bind m f r))"
    using m' reader_op.advances [OF f, where r = s] order_trans
    by (auto simp: rd_bind_def ms split: sum.splits)
  show "rd_position (snd (rd_bind m f r)) \<le> rd_length r" if "rd_position r \<le> rd_length r"
    using m' that reader_op.in_bounds [OF f, where r = s]
    by (auto simp: rd_bind_def ms split: sum.splits)
  show "rd_status (snd (rd_bind m f r)) = MU_STATUS_GOOD"
    if "fst (rd_bind m f r) = Inr v" and "rd_status r = MU_STATUS_GOOD"
    using that reader_op.keeps_status [OF m, of r] reader_op.keeps_status [OF f, where r = s]
    by (auto simp: rd_bind_def ms split: sum.splits)
  show "fst (rd_bind m f r1) = fst (rd_bind m f r2) \<and>
      same_view (snd (rd_bind m f r1)) (snd (rd_bind m f r2))" if "same_view r1 r2"
  proof -
    obtain x1 s1 x2 s2 where eqs: "m r1 = (x1, s1)" "m r2 = (x2, s2)" by fastforce
    have "x1 = x2" and "same_view s1 s2"
      using reader_op.view [OF m that] eqs by simp_all
    then show ?thesis
      using reader_op.view [OF f] by (auto simp: rd_bind_def eqs split: sum.splits)
  qed
qed

lemma decoder_bind [decoder_intros]:
  assumes "decoder m" and "\<And>x. reader_op (f x)"
  shows "decoder (rd_bind m f)"
proof -
  have "reader_op (rd_bind m f)"
    using assms by (intro reader_op_bind) (auto dest: decoder.axioms)
  moreover have "\<exists>e. rd_bind m f r = (Inl e, r)" if "rd_status r \<noteq> MU_STATUS_GOOD" for r
    using decoder.sticky [OF assms(1) that] by (auto simp: rd_bind_def)
  ultimately show ?thesis
    by (simp add: decoder_def decoder_axioms_def)
qed

lemma decoder_reader_op: "decoder m \<Longrightarrow> reader_op m"
  by (rule decoder.axioms)

lemma decoder_status: "decoder reader_status"
  by unfold_locales (auto simp: reader_status_def same_view_def)

lemma same_view_slice:
  assumes "same_view r1 r2" "rd_position r1 + n \<le> rd_length r1" "rd_buffer r1 \<noteq> None"
  shows "slice (rd_position r1) n (the (rd_buffer r1)) = slice (rd_position r2) n (the (rd_buffer r2))"
proof -
  obtain b1 b2 where b: "rd_buffer r1 = Some b1" "rd_buffer r2 = Some b2"
    using assms by (cases "rd_buffer r1"; cases "rd_buffer r2") (auto simp: same_view_def)
  with assms have "take (rd_length r1) b1 = take (rd_length r1) b2"
    by (auto simp: same_view_def)
  from slice_cong [OF this assms(2)] show ?thesis
    using assms b by (simp add: same_view_def)
qed

text \<open>A guarded fetch of \<open>n\<close> bytes, the body of every fixed-size primitive.\<close>

lemma decoder_fetch [decoder_intros]:
  "decoder (rd_bind (ensure_bytes n) (\<lambda>_. rd_take n f))"
proof unfold_locales
  fix r1 r2 :: mu_binary_reader
  let ?m = "rd_bind (ensure_bytes n) (\<lambda>_. rd_take n f)"
  assume view: "same_view r1 r2"
  then have "rd_buffer r1 = None \<longleftrightarrow> rd_buffer r2 = None"
    by (auto simp: same_view_def)
  then show "fst (?m r1) = fst (?m r2) \<and> same_view (snd (?m r1)) (snd (?m r2))"
    using view same_view_slice [OF view, of n]
    by (auto simp: rd_bind_def ensure_bytes_def rd_take_def reader_fail_def same_view_def)
qed (auto simp: rd_bind_def ensure_bytes_def rd_take_def reader_fail_def split: if_splits)

lemmas read_primitive_defs =
  mu_binary_read_boolean_def mu_binary_read_sbyte_def mu_binary_read_byte_def
  mu_binary_read_int16_def mu_binary_read_uint16_def mu_binary_read_int32_def
  mu_binary_read_uint32_def mu_binary_read_int64_def mu_binary_read_uint64_def

lemma decoder_primitives [decoder_intros]:
  "decoder mu_binary_read_boolean" "decoder mu_binary_read_sbyte" "decoder mu_binary_read_byte"
  "decoder mu_binary_read_int16" "decoder mu_binary_read_uint16" "decoder mu_binary_read_int32"
  "decoder mu_binary_read_uint32" "decoder mu_binary_read_int64" "decoder mu_binary_read_uint64"
  unfolding read_primitive_defs by (rule decoder_fetch)+

lemma decoder_float [decoder_intros]:
  "decoder mu_binary_read_float" "decoder mu_binary_read_double" "decoder mu_binary_read_statuscode"
  unfolding mu_binary_read_float_def mu_binary_read_double_def mu_binary_read_statuscode_def
  by (intro decoder_intros)+

lemma reader_op_take_int32_check:
  "reader_op (\<lambda>r. if P v (rd_position r) then reader_fail MU_STATUS_BAD_DECODINGERROR r else (Inr v, r))"
  by unfold_locales (auto simp: reader_fail_def same_view_def)

lemma rd_bind_assoc: "rd_bind (rd_bind m f) g = rd_bind m (\<lambda>x. rd_bind (f x) g)"
  by (rule ext) (simp add: rd_bind_def split: sum.splits prod.splits)

lemma rd_bind_return: "rd_bind (rd_return x) f = f x"
  by (rule ext) (simp add: rd_bind_def rd_return_def)

lemma decoder_array_length [decoder_intros]: "decoder mu_binary_read_array_length"
  unfolding mu_binary_read_array_length_def rd_bind_assoc [symmetric]
  by (rule decoder_bind [OF decoder_fetch reader_op_take_int32_check])

section \<open>What a decoder returns on given bytes\<close>

text \<open>
  \<open>reads m bs v\<close>: wherever the cursor stands on the bytes \<open>bs\<close>, the operation yields \<open>v\<close> and
  moves the cursor behind them.
\<close>

definition reads :: "'a rd \<Rightarrow> bytes \<Rightarrow> 'a \<Rightarrow> bool" where
  "reads m bs v \<longleftrightarrow>
     (\<forall>r b. rd_buffer r = Some b \<and> rd_status r = MU_STATUS_GOOD \<and> rd_length r \<le> length b \<and>
        rd_position r + length bs \<le> rd_length r \<and> slice (rd_position r) (length bs) b = bs \<longrightarrow>
        m r = (Inr v, r\<lparr>rd_position := rd_position r + length bs\<rparr>))"

lemma readsD:
  assumes "reads m bs v" "rd_buffer r = Some b" "rd_status r = MU_STATUS_GOOD" "rd_length r \<le> length b"
    "rd_position r + length bs \<le> rd_length r" "slice (rd_position r) (length bs) b = bs"
  shows "m r = (Inr v, r\<lparr>rd_position := rd_position r + length bs\<rparr>)"
  using assms by (simp add: reads_def)

lemma reads_return: "reads (rd_return v) [] v"
  by (simp add: reads_def rd_return_def)

lemma reads_bind:
  assumes m: "reads m as x" and f: "reads (f x) bs v"
  shows "reads (rd_bind m f) (as @ bs) v"
  unfolding reads_def
proof (intro allI impI, elim conjE)
  fix r :: mu_binary_reader and b
  assume r: "rd_buffer r = Some b" "rd_status r = MU_STATUS_GOOD" "rd_length r \<le> length b"
    "rd_position r + length (as @ bs) \<le> rd_length r" "slice (rd_position r) (length (as @ bs)) b = as @ bs"
  have sl: "slice (rd_position r) (length as) b = as"
    "slice (rd_position r + length as) (length bs) b = bs"
    using slice_eq_appendD [of "rd_position r" as bs b] r(5) by simp_all
  have "m r = (Inr x, r\<lparr>rd_position := rd_position r + length as\<rparr>)"
    using readsD [OF m r(1-3)] r(4) sl(1) by simp
  moreover have "f x (r\<lparr>rd_position := rd_position r + length as\<rparr>) =
      (Inr v, r\<lparr>rd_position := rd_position r + length as + length bs\<rparr>)"
    using readsD [OF f, of "r\<lparr>rd_position := rd_position r + length as\<rparr>" b] r sl(2) by simp
  ultimately show "rd_bind m f r = (Inr v, r\<lparr>rd_position := rd_position r + length (as @ bs)\<rparr>)"
    by (simp add: rd_bind_def add.assoc)
qed

lemma reads_bind_Nil: "reads m as x \<Longrightarrow> reads (f x) [] v \<Longrightarrow> reads (rd_bind m f) as v"
  using reads_bind [of m as x f "[]" v] by simp

lemma reads_bind_return:
  "reads m bs x \<Longrightarrow> v = f x \<Longrightarrow> reads (rd_bind m (\<lambda>x. rd_return (f x))) bs v"
  using reads_bind [where f = "\<lambda>x. rd_return (f x)" and bs = "[]" and v = v] reads_return by fastforce

lemma reads_fetch:
  "length bs = n \<Longrightarrow> f bs = v \<Longrightarrow> reads (rd_bind (ensure_bytes n) (\<lambda>_. rd_take n f)) bs v"
  by (auto simp: reads_def rd_bind_def ensure_bytes_def rd_take_def)

lemma reads_primitives:
  "reads mu_binary_read_boolean [if b then 1 else 0] b"
  "reads mu_binary_read_sbyte [x] x"
  "reads mu_binary_read_byte [x] x"
  "reads mu_binary_read_int16 (mu_binary_le_put_u16 u16) u16"
  "reads mu_binary_read_uint16 (mu_binary_le_put_u16 u16) u16"
  "reads mu_binary_read_int32 (mu_binary_le_put_u32 u32) u32"
  "reads mu_binary_read_uint32 (mu_binary_le_put_u32 u32) u32"
  "reads mu_binary_read_int64 (mu_binary_le_put_u64 u64) u64"
  "reads mu_binary_read_uint64 (mu_binary_le_put_u64 u64) u64"
  unfolding read_primitive_defs by (rule reads_fetch; simp)+

lemma reads_float:
  "reads mu_binary_read_float (mu_binary_le_put_u32 u32) u32"
  "reads mu_binary_read_double (mu_binary_le_put_u64 u64) u64"
  "reads mu_binary_read_statuscode (mu_binary_le_put_u32 u32) u32"
  unfolding mu_binary_read_float_def mu_binary_read_double_def mu_binary_read_statuscode_def
  using reads_bind [OF reads_primitives(7) reads_return] reads_bind [OF reads_primitives(9) reads_return]
  by (auto intro: reads_primitives)

text \<open>A decoder is deterministic on its input: two values read from the same bytes coincide.\<close>

lemma reads_prefix_unique:
  assumes "reads m as v" "reads m bs w" "as @ xs = bs @ ys"
  shows "v = w \<and> as = bs"
proof -
  let ?r = "mu_binary_reader_init (Some (as @ xs)) (length (as @ xs))"
  have "m ?r = (Inr v, ?r\<lparr>rd_position := length as\<rparr>)"
    using readsD [OF assms(1), of ?r "as @ xs"] by (simp add: mu_binary_reader_init_def)
  moreover have "m ?r = (Inr w, ?r\<lparr>rd_position := length bs\<rparr>)"
    using readsD [OF assms(2), of ?r "bs @ ys"] arg_cong [OF assms(3), of length]
    by (simp add: mu_binary_reader_init_def assms(3))
  ultimately have "v = w" "length as = length bs"
    by (auto simp: mu_binary_reader_init_def)
  then show ?thesis
    using assms(3) by simp
qed

section \<open>The writer\<close>

record mu_binary_writer =
  wr_buffer :: "bytes option"
  wr_length :: nat
  wr_position :: nat
  wr_status :: opcua_statuscode_t

type_synonym wr = "mu_binary_writer \<Rightarrow> opcua_statuscode_t \<times> mu_binary_writer"

definition wr_return :: "opcua_statuscode_t \<Rightarrow> wr" where
  "wr_return status w = (status, w)"

text \<open>\<^verbatim>\<open>status = m; if (status != GOOD) return status;\<close> followed by \<open>n\<close>.\<close>

definition wr_seq :: "wr \<Rightarrow> wr \<Rightarrow> wr" where
  "wr_seq m n w = (case m w of (s, w') \<Rightarrow> if s \<noteq> MU_STATUS_GOOD then (s, w') else n w')"

text \<open>\<^verbatim>\<open>(void)m;\<close> followed by \<open>n\<close>: the status of \<open>m\<close> is dropped.\<close>

definition wr_void :: "wr \<Rightarrow> wr \<Rightarrow> wr" where
  "wr_void m n w = n (snd (m w))"

definition mu_binary_writer_init :: "bytes option \<Rightarrow> nat \<Rightarrow> mu_binary_writer" where
  "mu_binary_writer_init buffer length' =
    \<lparr>wr_buffer = buffer, wr_length = length', wr_position = 0, wr_status = MU_STATUS_GOOD\<rparr>"

definition writer_status :: wr where
  "writer_status w = (if wr_status w \<noteq> MU_STATUS_GOOD then (wr_status w, w) else (MU_STATUS_GOOD, w))"

definition writer_fail :: "opcua_statuscode_t \<Rightarrow> wr" where
  "writer_fail status w = (status, w\<lparr>wr_status := status\<rparr>)"

definition ensure_space :: "nat \<Rightarrow> wr" where
  "ensure_space count w =
    (if wr_status w = MU_STATUS_GOOD \<and> wr_buffer w \<noteq> None \<and> wr_position w \<le> wr_length w \<and>
        count \<le> wr_length w - wr_position w then (MU_STATUS_GOOD, w)
     else wr_seq writer_status
       (\<lambda>w. if wr_buffer w = None then writer_fail MU_STATUS_BAD_INTERNALERROR w
            else writer_fail MU_STATUS_BAD_ENCODINGERROR w) w)"

text \<open>\<^verbatim>\<open>put(&buffer[position]); position += n;\<close>\<close>

definition wr_put :: "bytes \<Rightarrow> wr" where
  "wr_put bs w =
    (MU_STATUS_GOOD, w\<lparr>wr_buffer := map_option (put_at (wr_position w) bs) (wr_buffer w),
                      wr_position := wr_position w + length bs\<rparr>)"

definition mu_binary_write_boolean :: "opcua_boolean_t \<Rightarrow> wr" where
  "mu_binary_write_boolean value = wr_seq (ensure_space 1) (wr_put [if value then 1 else 0])"

definition mu_binary_write_sbyte :: "opcua_sbyte_t \<Rightarrow> wr" where
  "mu_binary_write_sbyte value = wr_seq (ensure_space 1) (wr_put [value])"

definition mu_binary_write_byte :: "opcua_byte_t \<Rightarrow> wr" where
  "mu_binary_write_byte value = wr_seq (ensure_space 1) (wr_put [value])"

definition mu_binary_write_uint16 :: "opcua_uint16_t \<Rightarrow> wr" where
  "mu_binary_write_uint16 value = wr_seq (ensure_space 2) (wr_put (mu_binary_le_put_u16 value))"

definition mu_binary_write_int16 :: "opcua_int16_t \<Rightarrow> wr" where
  "mu_binary_write_int16 value = mu_binary_write_uint16 value"

definition mu_binary_write_uint32 :: "opcua_uint32_t \<Rightarrow> wr" where
  "mu_binary_write_uint32 value = wr_seq (ensure_space 4) (wr_put (mu_binary_le_put_u32 value))"

definition mu_binary_write_int32 :: "opcua_int32_t \<Rightarrow> wr" where
  "mu_binary_write_int32 value = mu_binary_write_uint32 value"

definition mu_binary_write_uint64 :: "opcua_uint64_t \<Rightarrow> wr" where
  "mu_binary_write_uint64 value = wr_seq (ensure_space 8) (wr_put (mu_binary_le_put_u64 value))"

definition mu_binary_write_int64 :: "opcua_int64_t \<Rightarrow> wr" where
  "mu_binary_write_int64 value = mu_binary_write_uint64 value"

definition mu_binary_write_float :: "opcua_float_t \<Rightarrow> wr" where
  "mu_binary_write_float value = mu_binary_write_uint32 value"

definition mu_binary_write_double :: "opcua_double_t \<Rightarrow> wr" where
  "mu_binary_write_double value = mu_binary_write_uint64 value"

definition mu_binary_write_statuscode :: "opcua_statuscode_t \<Rightarrow> wr" where
  "mu_binary_write_statuscode value = mu_binary_write_uint32 value"

section \<open>Contract of writer operations\<close>

definition wf_writer :: "mu_binary_writer \<Rightarrow> bool" where
  "wf_writer w \<longleftrightarrow> wr_position w \<le> wr_length w \<and>
     (case wr_buffer w of None \<Rightarrow> True | Some b \<Rightarrow> wr_length w \<le> length b)"

text \<open>
  What an operation may change: it moves the cursor forward inside the declared length and touches
  only the bytes the cursor passes.
\<close>

definition wr_frame :: "mu_binary_writer \<Rightarrow> mu_binary_writer \<Rightarrow> bool" where
  "wr_frame w w' \<longleftrightarrow>
     wr_length w' = wr_length w \<and> wr_position w \<le> wr_position w' \<and> wr_position w' \<le> wr_length w \<and>
     (case wr_buffer w of
        None \<Rightarrow> wr_buffer w' = None
      | Some b \<Rightarrow> (case wr_buffer w' of
          None \<Rightarrow> False
        | Some b' \<Rightarrow> length b' = length b \<and> take (wr_position w) b' = take (wr_position w) b \<and>
            drop (wr_position w') b' = drop (wr_position w') b))"

lemma wr_frame_refl: "wf_writer w \<Longrightarrow> wr_frame w w"
  by (simp add: wr_frame_def wf_writer_def split: option.splits)

lemma take_take_le: "m \<le> n \<Longrightarrow> take n xs = take n ys \<Longrightarrow> take m xs = take m ys"
  by (metis min_absorb1 take_take)

lemma drop_drop_le: "m \<le> n \<Longrightarrow> drop m xs = drop m ys \<Longrightarrow> drop n xs = drop n ys"
  by (metis drop_drop le_add_diff_inverse2)

lemma wr_frame_trans:
  assumes "wr_frame w1 w2" "wr_frame w2 w3"
  shows "wr_frame w1 w3"
proof (cases "wr_buffer w1")
  case None
  then show ?thesis using assms by (auto simp: wr_frame_def)
next
  case (Some b1)
  then obtain b2 where b2: "wr_buffer w2 = Some b2" using assms(1) by (auto simp: wr_frame_def split: option.splits)
  then obtain b3 where b3: "wr_buffer w3 = Some b3" using assms(2) by (auto simp: wr_frame_def split: option.splits)
  have le: "wr_position w1 \<le> wr_position w2" "wr_position w2 \<le> wr_position w3"
    using assms by (auto simp: wr_frame_def)
  have "take (wr_position w1) b3 = take (wr_position w1) b2"
    using assms(2) b2 b3 by (intro take_take_le [OF le(1)]) (auto simp: wr_frame_def)
  moreover have "drop (wr_position w3) b2 = drop (wr_position w3) b1"
    using assms(1) Some b2 by (intro drop_drop_le [OF le(2)]) (auto simp: wr_frame_def)
  ultimately show ?thesis
    using assms Some b2 b3 le by (auto simp: wr_frame_def)
qed

lemma wr_frame_wf: "wr_frame w w' \<Longrightarrow> wf_writer w \<Longrightarrow> wf_writer w'"
  by (auto simp: wr_frame_def wf_writer_def split: option.splits)

locale writer_op =
  fixes m :: wr
  assumes frame: "wf_writer w \<Longrightarrow> wr_frame w (snd (m w))"
    and keeps_status: "fst (m w) = MU_STATUS_GOOD \<Longrightarrow> wr_status w = MU_STATUS_GOOD \<Longrightarrow>
      wr_status (snd (m w)) = MU_STATUS_GOOD"
begin

lemma keeps_wf: "wf_writer w \<Longrightarrow> wf_writer (snd (m w))"
  using frame wr_frame_wf by blast

text \<open>No byte at or behind the declared length is overwritten, whatever the outcome.\<close>

lemma tail_untouched:
  assumes "wf_writer w" "wr_buffer w = Some b"
  shows "\<exists>b'. wr_buffer (snd (m w)) = Some b' \<and> length b' = length b \<and>
    drop (wr_length w) b' = drop (wr_length w) b"
  using frame [OF assms(1)] assms(2) drop_drop_le [of _ "wr_length w"]
  by (auto simp: wr_frame_def split: option.splits)

end

locale encoder = writer_op +
  assumes sticky: "wr_status w \<noteq> MU_STATUS_GOOD \<Longrightarrow> fst (m w) \<noteq> MU_STATUS_GOOD \<and> snd (m w) = w"

lemma encoder_writer_op: "encoder m \<Longrightarrow> writer_op m"
  by (rule encoder.axioms)

lemma writer_op_return [encoder_intros]: "writer_op (wr_return s)"
  by unfold_locales (simp_all add: wr_return_def wr_frame_refl)

lemma encoder_return_error [encoder_intros]: "s \<noteq> MU_STATUS_GOOD \<Longrightarrow> encoder (wr_return s)"
  by unfold_locales (simp_all add: wr_return_def wr_frame_refl)

lemma writer_op_if [encoder_intros]:
  "(b \<Longrightarrow> writer_op m) \<Longrightarrow> (\<not> b \<Longrightarrow> writer_op n) \<Longrightarrow> writer_op (if b then m else n)"
  by simp

lemma encoder_if [encoder_intros]:
  "(b \<Longrightarrow> encoder m) \<Longrightarrow> (\<not> b \<Longrightarrow> encoder n) \<Longrightarrow> encoder (if b then m else n)"
  by simp

lemma writer_op_seq [encoder_intros]:
  assumes "writer_op m" "writer_op n"
  shows "writer_op (wr_seq m n)"
proof unfold_locales
  fix w
  obtain s w' where m: "m w = (s, w')" by fastforce
  show "wr_frame w (snd (wr_seq m n w))" if "wf_writer w"
    using writer_op.frame [OF assms(1) that] writer_op.frame [OF assms(2), of w'] that
    by (auto simp: wr_seq_def m intro: wr_frame_trans wr_frame_wf)
  show "wr_status (snd (wr_seq m n w)) = MU_STATUS_GOOD"
    if "fst (wr_seq m n w) = MU_STATUS_GOOD" "wr_status w = MU_STATUS_GOOD"
    using writer_op.keeps_status [OF assms(1), of w] writer_op.keeps_status [OF assms(2), of w'] that
    by (auto simp: wr_seq_def m split: if_splits)
qed

lemma encoder_seq [encoder_intros]:
  assumes "encoder m" "writer_op n"
  shows "encoder (wr_seq m n)"
proof -
  have "writer_op (wr_seq m n)"
    using assms by (intro writer_op_seq) (auto dest: encoder_writer_op)
  moreover have "fst (wr_seq m n w) \<noteq> MU_STATUS_GOOD \<and> snd (wr_seq m n w) = w"
    if "wr_status w \<noteq> MU_STATUS_GOOD" for w
    using encoder.sticky [OF assms(1) that] by (auto simp: wr_seq_def split: prod.splits)
  ultimately show ?thesis
    by (simp add: encoder_def encoder_axioms_def)
qed

lemma wr_frame_put:
  assumes "wf_writer w" "length bs \<le> wr_length w - wr_position w"
  shows "wr_frame w (snd (wr_put bs w))"
  using assms by (auto simp: wr_frame_def wf_writer_def wr_put_def split: option.splits)

lemma encoder_put [encoder_intros]:
  "length bs = n \<Longrightarrow> encoder (wr_seq (ensure_space n) (wr_put bs))"
proof unfold_locales
  fix w :: mu_binary_writer
  assume n: "length bs = n" and w: "wf_writer w"
  show "wr_frame w (snd (wr_seq (ensure_space n) (wr_put bs) w))"
    using wr_frame_put [OF w, of bs] wr_frame_refl [OF w] n
    by (auto simp: wr_seq_def ensure_space_def writer_status_def writer_fail_def wr_frame_def)
qed (auto simp: wr_seq_def ensure_space_def writer_status_def writer_fail_def wr_put_def split: if_splits)

lemmas write_primitive_defs =
  mu_binary_write_boolean_def mu_binary_write_sbyte_def mu_binary_write_byte_def
  mu_binary_write_int16_def mu_binary_write_uint16_def mu_binary_write_int32_def
  mu_binary_write_uint32_def mu_binary_write_int64_def mu_binary_write_uint64_def
  mu_binary_write_float_def mu_binary_write_double_def mu_binary_write_statuscode_def

lemma encoder_primitives [encoder_intros]:
  "encoder (mu_binary_write_boolean b)" "encoder (mu_binary_write_sbyte x)"
  "encoder (mu_binary_write_byte x)" "encoder (mu_binary_write_int16 u16)"
  "encoder (mu_binary_write_uint16 u16)" "encoder (mu_binary_write_int32 u32)"
  "encoder (mu_binary_write_uint32 u32)" "encoder (mu_binary_write_int64 u64)"
  "encoder (mu_binary_write_uint64 u64)" "encoder (mu_binary_write_float u32)"
  "encoder (mu_binary_write_double u64)" "encoder (mu_binary_write_statuscode u32)"
  unfolding write_primitive_defs by (rule encoder_put; simp)+

section \<open>What an encoder emits\<close>

text \<open>
  \<open>encodes m bs\<close>: the operation succeeds exactly when \<open>bs\<close> fits behind the cursor, and then it
  places \<open>bs\<close> there and nothing else.
\<close>

definition encodes :: "wr \<Rightarrow> bytes \<Rightarrow> bool" where
  "encodes m bs \<longleftrightarrow>
     (\<forall>w b. wr_buffer w = Some b \<and> wr_status w = MU_STATUS_GOOD \<and> wf_writer w \<longrightarrow>
        (if wr_position w + length bs \<le> wr_length w
         then m w = (MU_STATUS_GOOD, w\<lparr>wr_buffer := Some (put_at (wr_position w) bs b),
                                       wr_position := wr_position w + length bs\<rparr>)
         else fst (m w) \<noteq> MU_STATUS_GOOD))"

lemma encodes_fits:
  assumes "encodes m bs" "wr_buffer w = Some b" "wr_status w = MU_STATUS_GOOD" "wf_writer w"
    "wr_position w + length bs \<le> wr_length w"
  shows "m w = (MU_STATUS_GOOD, w\<lparr>wr_buffer := Some (put_at (wr_position w) bs b),
                                  wr_position := wr_position w + length bs\<rparr>)"
  using assms by (simp add: encodes_def)

lemma encodes_too_big:
  assumes "encodes m bs" "wr_buffer w = Some b" "wr_status w = MU_STATUS_GOOD" "wf_writer w"
    "\<not> wr_position w + length bs \<le> wr_length w"
  shows "fst (m w) \<noteq> MU_STATUS_GOOD"
  using assms by (auto simp: encodes_def)

lemma encodes_Nil: "encodes (wr_return MU_STATUS_GOOD) []"
  by (auto simp: encodes_def wr_return_def wf_writer_def)

lemma encodes_seq:
  assumes "encodes m as" "encodes n bs"
  shows "encodes (wr_seq m n) (as @ bs)"
  unfolding encodes_def
proof (intro allI impI, elim conjE)
  fix w :: mu_binary_writer and b
  assume w: "wr_buffer w = Some b" "wr_status w = MU_STATUS_GOOD" "wf_writer w"
  let ?w1 = "w\<lparr>wr_buffer := Some (put_at (wr_position w) as b), wr_position := wr_position w + length as\<rparr>"
  show "if wr_position w + length (as @ bs) \<le> wr_length w
      then wr_seq m n w = (MU_STATUS_GOOD, w\<lparr>wr_buffer := Some (put_at (wr_position w) (as @ bs) b),
             wr_position := wr_position w + length (as @ bs)\<rparr>)
      else fst (wr_seq m n w) \<noteq> MU_STATUS_GOOD"
  proof (cases "wr_position w + length as \<le> wr_length w")
    case True
    then have "m w = (MU_STATUS_GOOD, ?w1)"
      using encodes_fits [OF assms(1) w] by simp
    moreover have "wf_writer ?w1"
      using w True by (auto simp: wf_writer_def)
    moreover have "wr_length w \<le> length b"
      using w by (simp add: wf_writer_def)
    ultimately show ?thesis
      using encodes_fits [OF assms(2), of ?w1] encodes_too_big [OF assms(2), of ?w1] w
        put_at_append [of "wr_position w" as bs b]
      by (auto simp: wr_seq_def add.assoc)
  next
    case False
    then show ?thesis
      using encodes_too_big [OF assms(1) w] by (auto simp: wr_seq_def split: prod.splits)
  qed
qed

lemma encodes_seq_return:
  "encodes m bs \<Longrightarrow> encodes (wr_seq m (wr_return MU_STATUS_GOOD)) bs"
  using encodes_seq [OF _ encodes_Nil, of m bs] by simp

lemma encodes_put: "length bs = n \<Longrightarrow> encodes (wr_seq (ensure_space n) (wr_put bs)) bs"
  by (auto simp: encodes_def wr_seq_def ensure_space_def writer_status_def writer_fail_def wr_put_def)

lemma encodes_primitives:
  "encodes (mu_binary_write_boolean b) [if b then 1 else 0]"
  "encodes (mu_binary_write_sbyte x) [x]"
  "encodes (mu_binary_write_byte x) [x]"
  "encodes (mu_binary_write_int16 u16) (mu_binary_le_put_u16 u16)"
  "encodes (mu_binary_write_uint16 u16) (mu_binary_le_put_u16 u16)"
  "encodes (mu_binary_write_int32 u32) (mu_binary_le_put_u32 u32)"
  "encodes (mu_binary_write_uint32 u32) (mu_binary_le_put_u32 u32)"
  "encodes (mu_binary_write_int64 u64) (mu_binary_le_put_u64 u64)"
  "encodes (mu_binary_write_uint64 u64) (mu_binary_le_put_u64 u64)"
  "encodes (mu_binary_write_float u32) (mu_binary_le_put_u32 u32)"
  "encodes (mu_binary_write_double u64) (mu_binary_le_put_u64 u64)"
  "encodes (mu_binary_write_statuscode u32) (mu_binary_le_put_u32 u32)"
  unfolding write_primitive_defs by (rule encodes_put; simp)+

section \<open>Codecs\<close>

text \<open>Element loops: write every element, read a known number of them.\<close>

fun wr_list :: "('a \<Rightarrow> wr) \<Rightarrow> 'a list \<Rightarrow> wr" where
  "wr_list wr [] = wr_return MU_STATUS_GOOD"
| "wr_list wr (x # xs) = wr_seq (wr x) (wr_list wr xs)"

fun rd_list :: "nat \<Rightarrow> 'a rd \<Rightarrow> 'a list rd" where
  "rd_list 0 rd = rd_return []"
| "rd_list (Suc n) rd = rd_bind rd (\<lambda>x. rd_bind (rd_list n rd) (\<lambda>xs. rd_return (x # xs)))"

lemma writer_op_list [encoder_intros]:
  "(\<And>x. x \<in> set xs \<Longrightarrow> writer_op (wr x)) \<Longrightarrow> writer_op (wr_list wr xs)"
  by (induction xs) (auto intro: encoder_intros)

lemma reader_op_list [decoder_intros]: "reader_op rd \<Longrightarrow> reader_op (rd_list n rd)"
  by (induction n) (auto intro: decoder_intros)

lemma encodes_list:
  "(\<And>x. x \<in> set xs \<Longrightarrow> encodes (wr x) (enc x)) \<Longrightarrow> encodes (wr_list wr xs) (concat (map enc xs))"
  by (induction xs) (auto intro: encodes_Nil encodes_seq)

lemma reads_list:
  "(\<And>x. x \<in> set xs \<Longrightarrow> reads rd (enc x) x) \<Longrightarrow> reads (rd_list (length xs) rd) (concat (map enc xs)) xs"
  by (induction xs) (auto intro!: reads_return reads_bind reads_bind_return)

locale codec =
  fixes wr :: "'a \<Rightarrow> wr" and rd :: "'a rd" and enc :: "'a \<Rightarrow> bytes" and valid :: "'a \<Rightarrow> bool"
  assumes encodes: "valid v \<Longrightarrow> encodes (wr v) (enc v)"
    and reads: "valid v \<Longrightarrow> reads rd (enc v) v"
begin

text \<open>Whatever an encoder wrote, its decoder reads back, and both cursors meet.\<close>

lemma round_trip:
  assumes "valid v" "wf_writer w" "wr_status w = MU_STATUS_GOOD" "wr_buffer w \<noteq> None"
    and "wr v w = (MU_STATUS_GOOD, w')"
  shows "rd \<lparr>rd_buffer = wr_buffer w', rd_length = wr_position w', rd_position = wr_position w,
             rd_status = MU_STATUS_GOOD\<rparr> =
    (Inr v, \<lparr>rd_buffer = wr_buffer w', rd_length = wr_position w', rd_position = wr_position w',
             rd_status = MU_STATUS_GOOD\<rparr>)"
proof -
  obtain b where b: "wr_buffer w = Some b" using assms(4) by blast
  have fits: "wr_position w + length (enc v) \<le> wr_length w"
    using encodes_too_big [OF encodes [OF assms(1)] b assms(3,2)] assms(5) by fastforce
  have len: "wr_length w \<le> length b"
    using assms(2) b by (simp add: wf_writer_def)
  have fits_b: "wr_position w + length (enc v) \<le> length b"
    using fits len by linarith
  have w': "w' = w\<lparr>wr_buffer := Some (put_at (wr_position w) (enc v) b),
      wr_position := wr_position w + length (enc v)\<rparr>"
    using encodes_fits [OF encodes [OF assms(1)] b assms(3,2) fits] assms(5) by simp
  show ?thesis
    unfolding w' using fits_b
    by (subst readsD [OF reads [OF assms(1)], where b = "put_at (wr_position w) (enc v) b"]) simp_all
qed

lemma prefix_free:
  assumes "valid v" "valid v'" "enc v @ xs = enc v' @ ys"
  shows "v = v'" and "xs = ys"
  using reads_prefix_unique [OF reads [OF assms(1)] reads [OF assms(2)] assms(3)] assms(3) by auto

lemma list_encodes: "(\<And>x. x \<in> set xs \<Longrightarrow> valid x) \<Longrightarrow> encodes (wr_list wr xs) (concat (map enc xs))"
  by (intro encodes_list encodes) auto

lemma list_reads:
  "(\<And>x. x \<in> set xs \<Longrightarrow> valid x) \<Longrightarrow> reads (rd_list (length xs) rd) (concat (map enc xs)) xs"
  by (intro reads_list reads) auto

end

interpretation boolean_codec: codec mu_binary_write_boolean mu_binary_read_boolean
  "\<lambda>b. [if b then 1 else 0]" "\<lambda>_. True"
  by unfold_locales (rule encodes_primitives reads_primitives)+

interpretation byte_codec: codec mu_binary_write_byte mu_binary_read_byte "\<lambda>x. [x]" "\<lambda>_. True"
  by unfold_locales (rule encodes_primitives reads_primitives)+

interpretation uint16_codec: codec mu_binary_write_uint16 mu_binary_read_uint16 mu_binary_le_put_u16 "\<lambda>_. True"
  by unfold_locales (rule encodes_primitives reads_primitives)+

interpretation uint32_codec: codec mu_binary_write_uint32 mu_binary_read_uint32 mu_binary_le_put_u32 "\<lambda>_. True"
  by unfold_locales (rule encodes_primitives reads_primitives)+

interpretation int32_codec: codec mu_binary_write_int32 mu_binary_read_int32 mu_binary_le_put_u32 "\<lambda>_. True"
  by unfold_locales (rule encodes_primitives reads_primitives)+

interpretation uint64_codec: codec mu_binary_write_uint64 mu_binary_read_uint64 mu_binary_le_put_u64 "\<lambda>_. True"
  by unfold_locales (rule encodes_primitives reads_primitives)+

interpretation double_codec: codec mu_binary_write_double mu_binary_read_double mu_binary_le_put_u64 "\<lambda>_. True"
  by unfold_locales (rule encodes_primitives reads_float)+

end
