(* ===== verification/Mu_Strings.thy ===== *)
theory Mu_Strings
  imports Mu_Binary_IO
begin

unbundle bit_operations_syntax

text \<open>
  Strings and the structures made of strings: \<^verbatim>\<open>src/encoding/binary_string.c\<close>, and from
  \<^verbatim>\<open>binary_reader.c\<close> and \<^verbatim>\<open>binary_writer.c\<close> the identity tokens, \<^verbatim>\<open>Range\<close>, \<^verbatim>\<open>LocalizedText\<close>
  and \<^verbatim>\<open>EUInformation\<close>.  The data types are those of \<^verbatim>\<open>include/muc_opcua/types.h\<close>.
\<close>

section \<open>Data\<close>

record mu_string =
  str_length :: opcua_int32_t
  str_data :: "bytes option"

type_synonym mu_bytestring = mu_string

abbreviation null_string :: mu_string where
  "null_string \<equiv> \<lparr>str_length = -1, str_data = None\<rparr>"

record mu_localized_text =
  lt_locale :: mu_string
  lt_text :: mu_string

record mu_range =
  low :: opcua_double_t
  high :: opcua_double_t

record mu_eu_information =
  eu_namespace_uri :: mu_string
  unit_id :: opcua_int32_t
  display_name :: mu_localized_text
  description :: mu_localized_text

record mu_username_identity_token =
  un_policy_id :: mu_string
  un_username :: mu_string
  un_password :: mu_bytestring
  un_encryption_algorithm :: mu_string

record mu_certificate_identity_token =
  ct_policy_id :: mu_string
  ct_certificate_data :: mu_bytestring

text \<open>
  A string that is represented as the code represents it: the null string, or a length that counts
  the bytes of its data and stays within the encoding limit.
\<close>

definition mk_string :: "bytes \<Rightarrow> mu_string" where
  "mk_string d = \<lparr>str_length = of_nat (length d), str_data = Some d\<rparr>"

definition valid_string :: "mu_string \<Rightarrow> bool" where
  "valid_string s \<longleftrightarrow>
     (case str_data s of
        None \<Rightarrow> str_length s = -1
      | Some d \<Rightarrow> str_length s = of_nat (length d) \<and> length d \<le> MU_MAX_ENCODED_STRING_LENGTH)"

section \<open>Strings\<close>

definition string_reader_fail :: "opcua_statuscode_t \<Rightarrow> 'a rd" where
  "string_reader_fail status r = (Inl status, r\<lparr>rd_status := status\<rparr>)"

definition ensure_string_payload :: "opcua_int32_t \<Rightarrow> unit rd" where
  "ensure_string_payload length' r =
    (if sint length' \<le> 0 then (Inr (), r)
     else if rd_position r > rd_length r then string_reader_fail MU_STATUS_BAD_DECODINGERROR r
     else if unat length' > rd_length r - rd_position r then string_reader_fail MU_STATUS_BAD_DECODINGERROR r
     else (Inr (), r))"

definition mu_binary_read_string :: "mu_string rd" where
  "mu_binary_read_string =
    rd_bind mu_binary_read_int32 (\<lambda>length'.
      if length' = -1 then rd_return \<lparr>str_length = length', str_data = None\<rparr>
      else if sint length' < 0 then rd_error MU_STATUS_BAD_DECODINGERROR
      else if sint length' > int MU_MAX_ENCODED_STRING_LENGTH then rd_error MU_STATUS_BAD_ENCODINGLIMITSEXCEEDED
      else rd_bind (ensure_string_payload length') (\<lambda>_.
        rd_take (unat length') (\<lambda>d. \<lparr>str_length = length', str_data = Some d\<rparr>)))"

text \<open>
  \<open>wr_memcpy\<close> is \<^verbatim>\<open>mu_checked_memcpy_off\<close> on the writer's own buffer followed by the advance of
  the cursor; the buffer is non-null there because the length was just written through it.
\<close>

definition wr_memcpy :: "opcua_statuscode_t \<Rightarrow> bytes \<Rightarrow> nat \<Rightarrow> wr" where
  "wr_memcpy err src n w =
    (case wr_buffer w of
       None \<Rightarrow> (err, w)
     | Some b \<Rightarrow> (case mu_checked_memcpy_off b (wr_length w) (wr_position w) src n of
         None \<Rightarrow> (err, w)
       | Some b' \<Rightarrow> (MU_STATUS_GOOD, w\<lparr>wr_buffer := Some b', wr_position := wr_position w + n\<rparr>)))"

definition str_bytes :: "mu_string \<Rightarrow> bytes" where
  "str_bytes s = (case str_data s of None \<Rightarrow> [] | Some d \<Rightarrow> d)"

definition mu_binary_write_string :: "mu_string \<Rightarrow> wr" where
  "mu_binary_write_string value =
    (if str_length value = -1 then mu_binary_write_int32 (-1)
     else if sint (str_length value) < 0 then wr_return MU_STATUS_BAD_ENCODINGERROR
     else if sint (str_length value) > int MU_MAX_ENCODED_STRING_LENGTH
       then wr_return MU_STATUS_BAD_ENCODINGLIMITSEXCEEDED
     else wr_seq (mu_binary_write_int32 (str_length value))
       (if sint (str_length value) > 0
        then wr_memcpy MU_STATUS_BAD_ENCODINGERROR (str_bytes value) (unat (str_length value))
        else wr_return MU_STATUS_GOOD))"

definition mu_binary_read_bytestring :: "mu_bytestring rd" where
  "mu_binary_read_bytestring = mu_binary_read_string"

definition mu_binary_write_bytestring :: "mu_bytestring \<Rightarrow> wr" where
  "mu_binary_write_bytestring value = mu_binary_write_string value"

section \<open>Identity tokens\<close>

definition mu_binary_read_username_identity_token :: "mu_username_identity_token rd" where
  "mu_binary_read_username_identity_token =
    rd_bind reader_status (\<lambda>_.
    rd_bind mu_binary_read_string (\<lambda>policy_id.
    rd_bind mu_binary_read_string (\<lambda>username.
    rd_bind mu_binary_read_bytestring (\<lambda>password.
    rd_bind mu_binary_read_string (\<lambda>encryption_algorithm.
    rd_return \<lparr>un_policy_id = policy_id, un_username = username, un_password = password,
               un_encryption_algorithm = encryption_algorithm\<rparr>)))))"

definition mu_binary_read_certificate_identity_token :: "mu_certificate_identity_token rd" where
  "mu_binary_read_certificate_identity_token =
    rd_bind reader_status (\<lambda>_.
    rd_bind mu_binary_read_string (\<lambda>policy_id.
    rd_bind mu_binary_read_bytestring (\<lambda>certificate_data.
    rd_return \<lparr>ct_policy_id = policy_id, ct_certificate_data = certificate_data\<rparr>)))"

section \<open>Range, LocalizedText and EUInformation\<close>

definition mu_binary_read_range :: "mu_range rd" where
  "mu_binary_read_range =
    rd_bind mu_binary_read_double (\<lambda>lo.
    rd_bind mu_binary_read_double (\<lambda>hi. rd_return \<lparr>low = lo, high = hi\<rparr>))"

definition mu_binary_write_range :: "mu_range \<Rightarrow> wr" where
  "mu_binary_write_range value =
    wr_seq (mu_binary_write_double (low value)) (mu_binary_write_double (high value))"

definition mu_binary_read_localized_text :: "mu_localized_text rd" where
  "mu_binary_read_localized_text =
    rd_bind mu_binary_read_byte (\<lambda>mask.
    rd_bind (if mask AND 0x01 \<noteq> 0 then mu_binary_read_string else rd_return null_string) (\<lambda>loc.
    rd_bind (if mask AND 0x02 \<noteq> 0 then mu_binary_read_string else rd_return null_string) (\<lambda>txt.
    rd_return \<lparr>lt_locale = loc, lt_text = txt\<rparr>)))"

definition localized_text_mask :: "mu_localized_text \<Rightarrow> opcua_byte_t" where
  "localized_text_mask value =
    (let mask = (if sint (str_length (lt_locale value)) \<ge> 0 then 0 OR 0x01 else 0)
     in if sint (str_length (lt_text value)) \<ge> 0 then mask OR 0x02 else mask)"

definition mu_binary_write_localized_text :: "mu_localized_text \<Rightarrow> wr" where
  "mu_binary_write_localized_text value =
    (let mask = localized_text_mask value in
     wr_seq (mu_binary_write_byte mask)
       (wr_seq (if mask AND 0x01 \<noteq> 0 then mu_binary_write_string (lt_locale value) else wr_return MU_STATUS_GOOD)
         (if mask AND 0x02 \<noteq> 0 then mu_binary_write_string (lt_text value) else wr_return MU_STATUS_GOOD)))"

definition mu_binary_read_eu_information :: "mu_eu_information rd" where
  "mu_binary_read_eu_information =
    rd_bind mu_binary_read_string (\<lambda>uri.
    rd_bind mu_binary_read_int32 (\<lambda>unit.
    rd_bind mu_binary_read_localized_text (\<lambda>dn.
    rd_bind mu_binary_read_localized_text (\<lambda>desc.
    rd_return \<lparr>eu_namespace_uri = uri, unit_id = unit, display_name = dn, description = desc\<rparr>))))"

definition mu_binary_write_eu_information :: "mu_eu_information \<Rightarrow> wr" where
  "mu_binary_write_eu_information value =
    wr_seq (mu_binary_write_string (eu_namespace_uri value))
    (wr_seq (mu_binary_write_int32 (unit_id value))
    (wr_seq (mu_binary_write_localized_text (display_name value))
      (mu_binary_write_localized_text (description value))))"

section \<open>Contracts\<close>

lemma reader_op_payload:
  assumes "0 \<le> sint n"
  shows "reader_op (rd_bind (ensure_string_payload n) (\<lambda>_. rd_take (unat n) f))"
proof unfold_locales
  fix r1 r2 :: mu_binary_reader
  let ?m = "rd_bind (ensure_string_payload n) (\<lambda>_. rd_take (unat n) f)"
  assume view: "same_view r1 r2"
  have zero: "unat n = 0" if "sint n \<le> 0"
    using that assms by (metis antisym sint_0 signed_word_eqI unat_0)
  show "fst (?m r1) = fst (?m r2) \<and> same_view (snd (?m r1)) (snd (?m r2))"
  proof (cases "rd_buffer r1")
    case None
    then have "rd_buffer r2 = None" using view by (auto simp: same_view_def)
    then show ?thesis
      using None view
      by (auto simp: rd_bind_def ensure_string_payload_def rd_take_def string_reader_fail_def same_view_def)
  next
    case (Some b)
    then show ?thesis
      using view same_view_slice [OF view, of "unat n"] zero
      by (auto simp: rd_bind_def ensure_string_payload_def rd_take_def string_reader_fail_def
          same_view_def slice_def)
  qed
next
  fix r :: mu_binary_reader
  have zero: "unat n = 0" if "sint n \<le> 0"
    using that assms by (metis antisym sint_0 signed_word_eqI unat_0)
  assume "rd_position r \<le> rd_length r"
  then show "rd_position (snd (rd_bind (ensure_string_payload n) (\<lambda>_. rd_take (unat n) f) r)) \<le> rd_length r"
    using zero by (auto simp: rd_bind_def ensure_string_payload_def rd_take_def string_reader_fail_def)
qed (auto simp: rd_bind_def ensure_string_payload_def rd_take_def string_reader_fail_def split: if_splits)

lemma decoder_string [decoder_intros]:
  "decoder mu_binary_read_string" "decoder mu_binary_read_bytestring"
  unfolding mu_binary_read_bytestring_def mu_binary_read_string_def
  by (auto intro!: decoder_intros reader_op_payload)

lemma reader_op_string [decoder_intros]:
  "reader_op mu_binary_read_string" "reader_op mu_binary_read_bytestring"
  by (auto intro: decoder_reader_op decoder_intros)

text \<open>The value a string read yields, by the bytes at the cursor.\<close>

lemma read_string_value:
  assumes "rd_buffer r = Some b" "mu_binary_read_string r = (Inr s, r')"
  defines "l \<equiv> mu_binary_le_get_u32 (slice (rd_position r) 4 b)"
  shows "str_length s = l" "rd_position r' = rd_position r + 4 + nat (sint l)" "rd_buffer r' = Some b"
    "0 < sint l \<longrightarrow> str_data s = Some (slice (rd_position r + 4) (nat (sint l)) b)"
proof -
  obtain n r1 where n: "mu_binary_read_uint32 r = (Inr n, r1)"
    and k: "(if n = -1 then rd_return \<lparr>str_length = n, str_data = None\<rparr>
      else if sint n < 0 then rd_error MU_STATUS_BAD_DECODINGERROR
      else if sint n > int MU_MAX_ENCODED_STRING_LENGTH then rd_error MU_STATUS_BAD_ENCODINGLIMITSEXCEEDED
      else rd_bind (ensure_string_payload n) (\<lambda>_.
        rd_take (unat n) (\<lambda>d. \<lparr>str_length = n, str_data = Some d\<rparr>))) r1 = (Inr s, r')"
    using assms(2) unfolding mu_binary_read_string_def
    by (elim rd_bind_InrE) (simp add: mu_binary_read_int32_def mu_binary_read_uint32_def)
  note v = read_u32_value [OF assms(1) n]
  have l: "n = l" using v(1) l_def by simp
  show "str_length s = l" "rd_position r' = rd_position r + 4 + nat (sint l)" "rd_buffer r' = Some b"
    "0 < sint l \<longrightarrow> str_data s = Some (slice (rd_position r + 4) (nat (sint l)) b)"
    using k v(2,3) unfolding l
    by (auto simp: rd_return_def rd_error_def rd_bind_def rd_take_def ensure_string_payload_def string_reader_fail_def nat_sint_unat
        split: if_splits)
qed

lemma reader_op_primitives [decoder_intros]:
  "reader_op mu_binary_read_boolean" "reader_op mu_binary_read_sbyte" "reader_op mu_binary_read_byte"
  "reader_op mu_binary_read_int16" "reader_op mu_binary_read_uint16" "reader_op mu_binary_read_int32"
  "reader_op mu_binary_read_uint32" "reader_op mu_binary_read_int64" "reader_op mu_binary_read_uint64"
  "reader_op mu_binary_read_float" "reader_op mu_binary_read_double" "reader_op mu_binary_read_statuscode"
  "reader_op mu_binary_read_array_length"
  by (auto intro: decoder_reader_op decoder_intros)

lemma decoder_tokens [decoder_intros]:
  "decoder mu_binary_read_username_identity_token"
  "decoder mu_binary_read_certificate_identity_token"
  unfolding mu_binary_read_username_identity_token_def mu_binary_read_certificate_identity_token_def
  by (intro decoder_intros decoder_status)+

lemma decoder_localized_text [decoder_intros]: "decoder mu_binary_read_localized_text"
  unfolding mu_binary_read_localized_text_def by (auto intro!: decoder_intros)

lemma reader_op_localized_text [decoder_intros]: "reader_op mu_binary_read_localized_text"
  by (rule decoder_reader_op [OF decoder_localized_text])

lemma decoder_range [decoder_intros]: "decoder mu_binary_read_range"
  unfolding mu_binary_read_range_def by (intro decoder_intros)

lemma decoder_eu_information [decoder_intros]: "decoder mu_binary_read_eu_information"
  unfolding mu_binary_read_eu_information_def by (intro decoder_intros)

lemma writer_op_memcpy [encoder_intros]: "err \<noteq> MU_STATUS_GOOD \<Longrightarrow> writer_op (wr_memcpy err src n)"
proof unfold_locales
  fix w :: mu_binary_writer
  assume w: "wf_writer w"
  show "wr_frame w (snd (wr_memcpy err src n w))"
  proof (cases "wr_buffer w")
    case None
    then show ?thesis using wr_frame_refl [OF w] by (simp add: wr_memcpy_def)
  next
    case (Some b)
    then have "wr_length w \<le> length b" "wr_position w \<le> wr_length w"
      using w by (simp_all add: wf_writer_def)
    then show ?thesis
      using Some wr_frame_refl [OF w]
      by (auto simp: wr_memcpy_def mu_checked_memcpy_off_def wr_frame_def)
  qed
qed (auto simp: wr_memcpy_def split: option.splits)

lemma encoder_string [encoder_intros]:
  "encoder (mu_binary_write_string s)" "encoder (mu_binary_write_bytestring s)"
  unfolding mu_binary_write_bytestring_def mu_binary_write_string_def
  by (auto intro!: encoder_intros)

lemma writer_op_primitives [encoder_intros]:
  "writer_op (mu_binary_write_boolean b)" "writer_op (mu_binary_write_sbyte x)"
  "writer_op (mu_binary_write_byte x)" "writer_op (mu_binary_write_int16 u16)"
  "writer_op (mu_binary_write_uint16 u16)" "writer_op (mu_binary_write_int32 u32)"
  "writer_op (mu_binary_write_uint32 u32)" "writer_op (mu_binary_write_int64 u64)"
  "writer_op (mu_binary_write_uint64 u64)" "writer_op (mu_binary_write_float u32)"
  "writer_op (mu_binary_write_double u64)" "writer_op (mu_binary_write_statuscode u32)"
  "writer_op (mu_binary_write_string s)" "writer_op (mu_binary_write_bytestring s)"
  by (auto intro: encoder_writer_op encoder_intros)

lemma encoder_localized_text [encoder_intros]: "encoder (mu_binary_write_localized_text v)"
  unfolding mu_binary_write_localized_text_def Let_def by (intro encoder_intros)

lemma writer_op_localized_text [encoder_intros]: "writer_op (mu_binary_write_localized_text v)"
  by (rule encoder_writer_op [OF encoder_localized_text])

lemma encoder_range [encoder_intros]: "encoder (mu_binary_write_range v)"
  unfolding mu_binary_write_range_def by (intro encoder_intros)

lemma encoder_eu_information [encoder_intros]: "encoder (mu_binary_write_eu_information v)"
  unfolding mu_binary_write_eu_information_def by (intro encoder_intros)

section \<open>Byte layouts\<close>

definition enc_string :: "mu_string \<Rightarrow> bytes" where
  "enc_string s = mu_binary_le_put_u32 (str_length s) @ str_bytes s"

lemma valid_string_cases:
  assumes "valid_string s"
  obtains (null) "s = null_string"
    | (bytes) d where "s = mk_string d" "length d \<le> MU_MAX_ENCODED_STRING_LENGTH"
  using assms by (cases s; cases "str_data s") (auto simp: valid_string_def mk_string_def)

lemma enc_string_simps [simp]:
  "enc_string null_string = mu_binary_le_put_u32 (-1)"
  "enc_string (mk_string d) = mu_binary_le_put_u32 (of_nat (length d)) @ d"
  by (simp_all add: enc_string_def str_bytes_def mk_string_def)

lemma valid_mk_string [simp]: "valid_string (mk_string d) \<longleftrightarrow> length d \<le> MU_MAX_ENCODED_STRING_LENGTH"
  by (simp add: valid_string_def mk_string_def)

lemma valid_null_string [simp]: "valid_string null_string"
  by (simp add: valid_string_def)

lemma encodes_memcpy: "err \<noteq> MU_STATUS_GOOD \<Longrightarrow> length d = n \<Longrightarrow> encodes (wr_memcpy err d n) d"
  by (auto simp: encodes_def wr_memcpy_def mu_checked_memcpy_off_def wf_writer_def)

lemma encodes_string: "valid_string s \<Longrightarrow> encodes (mu_binary_write_string s) (enc_string s)"
proof (erule valid_string_cases)
  assume "s = null_string"
  then show ?thesis by (simp add: mu_binary_write_string_def encodes_primitives)
next
  fix d assume s: "s = mk_string d" "length d \<le> MU_MAX_ENCODED_STRING_LENGTH"
  have sb: "str_bytes (mk_string d) = d" by (simp add: str_bytes_def mk_string_def)
  have sint: "sint (of_nat (length d) :: 32 word) = int (length d)"
    "unat (of_nat (length d) :: 32 word) = length d" "(of_nat (length d) :: 32 word) \<noteq> -1"
    using s(2) by (auto intro!: int32_of_nat)
  show ?thesis
  proof (cases "d = []")
    case True
    then show ?thesis
      using encodes_seq_return [OF encodes_primitives(6)]
      by (simp add: s mu_binary_write_string_def mk_string_def enc_string_def str_bytes_def)
  next
    case False
    then show ?thesis
      using s(2) encodes_seq [OF encodes_primitives(6) encodes_memcpy, of MU_STATUS_BAD_ENCODINGERROR d "length d"]
      by (simp add: s(1) mu_binary_write_string_def sb sint mk_string_def [THEN arg_cong [of _ _ str_length]])
  qed
qed

lemma reads_payload:
  assumes "length d \<le> MU_MAX_ENCODED_STRING_LENGTH"
  shows "reads (rd_bind (ensure_string_payload (of_nat (length d)))
     (\<lambda>_. rd_take (unat (of_nat (length d) :: 32 word)) f)) d (f d)"
  using assms
  by (auto simp: reads_def rd_bind_def ensure_string_payload_def rd_take_def int32_of_nat)

lemma reads_string: "valid_string s \<Longrightarrow> reads mu_binary_read_string (enc_string s) s"
proof (erule valid_string_cases)
  assume "s = null_string"
  then show ?thesis
    unfolding mu_binary_read_string_def
    by (simp only: enc_string_simps) (rule reads_bind_Nil [OF reads_primitives(6)], simp add: reads_return)
next
  fix d assume s: "s = mk_string d" "length d \<le> MU_MAX_ENCODED_STRING_LENGTH"
  then show ?thesis
    unfolding mu_binary_read_string_def s(1) enc_string_simps
    by (intro reads_bind [OF reads_primitives(6)])
      (use reads_payload [OF s(2)] in \<open>simp add: int32_of_nat mk_string_def\<close>)
qed

interpretation string_codec: codec mu_binary_write_string mu_binary_read_string enc_string valid_string
  by unfold_locales (simp_all add: encodes_string reads_string)

lemma encodes_if:
  "(b \<Longrightarrow> encodes m xs) \<Longrightarrow> (\<not> b \<Longrightarrow> encodes n ys) \<Longrightarrow> encodes (if b then m else n) (if b then xs else ys)"
  by simp

lemma reads_if:
  "(b \<Longrightarrow> reads m xs v) \<Longrightarrow> (\<not> b \<Longrightarrow> reads n ys v) \<Longrightarrow> reads (if b then m else n) (if b then xs else ys) v"
  by simp

definition valid_localized_text :: "mu_localized_text \<Rightarrow> bool" where
  "valid_localized_text v \<longleftrightarrow> valid_string (lt_locale v) \<and> valid_string (lt_text v)"

definition enc_localized_text :: "mu_localized_text \<Rightarrow> bytes" where
  "enc_localized_text v =
    [localized_text_mask v] @ (if localized_text_mask v AND 0x01 \<noteq> 0 then enc_string (lt_locale v) else []) @
    (if localized_text_mask v AND 0x02 \<noteq> 0 then enc_string (lt_text v) else [])"

lemma localized_text_mask_bits:
  "localized_text_mask v AND 0x01 \<noteq> 0 \<longleftrightarrow> sint (str_length (lt_locale v)) \<ge> 0"
  "localized_text_mask v AND 0x02 \<noteq> 0 \<longleftrightarrow> sint (str_length (lt_text v)) \<ge> 0"
  by (simp_all add: localized_text_mask_def Let_def)

lemma valid_string_absent: "valid_string s \<Longrightarrow> sint (str_length s) < 0 \<Longrightarrow> s = null_string"
  by (erule valid_string_cases) (auto simp: mk_string_def int32_of_nat)

lemma encodes_localized_text:
  assumes "valid_localized_text v"
  shows "encodes (mu_binary_write_localized_text v) (enc_localized_text v)"
  using assms unfolding mu_binary_write_localized_text_def enc_localized_text_def Let_def
  by (intro encodes_seq encodes_if encodes_primitives encodes_string encodes_Nil)
    (auto simp: valid_localized_text_def)

lemma reads_localized_text:
  assumes "valid_localized_text v"
  shows "reads mu_binary_read_localized_text (enc_localized_text v) v"
proof -
  have absent: "rd_return null_string = rd_return (lt_locale v)"
    if "\<not> localized_text_mask v AND 0x01 \<noteq> 0"
    using that assms valid_string_absent [of "lt_locale v"] unfolding localized_text_mask_bits
    by (simp add: valid_localized_text_def not_le)
  have absent': "rd_return null_string = rd_return (lt_text v)"
    if "\<not> localized_text_mask v AND 0x02 \<noteq> 0"
    using that assms valid_string_absent [of "lt_text v"] unfolding localized_text_mask_bits
    by (simp add: valid_localized_text_def not_le)
  show ?thesis
    using assms unfolding mu_binary_read_localized_text_def enc_localized_text_def
    by (intro reads_bind [where x = "localized_text_mask v"] reads_bind [where x = "lt_locale v"]
        reads_bind_return [where x = "lt_text v"] reads_if reads_primitives reads_string)
      (auto simp: valid_localized_text_def absent absent' reads_return)
qed

interpretation localized_text_codec: codec mu_binary_write_localized_text mu_binary_read_localized_text
  enc_localized_text valid_localized_text
  by unfold_locales (simp_all add: encodes_localized_text reads_localized_text)

definition enc_range :: "mu_range \<Rightarrow> bytes" where
  "enc_range v = mu_binary_le_put_u64 (low v) @ mu_binary_le_put_u64 (high v)"

interpretation range_codec: codec mu_binary_write_range mu_binary_read_range enc_range "\<lambda>_. True"
proof
  fix v
  show "encodes (mu_binary_write_range v) (enc_range v)"
    unfolding mu_binary_write_range_def enc_range_def by (intro encodes_seq encodes_primitives)
  show "reads mu_binary_read_range (enc_range v) v"
    unfolding mu_binary_read_range_def enc_range_def
    by (rule reads_bind reads_bind_return reads_float)+ simp
qed

definition valid_eu_information :: "mu_eu_information \<Rightarrow> bool" where
  "valid_eu_information v \<longleftrightarrow> valid_string (eu_namespace_uri v) \<and>
     valid_localized_text (display_name v) \<and> valid_localized_text (description v)"

definition enc_eu_information :: "mu_eu_information \<Rightarrow> bytes" where
  "enc_eu_information v = enc_string (eu_namespace_uri v) @ mu_binary_le_put_u32 (unit_id v) @
     enc_localized_text (display_name v) @ enc_localized_text (description v)"

interpretation eu_information_codec: codec mu_binary_write_eu_information mu_binary_read_eu_information
  enc_eu_information valid_eu_information
proof
  fix v assume v: "valid_eu_information v"
  show "encodes (mu_binary_write_eu_information v) (enc_eu_information v)"
    using v unfolding mu_binary_write_eu_information_def enc_eu_information_def
    by (intro encodes_seq encodes_primitives encodes_string encodes_localized_text)
      (auto simp: valid_eu_information_def)
  show "reads mu_binary_read_eu_information (enc_eu_information v) v"
    using v unfolding mu_binary_read_eu_information_def enc_eu_information_def
    by (intro reads_bind [where x = "eu_namespace_uri v"] reads_bind [where x = "unit_id v"]
        reads_bind [where x = "display_name v"] reads_bind_return [where x = "description v"]
        reads_primitives reads_string reads_localized_text)
      (auto simp: valid_eu_information_def)
qed

end
