(* ===== verification/Mu_Security_Policy.thy ===== *)
theory Mu_Security_Policy
  imports Mu_Prelude
begin

text \<open>
  Security policies: \<^verbatim>\<open>src/security/security_policy.h\<close> and
  \<^verbatim>\<open>src/security/security_policy.c\<close>, with the secured and the elliptic-curve rows of the policy table
  compiled in.  A C string is its bytes without the terminator; \<^const>\<open>None\<close> is a null pointer.
\<close>

section \<open>Policies and their parameters\<close>

datatype mu_security_policy_id =
    MU_SECURITY_POLICY_INVALID_ID
  | MU_SECURITY_POLICY_NONE_ID
  | MU_SECURITY_POLICY_BASIC256SHA256_ID
  | MU_SECURITY_POLICY_AES128_SHA256_RSAOAEP_ID
  | MU_SECURITY_POLICY_AES256_SHA256_RSAPSS_ID
  | MU_SECURITY_POLICY_ECC_NISTP256_ID
  | MU_SECURITY_POLICY_ECC_CURVE25519_ID

datatype mu_asym_family = MU_ASYM_FAMILY_NONE | MU_ASYM_FAMILY_RSA | MU_ASYM_FAMILY_ECC

datatype mu_sym_mode = MU_SYM_MODE_NONE | MU_SYM_MODE_CBC_HMAC | MU_SYM_MODE_AEAD_CHACHA20POLY1305

datatype mu_ecc_curve = MU_ECC_CURVE_25519 | MU_ECC_CURVE_NISTP256

text \<open>The security mode of a message travels as a 32-bit number; any number can arrive.\<close>

type_synonym mu_message_security_mode = opcua_uint32_t

abbreviation (input) MU_MESSAGE_SECURITY_MODE_INVALID :: mu_message_security_mode
  where "MU_MESSAGE_SECURITY_MODE_INVALID \<equiv> 0"
abbreviation (input) MU_MESSAGE_SECURITY_MODE_NONE :: mu_message_security_mode
  where "MU_MESSAGE_SECURITY_MODE_NONE \<equiv> 1"
abbreviation (input) MU_MESSAGE_SECURITY_MODE_SIGN :: mu_message_security_mode
  where "MU_MESSAGE_SECURITY_MODE_SIGN \<equiv> 2"
abbreviation (input) MU_MESSAGE_SECURITY_MODE_SIGN_AND_ENCRYPT :: mu_message_security_mode
  where "MU_MESSAGE_SECURITY_MODE_SIGN_AND_ENCRYPT \<equiv> 3"

record mu_security_policy_params =
  pp_id :: mu_security_policy_id
  pp_uri :: bytes
  pp_sig_key_len :: nat
  pp_enc_key_len :: nat
  pp_block_size :: nat
  pp_sig_len :: nat
  pp_nonce_len :: nat
  pp_iv_len :: nat
  pp_allows_username :: bool
  pp_asym_family :: mu_asym_family
  pp_sym_mode :: mu_sym_mode
  pp_ecc_curve :: mu_ecc_curve

definition POLICY_NONE_URI :: bytes where
  "POLICY_NONE_URI = cstr ''http://opcfoundation.org/UA/SecurityPolicy#None''"
definition POLICY_B256S256_URI :: bytes where
  "POLICY_B256S256_URI = cstr ''http://opcfoundation.org/UA/SecurityPolicy#Basic256Sha256''"
definition POLICY_AES128_OAEP_URI :: bytes where
  "POLICY_AES128_OAEP_URI = cstr ''http://opcfoundation.org/UA/SecurityPolicy#Aes128_Sha256_RsaOaep''"
definition POLICY_AES256_PSS_URI :: bytes where
  "POLICY_AES256_PSS_URI = cstr ''http://opcfoundation.org/UA/SecurityPolicy#Aes256_Sha256_RsaPss''"
definition POLICY_ECC_NISTP256_URI :: bytes where
  "POLICY_ECC_NISTP256_URI = cstr ''http://opcfoundation.org/UA/SecurityPolicy#ECC_nistP256''"
definition POLICY_ECC_CURVE25519_URI :: bytes where
  "POLICY_ECC_CURVE25519_URI = cstr ''http://opcfoundation.org/UA/SecurityPolicy#ECC_curve25519''"

text \<open>The rows of the non-elliptic policies hold 0 in the curve column, which is curve 25519's number.\<close>

definition POLICY_TABLE :: "mu_security_policy_params list" where
  "POLICY_TABLE =
   [\<lparr>pp_id = MU_SECURITY_POLICY_NONE_ID, pp_uri = POLICY_NONE_URI,
     pp_sig_key_len = 0, pp_enc_key_len = 0, pp_block_size = 0, pp_sig_len = 0, pp_nonce_len = 0, pp_iv_len = 0,
     pp_allows_username = False, pp_asym_family = MU_ASYM_FAMILY_NONE, pp_sym_mode = MU_SYM_MODE_NONE,
     pp_ecc_curve = MU_ECC_CURVE_25519\<rparr>,
    \<lparr>pp_id = MU_SECURITY_POLICY_BASIC256SHA256_ID, pp_uri = POLICY_B256S256_URI,
     pp_sig_key_len = 32, pp_enc_key_len = 32, pp_block_size = 16, pp_sig_len = 32, pp_nonce_len = 32, pp_iv_len = 16,
     pp_allows_username = True, pp_asym_family = MU_ASYM_FAMILY_RSA, pp_sym_mode = MU_SYM_MODE_CBC_HMAC,
     pp_ecc_curve = MU_ECC_CURVE_25519\<rparr>,
    \<lparr>pp_id = MU_SECURITY_POLICY_AES128_SHA256_RSAOAEP_ID, pp_uri = POLICY_AES128_OAEP_URI,
     pp_sig_key_len = 32, pp_enc_key_len = 16, pp_block_size = 16, pp_sig_len = 32, pp_nonce_len = 32, pp_iv_len = 16,
     pp_allows_username = True, pp_asym_family = MU_ASYM_FAMILY_RSA, pp_sym_mode = MU_SYM_MODE_CBC_HMAC,
     pp_ecc_curve = MU_ECC_CURVE_25519\<rparr>,
    \<lparr>pp_id = MU_SECURITY_POLICY_AES256_SHA256_RSAPSS_ID, pp_uri = POLICY_AES256_PSS_URI,
     pp_sig_key_len = 32, pp_enc_key_len = 32, pp_block_size = 16, pp_sig_len = 32, pp_nonce_len = 32, pp_iv_len = 16,
     pp_allows_username = True, pp_asym_family = MU_ASYM_FAMILY_RSA, pp_sym_mode = MU_SYM_MODE_CBC_HMAC,
     pp_ecc_curve = MU_ECC_CURVE_25519\<rparr>,
    \<lparr>pp_id = MU_SECURITY_POLICY_ECC_NISTP256_ID, pp_uri = POLICY_ECC_NISTP256_URI,
     pp_sig_key_len = 32, pp_enc_key_len = 16, pp_block_size = 16, pp_sig_len = 32, pp_nonce_len = 64, pp_iv_len = 16,
     pp_allows_username = True, pp_asym_family = MU_ASYM_FAMILY_ECC, pp_sym_mode = MU_SYM_MODE_CBC_HMAC,
     pp_ecc_curve = MU_ECC_CURVE_NISTP256\<rparr>,
    \<lparr>pp_id = MU_SECURITY_POLICY_ECC_CURVE25519_ID, pp_uri = POLICY_ECC_CURVE25519_URI,
     pp_sig_key_len = 0, pp_enc_key_len = 32, pp_block_size = 1, pp_sig_len = 16, pp_nonce_len = 32, pp_iv_len = 12,
     pp_allows_username = True, pp_asym_family = MU_ASYM_FAMILY_ECC,
     pp_sym_mode = MU_SYM_MODE_AEAD_CHACHA20POLY1305, pp_ecc_curve = MU_ECC_CURVE_25519\<rparr>]"

section \<open>Look-ups\<close>

definition policy_row :: "mu_security_policy_id \<Rightarrow> mu_security_policy_params option" where
  "policy_row i = find (\<lambda>r. pp_id r = i) POLICY_TABLE"

definition uri_equals :: "bytes \<Rightarrow> nat \<Rightarrow> bytes \<Rightarrow> bool" where
  "uri_equals uri length' expected \<longleftrightarrow> length' = length expected \<and> take length' uri = expected"

definition mu_security_policy_from_uri :: "bytes option \<Rightarrow> nat \<Rightarrow> mu_security_policy_id" where
  "mu_security_policy_from_uri uri length' =
    (case uri of
       None \<Rightarrow> MU_SECURITY_POLICY_NONE_ID
     | Some u \<Rightarrow>
       if length' = 0 then MU_SECURITY_POLICY_NONE_ID
       else (case find (\<lambda>r. uri_equals u length' (pp_uri r)) POLICY_TABLE of
               Some r \<Rightarrow> pp_id r
             | None \<Rightarrow> MU_SECURITY_POLICY_INVALID_ID))"

definition mu_security_policy_uri :: "mu_security_policy_id \<Rightarrow> bytes option" where
  "mu_security_policy_uri i = map_option pp_uri (policy_row i)"

definition mu_security_policy_signature_key_length :: "mu_security_policy_id \<Rightarrow> nat" where
  "mu_security_policy_signature_key_length p = (case policy_row p of Some r \<Rightarrow> pp_sig_key_len r | None \<Rightarrow> 0)"

definition mu_security_policy_allows_username_password_tokens :: "mu_security_policy_id \<Rightarrow> bool" where
  "mu_security_policy_allows_username_password_tokens p =
    (case policy_row p of Some r \<Rightarrow> pp_allows_username r | None \<Rightarrow> False)"

definition mu_security_policy_encryption_key_length :: "mu_security_policy_id \<Rightarrow> nat" where
  "mu_security_policy_encryption_key_length p = (case policy_row p of Some r \<Rightarrow> pp_enc_key_len r | None \<Rightarrow> 0)"

definition mu_security_policy_encryption_block_size :: "mu_security_policy_id \<Rightarrow> nat" where
  "mu_security_policy_encryption_block_size p = (case policy_row p of Some r \<Rightarrow> pp_block_size r | None \<Rightarrow> 0)"

definition mu_security_policy_signature_length :: "mu_security_policy_id \<Rightarrow> nat" where
  "mu_security_policy_signature_length p = (case policy_row p of Some r \<Rightarrow> pp_sig_len r | None \<Rightarrow> 0)"

definition mu_security_policy_nonce_length :: "mu_security_policy_id \<Rightarrow> nat" where
  "mu_security_policy_nonce_length p = (case policy_row p of Some r \<Rightarrow> pp_nonce_len r | None \<Rightarrow> 0)"

definition mu_security_policy_iv_length :: "mu_security_policy_id \<Rightarrow> nat" where
  "mu_security_policy_iv_length p = (case policy_row p of Some r \<Rightarrow> pp_iv_len r | None \<Rightarrow> 0)"

definition mu_security_policy_asym_family :: "mu_security_policy_id \<Rightarrow> mu_asym_family" where
  "mu_security_policy_asym_family p = (case policy_row p of Some r \<Rightarrow> pp_asym_family r | None \<Rightarrow> MU_ASYM_FAMILY_NONE)"

definition mu_security_policy_sym_mode :: "mu_security_policy_id \<Rightarrow> mu_sym_mode" where
  "mu_security_policy_sym_mode p = (case policy_row p of Some r \<Rightarrow> pp_sym_mode r | None \<Rightarrow> MU_SYM_MODE_NONE)"

definition mu_security_policy_ecc_curve :: "mu_security_policy_id \<Rightarrow> mu_ecc_curve option" where
  "mu_security_policy_ecc_curve p =
    (case policy_row p of
       None \<Rightarrow> None
     | Some r \<Rightarrow> if pp_asym_family r \<noteq> MU_ASYM_FAMILY_ECC then None else Some (pp_ecc_curve r))"

definition SIG_URI_RSA_SHA256 :: bytes where
  "SIG_URI_RSA_SHA256 = cstr ''http://www.w3.org/2001/04/xmldsig-more#rsa-sha256''"
definition SIG_URI_RSA_PSS_SHA256 :: bytes where
  "SIG_URI_RSA_PSS_SHA256 = cstr ''http://opcfoundation.org/UA/security/rsa-pss-sha2-256''"

fun mu_security_policy_asym_signature_uri :: "mu_security_policy_id \<Rightarrow> bytes option" where
  "mu_security_policy_asym_signature_uri MU_SECURITY_POLICY_BASIC256SHA256_ID = Some SIG_URI_RSA_SHA256"
| "mu_security_policy_asym_signature_uri MU_SECURITY_POLICY_AES128_SHA256_RSAOAEP_ID = Some SIG_URI_RSA_SHA256"
| "mu_security_policy_asym_signature_uri MU_SECURITY_POLICY_AES256_SHA256_RSAPSS_ID = Some SIG_URI_RSA_PSS_SHA256"
| "mu_security_policy_asym_signature_uri _ = None"

definition mu_security_policy_uses_pss :: "mu_security_policy_id \<Rightarrow> bool" where
  "mu_security_policy_uses_pss p \<longleftrightarrow> p = MU_SECURITY_POLICY_AES256_SHA256_RSAPSS_ID"

section \<open>Facts about the table\<close>

lemmas policy_uri_defs = POLICY_NONE_URI_def POLICY_B256S256_URI_def POLICY_AES128_OAEP_URI_def
  POLICY_AES256_PSS_URI_def POLICY_ECC_NISTP256_URI_def POLICY_ECC_CURVE25519_URI_def

lemma length_policy_uris [simp]:
  "length POLICY_NONE_URI = 47" "length POLICY_B256S256_URI = 57" "length POLICY_AES128_OAEP_URI = 64"
  "length POLICY_AES256_PSS_URI = 63" "length POLICY_ECC_NISTP256_URI = 55" "length POLICY_ECC_CURVE25519_URI = 57"
  by (simp_all add: policy_uri_defs cstr_def)

text \<open>Two of the six URIs have the same length; they differ behind the common prefix.\<close>

lemma policy_uris_same_length: "POLICY_B256S256_URI \<noteq> POLICY_ECC_CURVE25519_URI"
  by (simp add: policy_uri_defs cstr_def)

lemma policy_row_simps [simp]:
  "policy_row MU_SECURITY_POLICY_INVALID_ID = None"
  "policy_row MU_SECURITY_POLICY_NONE_ID = Some (POLICY_TABLE ! 0)"
  "policy_row MU_SECURITY_POLICY_BASIC256SHA256_ID = Some (POLICY_TABLE ! 1)"
  "policy_row MU_SECURITY_POLICY_AES128_SHA256_RSAOAEP_ID = Some (POLICY_TABLE ! 2)"
  "policy_row MU_SECURITY_POLICY_AES256_SHA256_RSAPSS_ID = Some (POLICY_TABLE ! 3)"
  "policy_row MU_SECURITY_POLICY_ECC_NISTP256_ID = Some (POLICY_TABLE ! 4)"
  "policy_row MU_SECURITY_POLICY_ECC_CURVE25519_ID = Some (POLICY_TABLE ! 5)"
  by (simp_all add: policy_row_def POLICY_TABLE_def)

lemma find_SomeD: "find P xs = Some x \<Longrightarrow> P x \<and> x \<in> set xs"
  by (metis find_Some_iff nth_mem)

lemma policy_row_SomeD: "policy_row p = Some r \<Longrightarrow> pp_id r = p \<and> r \<in> set POLICY_TABLE"
  unfolding policy_row_def by (drule find_SomeD) simp

lemma policy_from_uri_known:
  assumes "mu_security_policy_uri p = Some u"
  shows "mu_security_policy_from_uri (Some u) (length u) = p"
  using assms policy_uris_same_length
  by (cases p; simp add: mu_security_policy_uri_def mu_security_policy_from_uri_def POLICY_TABLE_def uri_equals_def)

lemma policy_from_uri_Some:
  assumes "mu_security_policy_from_uri (Some u) (length u) = p" "p \<noteq> MU_SECURITY_POLICY_INVALID_ID" "u \<noteq> []"
  shows "mu_security_policy_uri p = Some u"
proof -
  obtain r where r: "find (\<lambda>r. uri_equals u (length u) (pp_uri r)) POLICY_TABLE = Some r" "pp_id r = p"
    using assms by (auto simp: mu_security_policy_from_uri_def split: option.splits)
  then have "pp_uri r = u" "r \<in> set POLICY_TABLE"
    by (auto dest!: find_SomeD simp: uri_equals_def)
  then show ?thesis
    using r(2) by (auto simp: POLICY_TABLE_def mu_security_policy_uri_def)
qed

text \<open>The derived keys of every policy fit the fixed arrays of the channel's key sets.\<close>

lemma policy_lengths_bounded:
  "mu_security_policy_signature_key_length p \<le> 32"
  "mu_security_policy_encryption_key_length p \<le> 32"
  "mu_security_policy_encryption_block_size p \<le> 16"
  "mu_security_policy_iv_length p \<le> 16"
  "mu_security_policy_nonce_length p \<le> 64"
  "mu_security_policy_signature_length p \<le> 32"
  by (cases p; simp add: POLICY_TABLE_def mu_security_policy_signature_key_length_def
      mu_security_policy_encryption_key_length_def mu_security_policy_encryption_block_size_def
      mu_security_policy_iv_length_def mu_security_policy_nonce_length_def mu_security_policy_signature_length_def)+

section \<open>Main properties\<close>

text \<open>
  C14.  The policy table is a bijection between the supported policies and their URIs: a policy's URI
  is recognised as that policy, and a non-empty URI is recognised as a policy only if it is that
  policy's URI byte by byte.  No prefix and no extension of a URI is accepted.  An absent or empty URI,
  which the code reads as policy None, is outside this statement.
\<close>

theorem policy_uri_roundtrip:
  "mu_security_policy_uri p = Some u \<longleftrightarrow>
   u \<noteq> [] \<and> p \<noteq> MU_SECURITY_POLICY_INVALID_ID \<and> mu_security_policy_from_uri (Some u) (length u) = p"
proof
  assume u: "mu_security_policy_uri p = Some u"
  then have "u \<noteq> []" "p \<noteq> MU_SECURITY_POLICY_INVALID_ID"
    by (cases p; force simp: mu_security_policy_uri_def POLICY_TABLE_def policy_uri_defs cstr_def)+
  then show "u \<noteq> [] \<and> p \<noteq> MU_SECURITY_POLICY_INVALID_ID \<and> mu_security_policy_from_uri (Some u) (length u) = p"
    using policy_from_uri_known [OF u] by simp
qed (use policy_from_uri_Some in blast)

end
