(* ===== verification/Mu_Key_Derivation.thy ===== *)
theory Mu_Key_Derivation
  imports Mu_Prelude
begin

unbundle bit_operations_syntax

text \<open>
  Key derivation: \<^verbatim>\<open>src/security/secure_util.c\<close> and
  \<^verbatim>\<open>src/cu/core_2022_server/security/key_derivation.c\<close> (P-SHA256 of the RSA policies, HKDF-SHA256 of the
  elliptic-curve policies).

  The HMAC of the crypto adapter is a parameter: a function from key and data to the MAC or a status.
  A pointer with a length is the list of the bytes it spans, \<^const>\<open>None\<close> for a null pointer; the
  scratch arrays that are wiped before a return are local to the call.
\<close>

type_synonym hmac = "bytes \<Rightarrow> bytes \<Rightarrow> opcua_statuscode_t + bytes"

abbreviation (input) MU_SHA256_LENGTH :: nat where "MU_SHA256_LENGTH \<equiv> 32"
abbreviation (input) MU_KDF_MAX_SEED :: nat where "MU_KDF_MAX_SEED \<equiv> 128"
abbreviation (input) MU_HKDF_MAX_INFO :: nat where "MU_HKDF_MAX_INFO \<equiv> 256"

section \<open>Constant-time comparison and wiping\<close>

definition mu_secure_zero :: "bytes \<Rightarrow> nat \<Rightarrow> bytes" where
  "mu_secure_zero v n = put_at 0 (replicate n 0) v"

fun memeq_loop :: "opcua_byte_t \<Rightarrow> bytes \<Rightarrow> bytes \<Rightarrow> nat \<Rightarrow> nat \<Rightarrow> opcua_byte_t" where
  "memeq_loop d a b i 0 = d"
| "memeq_loop d a b i (Suc n) = memeq_loop (d OR (a ! i XOR b ! i)) a b (Suc i) n"

definition mu_secure_memeq :: "bytes \<Rightarrow> bytes \<Rightarrow> nat \<Rightarrow> bool" where
  "mu_secure_memeq a b n \<longleftrightarrow> memeq_loop 0 a b 0 n = 0"

section \<open>P-SHA256\<close>

function p_sha256_loop :: "hmac \<Rightarrow> bytes \<Rightarrow> bytes \<Rightarrow> bytes \<Rightarrow> nat \<Rightarrow> opcua_statuscode_t + bytes" where
  "p_sha256_loop hmac secret seed a remaining =
    (if remaining = 0 then Inr []
     else (case hmac secret (a @ seed) of
       Inl status \<Rightarrow> Inl status
     | Inr block \<Rightarrow>
       let n = (if remaining > MU_SHA256_LENGTH then MU_SHA256_LENGTH else remaining) in
       (case hmac secret a of
          Inl status \<Rightarrow> Inl status
        | Inr a' \<Rightarrow> (case p_sha256_loop hmac secret seed a' (remaining - n) of
            Inl status \<Rightarrow> Inl status
          | Inr rest \<Rightarrow> Inr (take n block @ rest)))))"
  by pat_completeness auto
termination
  by (relation "measure (\<lambda>(_, _, _, _, n). n)") auto

declare p_sha256_loop.simps [simp del]

definition mu_p_sha256 ::
  "hmac \<Rightarrow> bytes option \<Rightarrow> bytes option \<Rightarrow> nat \<Rightarrow> opcua_statuscode_t + bytes" where
  "mu_p_sha256 hmac secret seed output_length =
    (case (secret, seed) of
       (Some secret, Some seed) \<Rightarrow>
         if length seed > MU_KDF_MAX_SEED then Inl MU_STATUS_BAD_INTERNALERROR
         else (case hmac secret seed of
           Inl status \<Rightarrow> Inl status
         | Inr a \<Rightarrow> p_sha256_loop hmac secret seed a output_length)
     | _ \<Rightarrow> Inl MU_STATUS_BAD_INTERNALERROR)"

section \<open>HKDF-SHA256\<close>

function hkdf_loop :: "hmac \<Rightarrow> bytes \<Rightarrow> bytes \<Rightarrow> bytes \<Rightarrow> opcua_byte_t \<Rightarrow> nat \<Rightarrow> opcua_statuscode_t + bytes" where
  "hkdf_loop hmac prk info t counter remaining =
    (if remaining = 0 then Inr []
     else
       let counter = counter + 1 in
       (case hmac prk (t @ info @ [counter]) of
          Inl status \<Rightarrow> Inl status
        | Inr t' \<Rightarrow>
          let n = (if remaining > MU_SHA256_LENGTH then MU_SHA256_LENGTH else remaining) in
          (case hkdf_loop hmac prk info t' counter (remaining - n) of
             Inl status \<Rightarrow> Inl status
           | Inr rest \<Rightarrow> Inr (take n t' @ rest))))"
  by pat_completeness auto
termination
  by (relation "measure (\<lambda>(_, _, _, _, _, n). n)") auto

declare hkdf_loop.simps [simp del]

text \<open>\<open>info\<close> may be null only with length 0, so a list covers both.\<close>

definition mu_hkdf_sha256 ::
  "hmac \<Rightarrow> bytes option \<Rightarrow> bytes option \<Rightarrow> bytes \<Rightarrow> nat \<Rightarrow> opcua_statuscode_t + bytes" where
  "mu_hkdf_sha256 hmac salt ikm info okm_length =
    (case ikm of
       None \<Rightarrow> Inl MU_STATUS_BAD_INTERNALERROR
     | Some ikm \<Rightarrow>
       if length info > MU_HKDF_MAX_INFO then Inl MU_STATUS_BAD_INTERNALERROR
       else if okm_length > 255 * MU_SHA256_LENGTH then Inl MU_STATUS_BAD_INTERNALERROR
       else
         let salt = (case salt of
               None \<Rightarrow> replicate MU_SHA256_LENGTH 0
             | Some s \<Rightarrow> if s = [] then replicate MU_SHA256_LENGTH 0 else s)
         in (case hmac salt ikm of
               Inl status \<Rightarrow> Inl status
             | Inr prk \<Rightarrow> hkdf_loop hmac prk info [] 0 okm_length))"

section \<open>The comparison decides equality\<close>

lemma memeq_loop_0:
  "memeq_loop d a b i n = 0 \<longleftrightarrow> d = 0 \<and> (\<forall>j<n. a ! (i + j) = b ! (i + j))"
proof (induction n arbitrary: d i)
  case (Suc n)
  have "d OR (a ! i XOR b ! i) = 0 \<longleftrightarrow> d = 0 \<and> a ! i = b ! i"
    by (auto simp: or_eq_0_iff dest: arg_cong [where f = "\<lambda>x. x XOR b ! i"] simp: xor.assoc)
  moreover have "(\<forall>j<Suc n. a ! (i + j) = b ! (i + j)) \<longleftrightarrow>
      a ! i = b ! i \<and> (\<forall>j<n. a ! (Suc i + j) = b ! (Suc i + j))"
    by (simp add: All_less_Suc2)
  ultimately show ?case using Suc.IH [of _ "Suc i"] by auto
qed simp

lemma mu_secure_memeq_iff:
  assumes "n \<le> length a" "n \<le> length b"
  shows "mu_secure_memeq a b n \<longleftrightarrow> take n a = take n b"
  using assms by (auto simp: mu_secure_memeq_def memeq_loop_0 list_eq_iff_nth_eq)

section \<open>The loops compute the standard's functions\<close>

text \<open>
  RFC 5246: \<open>A(0) = seed\<close>, \<open>A(i) = HMAC(secret, A(i - 1))\<close>, and the output is the beginning of
  \<open>HMAC(secret, A(1) @ seed) @ HMAC(secret, A(2) @ seed) @ ...\<close>.
\<close>

fun P_A :: "(bytes \<Rightarrow> bytes \<Rightarrow> bytes) \<Rightarrow> bytes \<Rightarrow> bytes \<Rightarrow> nat \<Rightarrow> bytes" where
  "P_A h secret seed 0 = seed"
| "P_A h secret seed (Suc i) = h secret (P_A h secret seed i)"

definition P_block :: "(bytes \<Rightarrow> bytes \<Rightarrow> bytes) \<Rightarrow> bytes \<Rightarrow> bytes \<Rightarrow> nat \<Rightarrow> bytes" where
  "P_block h secret seed i = h secret (P_A h secret seed i @ seed)"

definition P_hash :: "(bytes \<Rightarrow> bytes \<Rightarrow> bytes) \<Rightarrow> bytes \<Rightarrow> bytes \<Rightarrow> nat \<Rightarrow> bytes" where
  "P_hash h secret seed n = take n (concat (map (P_block h secret seed) [1..<Suc ((n + 31) div 32)]))"

text \<open>RFC 5869: \<open>T(0)\<close> is empty, \<open>T(i) = HMAC(PRK, T(i - 1) @ info @ [i])\<close>.\<close>

fun HKDF_T :: "(bytes \<Rightarrow> bytes \<Rightarrow> bytes) \<Rightarrow> bytes \<Rightarrow> bytes \<Rightarrow> nat \<Rightarrow> bytes" where
  "HKDF_T h prk info 0 = []"
| "HKDF_T h prk info (Suc i) = h prk (HKDF_T h prk info i @ info @ [of_nat (Suc i)])"

definition HKDF_expand :: "(bytes \<Rightarrow> bytes \<Rightarrow> bytes) \<Rightarrow> bytes \<Rightarrow> bytes \<Rightarrow> nat \<Rightarrow> bytes" where
  "HKDF_expand h prk info n = take n (concat (map (HKDF_T h prk info) [1..<Suc ((n + 31) div 32)]))"

text \<open>What the adapter documents: an HMAC call succeeds and yields 32 bytes.\<close>

definition hmac_computes :: "hmac \<Rightarrow> (bytes \<Rightarrow> bytes \<Rightarrow> bytes) \<Rightarrow> bool" where
  "hmac_computes hmac h \<longleftrightarrow> (\<forall>k d. hmac k d = Inr (h k d) \<and> length (h k d) = MU_SHA256_LENGTH)"

lemma blocks_step:
  fixes n :: nat
  assumes "0 < n" "length (f i) = 32"
  shows "take n (concat (map f [i..<i + (n + 31) div 32])) =
    take (min n 32) (f i) @ take (n - min n 32) (concat (map f [Suc i..<Suc i + (n - min n 32 + 31) div 32]))"
proof -
  have k: "(n + 31) div 32 = Suc ((n - min n 32 + 31) div 32)"
    using assms(1) by (cases "n \<le> 32") (auto simp: min_def le_Suc_eq div_if)
  have "[i..<i + Suc m] = i # [Suc i..<Suc i + m]" for m
    by (simp add: upt_conv_Cons)
  then show ?thesis
    unfolding k using assms(2) by (simp add: min_def)
qed

lemma p_sha256_loop_eq:
  assumes "hmac_computes hmac h"
  shows "p_sha256_loop hmac secret seed (P_A h secret seed i) n =
    Inr (take n (concat (map (P_block h secret seed) [i..<i + (n + 31) div 32])))"
proof (induction n arbitrary: i rule: less_induct)
  case (less n)
  have h: "hmac k d = Inr (h k d)" "length (h k d) = 32" for k d
    using assms by (simp_all add: hmac_computes_def)
  show ?case
  proof (cases "n = 0")
    case True
    then show ?thesis by (subst p_sha256_loop.simps) simp
  next
    case False
    define R where "R = take (n - min n 32) (concat (map (P_block h secret seed) [Suc i..<Suc i + (n - min n 32 + 31) div 32]))"
    have "p_sha256_loop hmac secret seed (h secret (P_A h secret seed i)) (n - min n 32) = Inr R"
      using less.IH [of "n - min n 32" "Suc i"] False by (simp only: R_def P_A.simps)
    then have "p_sha256_loop hmac secret seed (P_A h secret seed i) n = Inr (take (min n 32) (P_block h secret seed i) @ R)"
      using False by (subst p_sha256_loop.simps) (auto simp: h Let_def P_block_def min_def not_less)
    also have "take (min n 32) (P_block h secret seed i) @ R =
        take n (concat (map (P_block h secret seed) [i..<i + (n + 31) div 32]))"
      unfolding R_def using False by (intro blocks_step [symmetric]) (simp_all add: P_block_def h)
    finally show ?thesis .
  qed
qed

lemma hkdf_loop_eq:
  assumes "hmac_computes hmac h"
  shows "hkdf_loop hmac prk info (HKDF_T h prk info i) (of_nat i) n =
    Inr (take n (concat (map (HKDF_T h prk info) [Suc i..<Suc i + (n + 31) div 32])))"
proof (induction n arbitrary: i rule: less_induct)
  case (less n)
  have h: "hmac k d = Inr (h k d)" "length (h k d) = 32" for k d
    using assms by (simp_all add: hmac_computes_def)
  have s: "(of_nat i + 1 :: 8 word) = 1 + of_nat i" by simp
  show ?case
  proof (cases "n = 0")
    case True
    then show ?thesis by (subst hkdf_loop.simps) simp
  next
    case False
    define R where "R = take (n - min n 32) (concat (map (HKDF_T h prk info) [Suc (Suc i)..<Suc (Suc i) + (n - min n 32 + 31) div 32]))"
    have "hkdf_loop hmac prk info (HKDF_T h prk info (Suc i)) (of_nat (Suc i)) (n - min n 32) = Inr R"
      using less.IH [of "n - min n 32" "Suc i"] False by (simp only: R_def)
    then have "hkdf_loop hmac prk info (HKDF_T h prk info i) (of_nat i) n = Inr (take (min n 32) (HKDF_T h prk info (Suc i)) @ R)"
      using False by (subst hkdf_loop.simps) (auto simp: h Let_def min_def not_less s)
    also have "take (min n 32) (HKDF_T h prk info (Suc i)) @ R =
        take n (concat (map (HKDF_T h prk info) [Suc i..<Suc i + (n + 31) div 32]))"
      unfolding R_def using False by (intro blocks_step [symmetric]) (simp_all add: h)
    finally show ?thesis .
  qed
qed

lemma mu_p_sha256_eq:
  assumes "hmac_computes hmac h" "length seed \<le> MU_KDF_MAX_SEED"
  shows "mu_p_sha256 hmac (Some secret) (Some seed) n = Inr (P_hash h secret seed n)"
  using assms p_sha256_loop_eq [OF assms(1), of secret seed 1 n]
  by (simp add: mu_p_sha256_def P_hash_def hmac_computes_def)

lemma length_concat_blocks:
  assumes "\<And>i. i \<in> set is \<Longrightarrow> length (f i) = 32"
  shows "length (concat (map f is)) = 32 * length is"
  using assms by (induction "is") simp_all

lemma length_P_hash:
  assumes "hmac_computes hmac h"
  shows "length (P_hash h secret seed n) = n"
proof -
  have "length (P_block h secret seed i) = 32" for i
    using assms by (simp add: P_block_def hmac_computes_def)
  then have "length (concat (map (P_block h secret seed) [1..<Suc ((n + 31) div 32)])) = 32 * ((n + 31) div 32)"
    by (subst length_concat_blocks) simp_all
  moreover have "n \<le> 32 * ((n + 31) div 32)" by linarith
  ultimately show ?thesis by (simp add: P_hash_def)
qed

section \<open>Main properties\<close>

text \<open>
  C15.  Both key-derivation loops compute the functions of the standards they implement.  For any
  HMAC and any seed and info within the limits, P-SHA256 returns the first \<open>n\<close> bytes of the RFC 5246
  expansion, and HKDF returns the first \<open>n\<close> bytes of the RFC 5869 expansion; the 8-bit block
  counter does not wrap for any length the function accepts.
\<close>

theorem key_derivation_standard:
  assumes "hmac_computes hmac h" "length seed \<le> MU_KDF_MAX_SEED"
    and "length info \<le> MU_HKDF_MAX_INFO" "n \<le> 255 * MU_SHA256_LENGTH" "salt \<noteq> []"
  shows "mu_p_sha256 hmac (Some secret) (Some seed) n = Inr (P_hash h secret seed n) \<and>
    length (P_hash h secret seed n) = n \<and>
    mu_hkdf_sha256 hmac (Some salt) (Some ikm) info n = Inr (HKDF_expand h (h salt ikm) info n) \<and>
    (\<forall>i j. 1 \<le> i \<and> i < j \<and> j \<le> (n + 31) div 32 \<longrightarrow> (of_nat i :: opcua_byte_t) \<noteq> of_nat j)"
proof -
  have "mu_hkdf_sha256 hmac (Some salt) (Some ikm) info n = Inr (HKDF_expand h (h salt ikm) info n)"
    using assms hkdf_loop_eq [OF assms(1), of "h salt ikm" info 0 n]
    by (simp add: mu_hkdf_sha256_def HKDF_expand_def hmac_computes_def)
  moreover have "(of_nat i :: opcua_byte_t) \<noteq> of_nat j" if "i < j" "j \<le> (n + 31) div 32" for i j
  proof -
    have "j < 256" using that assms(4) by linarith
    with that show ?thesis by (simp add: of_nat_eq_iff unsigned_of_nat word_unat_eq_iff take_bit_eq_mod)
  qed
  ultimately show ?thesis
    using mu_p_sha256_eq [OF assms(1,2)] length_P_hash [OF assms(1)] by blast
qed

definition sample_hmac :: "bytes \<Rightarrow> bytes \<Rightarrow> bytes" where
  "sample_hmac k d = take MU_SHA256_LENGTH (k @ d @ replicate MU_SHA256_LENGTH 0)"

lemma sample_hmac_computes: "hmac_computes (\<lambda>k d. Inr (sample_hmac k d)) sample_hmac"
  by (simp add: hmac_computes_def sample_hmac_def min_def)

theorem key_derivation_standard_witness:
  "mu_p_sha256 (\<lambda>k d. Inr (sample_hmac k d)) (Some [1]) (Some [2]) 40 = Inr (P_hash sample_hmac [1] [2] 40) \<and>
   length (P_hash sample_hmac [1] [2] 40) = 40"
  using key_derivation_standard [OF sample_hmac_computes, of "[2]" "[]" 40 "[5]" "[1]"] by simp

end
