(* ===== verification/Mu_Sym_Chunk.thy ===== *)
theory Mu_Sym_Chunk
  imports Mu_Binary_IO Mu_Security_Policy Mu_Key_Derivation
begin

unbundle bit_operations_syntax

text \<open>
  Protection of MSG and CLO chunks: \<^verbatim>\<open>src/cu/core_2022_server/security/sym_chunk.c\<close>.

  The crypto adapter is a parameter: a record of the callbacks this file calls.  A callback that the
  code tests against null before calling it is an \<^typ>\<open>'a option\<close>; a callback returns a status or
  its output.  Buffers are lists; a function that works in place returns the buffer updated, also on
  its error paths.  When a cipher reports an error the region it worked on keeps its old contents in
  the model.
\<close>

section \<open>Adapter, keys and chunk information\<close>

type_synonym cbc = "bytes \<Rightarrow> bytes \<Rightarrow> bytes \<Rightarrow> opcua_statuscode_t + bytes"

record mu_crypto_adapter =
  hmac_sha256 :: hmac
  aes256_cbc_encrypt :: cbc
  aes256_cbc_decrypt :: cbc
  aes128_cbc_encrypt :: "cbc option"
  aes128_cbc_decrypt :: "cbc option"
  cipher_ctx_init :: "(bytes \<Rightarrow> opcua_statuscode_t \<times> bytes) option"
  aes256_cbc_encrypt_ctx :: "cbc option"
  aes256_cbc_decrypt_ctx :: "cbc option"
  cipher_ctx_free :: bool
  chacha20_poly1305_encrypt :: "(bytes \<Rightarrow> bytes \<Rightarrow> bytes \<Rightarrow> bytes \<Rightarrow> opcua_statuscode_t + bytes \<times> bytes) option"
  chacha20_poly1305_decrypt :: "(bytes \<Rightarrow> bytes \<Rightarrow> bytes \<Rightarrow> bytes \<Rightarrow> bytes \<Rightarrow> opcua_statuscode_t + bytes) option"

abbreviation (input) MU_CIPHER_CTX_SIZE :: nat where "MU_CIPHER_CTX_SIZE \<equiv> 512"

record mu_sym_keys =
  sk_policy :: mu_security_policy_id
  signing_key :: bytes
  encrypting_key :: bytes
  sk_iv :: bytes
  cipher_ctx :: bytes
  sk_crypto :: "mu_crypto_adapter option"
  cipher_ctx_valid :: bool

record mu_sym_chunk_info =
  ci_mode :: mu_message_security_mode
  ci_secure_channel_id :: opcua_uint32_t
  ci_token_id :: opcua_uint32_t
  ci_sequence_number :: opcua_uint32_t
  ci_request_id :: opcua_uint32_t
  ci_message_type :: bytes

abbreviation (input) MU_SYM_HEADER_SIZE :: nat where "MU_SYM_HEADER_SIZE \<equiv> 16"
abbreviation (input) MU_SYM_SIG_LEN :: nat where "MU_SYM_SIG_LEN \<equiv> 32"
abbreviation (input) MU_SYM_BLOCK :: nat where "MU_SYM_BLOCK \<equiv> 16"
abbreviation (input) MU_AEAD_TAG_LEN :: nat where "MU_AEAD_TAG_LEN \<equiv> 16"
abbreviation (input) MU_CHACHA20_POLY1305_NONCE_LENGTH :: nat where "MU_CHACHA20_POLY1305_NONCE_LENGTH \<equiv> 12"

definition policy_uses_aes128 :: "mu_security_policy_id \<Rightarrow> bool" where
  "policy_uses_aes128 p \<longleftrightarrow>
    p = MU_SECURITY_POLICY_AES128_SHA256_RSAOAEP_ID \<or> p = MU_SECURITY_POLICY_ECC_NISTP256_ID"

definition sym_keys_zero :: mu_sym_keys where
  "sym_keys_zero = \<lparr>sk_policy = MU_SECURITY_POLICY_INVALID_ID, signing_key = replicate 32 0,
     encrypting_key = replicate 32 0, sk_iv = replicate 16 0, cipher_ctx = replicate MU_CIPHER_CTX_SIZE 0,
     sk_crypto = None, cipher_ctx_valid = False\<rparr>"

definition mu_sym_keys_derive ::
  "mu_crypto_adapter \<Rightarrow> mu_security_policy_id \<Rightarrow> bytes option \<Rightarrow> bytes option \<Rightarrow> opcua_statuscode_t \<times> mu_sym_keys" where
  "mu_sym_keys_derive crypto policy secret seed =
    (let out_keys = sym_keys_zero\<lparr>sk_policy := policy\<rparr>;
         sig_key_len = mu_security_policy_signature_key_length policy;
         enc_key_len = mu_security_policy_encryption_key_length policy;
         iv_len = mu_security_policy_encryption_block_size policy;
         derived_len = sig_key_len + enc_key_len + iv_len
     in
     if derived_len > 128 then (MU_STATUS_BAD_INTERNALERROR, out_keys)
     else (case mu_p_sha256 (hmac_sha256 crypto) secret seed derived_len of
       Inl s \<Rightarrow> (s, out_keys)
     | Inr material \<Rightarrow>
        (MU_STATUS_GOOD, out_keys\<lparr>
           signing_key := put_at 0 (take sig_key_len material) (signing_key out_keys),
           encrypting_key := put_at 0 (slice sig_key_len enc_key_len material) (encrypting_key out_keys),
           sk_iv := put_at 0 (slice (sig_key_len + enc_key_len) iv_len material) (sk_iv out_keys)\<rparr>)))"

text \<open>The second component lists the contexts handed to the adapter's free callback.\<close>

definition mu_sym_keys_release_cipher :: "mu_sym_keys \<Rightarrow> mu_sym_keys \<times> bytes list" where
  "mu_sym_keys_release_cipher keys =
    (keys\<lparr>cipher_ctx_valid := False, sk_crypto := None\<rparr>,
     (case sk_crypto keys of
        Some crypto \<Rightarrow> if cipher_ctx_valid keys \<and> cipher_ctx_free crypto then [cipher_ctx keys] else []
      | None \<Rightarrow> []))"

definition mu_sym_keys_prepare_cipher ::
  "mu_sym_keys \<Rightarrow> mu_crypto_adapter option \<Rightarrow> mu_sym_keys \<times> bytes list" where
  "mu_sym_keys_prepare_cipher keys crypto =
    (case mu_sym_keys_release_cipher keys of (keys, freed) \<Rightarrow>
      let keys = keys\<lparr>sk_crypto := crypto\<rparr> in
      if policy_uses_aes128 (sk_policy keys) then (keys\<lparr>cipher_ctx_valid := False\<rparr>, freed)
      else (case crypto of
        Some c \<Rightarrow> (case cipher_ctx_init c of
            Some init \<Rightarrow> (case init (encrypting_key keys) of
               (s, storage) \<Rightarrow> (keys\<lparr>cipher_ctx := storage, cipher_ctx_valid := (s = MU_STATUS_GOOD)\<rparr>, freed))
          | None \<Rightarrow> (keys, freed))
      | None \<Rightarrow> (keys, freed)))"

section \<open>Building a chunk\<close>

definition put_u32 :: "opcua_uint32_t \<Rightarrow> bytes" where
  "put_u32 v = [ucast v, ucast (drop_bit 8 v), ucast (drop_bit 16 v), ucast (drop_bit 24 v)]"

definition get_u32 :: "bytes \<Rightarrow> opcua_uint32_t" where
  "get_u32 p = ucast (p ! 0) OR push_bit 8 (ucast (p ! 1)) OR push_bit 16 (ucast (p ! 2)) OR push_bit 24 (ucast (p ! 3))"

definition write_header :: "bytes \<Rightarrow> bytes \<Rightarrow> opcua_uint32_t \<Rightarrow> opcua_uint32_t \<Rightarrow> bytes" where
  "write_header out message_type scid token_id =
    put_at 8 (put_u32 scid @ put_u32 token_id) (put_at 0 (take 3 message_type @ [0x46]) out)"

text \<open>The choice of cipher, shared by the two directions: AES-128, a prepared context, or AES-256.\<close>

definition sym_encrypt :: "mu_crypto_adapter \<Rightarrow> mu_sym_keys \<Rightarrow> bytes \<Rightarrow> opcua_statuscode_t + bytes" where
  "sym_encrypt crypto keys input =
    (if policy_uses_aes128 (sk_policy keys) then
       (case aes128_cbc_encrypt crypto of
          Some f \<Rightarrow> f (take 16 (encrypting_key keys)) (sk_iv keys) input
        | None \<Rightarrow> Inl MU_STATUS_BAD_INTERNALERROR)
     else (case (cipher_ctx_valid keys, aes256_cbc_encrypt_ctx crypto) of
        (True, Some f) \<Rightarrow> f (cipher_ctx keys) (sk_iv keys) input
      | _ \<Rightarrow> aes256_cbc_encrypt crypto (encrypting_key keys) (sk_iv keys) input))"

definition sym_decrypt :: "mu_crypto_adapter \<Rightarrow> mu_sym_keys \<Rightarrow> bytes \<Rightarrow> opcua_statuscode_t + bytes" where
  "sym_decrypt crypto keys input =
    (if policy_uses_aes128 (sk_policy keys) then
       (case aes128_cbc_decrypt crypto of
          Some f \<Rightarrow> f (take 16 (encrypting_key keys)) (sk_iv keys) input
        | None \<Rightarrow> Inl MU_STATUS_BAD_INTERNALERROR)
     else (case (cipher_ctx_valid keys, aes256_cbc_decrypt_ctx crypto) of
        (True, Some f) \<Rightarrow> f (cipher_ctx keys) (sk_iv keys) input
      | _ \<Rightarrow> aes256_cbc_decrypt crypto (encrypting_key keys) (sk_iv keys) input))"

text \<open>
  The message size, the sequence header and the body, written behind the clear header by each of the
  three builders; \<^const>\<open>Inl\<close> when the body does not fit.
\<close>

definition write_plain ::
  "bytes \<Rightarrow> nat \<Rightarrow> opcua_uint32_t \<Rightarrow> opcua_uint32_t \<Rightarrow> bytes \<Rightarrow> nat \<Rightarrow> bytes + bytes" where
  "write_plain out tot sequence_number request_id body out_cap =
    (let out = put_at 4 (put_u32 (of_nat tot)) out;
         out = put_at MU_SYM_HEADER_SIZE (put_u32 sequence_number) out;
         out = put_at (MU_SYM_HEADER_SIZE + 4) (put_u32 request_id) out
     in (case mu_checked_memcpy_off out out_cap (MU_SYM_HEADER_SIZE + 8) body (length body) of
           None \<Rightarrow> Inl out
         | Some out \<Rightarrow> Inr out))"

definition mu_sym_chunk_wrap ::
  "mu_crypto_adapter \<Rightarrow> mu_message_security_mode \<Rightarrow> mu_sym_keys \<Rightarrow> bytes \<Rightarrow> opcua_uint32_t \<Rightarrow> opcua_uint32_t \<Rightarrow>
   opcua_uint32_t \<Rightarrow> opcua_uint32_t \<Rightarrow> bytes \<Rightarrow> bytes \<Rightarrow> nat \<Rightarrow> (opcua_statuscode_t + nat) \<times> bytes" where
  "mu_sym_chunk_wrap crypto mode keys message_type secure_channel_id token_id sequence_number request_id body out out_cap =
    (if mode \<noteq> MU_MESSAGE_SECURITY_MODE_SIGN \<and> mode \<noteq> MU_MESSAGE_SECURITY_MODE_SIGN_AND_ENCRYPT
     then (Inl MU_STATUS_BAD_SECURITYMODEREJECTED, out)
     else
       let out = write_header out message_type secure_channel_id token_id;
           seqbody_len = 8 + length body
       in
       if mode = MU_MESSAGE_SECURITY_MODE_SIGN then
         let tot = MU_SYM_HEADER_SIZE + seqbody_len + MU_SYM_SIG_LEN in
         if tot > out_cap then (Inl MU_STATUS_BAD_RESPONSETOOLARGE, out)
         else
           (case write_plain out tot sequence_number request_id body out_cap of
             Inl out \<Rightarrow> (Inl MU_STATUS_BAD_RESPONSETOOLARGE, out)
           | Inr out \<Rightarrow>
             let signed_len = MU_SYM_HEADER_SIZE + seqbody_len in
             (case hmac_sha256 crypto (signing_key keys) (take signed_len out) of
                Inl s \<Rightarrow> (Inl s, out)
              | Inr mac \<Rightarrow> (Inr tot, put_at signed_len mac out)))
       else
         let base = seqbody_len + 1 + MU_SYM_SIG_LEN;
             pad_count = (MU_SYM_BLOCK - base mod MU_SYM_BLOCK) mod MU_SYM_BLOCK;
             enc_len = base + pad_count;
             presig_len = seqbody_len + 1 + pad_count;
             tot = MU_SYM_HEADER_SIZE + enc_len
         in
         if tot > out_cap then (Inl MU_STATUS_BAD_RESPONSETOOLARGE, out)
         else
           (case write_plain out tot sequence_number request_id body out_cap of
             Inl out \<Rightarrow> (Inl MU_STATUS_BAD_RESPONSETOOLARGE, out)
           | Inr out \<Rightarrow>
             let out = put_at (MU_SYM_HEADER_SIZE + seqbody_len) [of_nat pad_count] out;
                 out = put_at (MU_SYM_HEADER_SIZE + seqbody_len + 1) (replicate pad_count (of_nat pad_count)) out;
                 signed_len = MU_SYM_HEADER_SIZE + presig_len
             in (case hmac_sha256 crypto (signing_key keys) (take signed_len out) of
                Inl s \<Rightarrow> (Inl s, out)
              | Inr mac \<Rightarrow>
                let out = put_at signed_len mac out in
                (case sym_encrypt crypto keys (slice MU_SYM_HEADER_SIZE enc_len out) of
                   Inl s \<Rightarrow> (Inl s, out)
                 | Inr c \<Rightarrow> (Inr tot, put_at MU_SYM_HEADER_SIZE c out)))))"

section \<open>Opening a chunk\<close>

text \<open>The second half: verify the MAC over the clear text, strip the padding, read the sequence header.\<close>

definition sym_verify ::
  "mu_crypto_adapter \<Rightarrow> mu_message_security_mode \<Rightarrow> mu_sym_keys \<Rightarrow> bytes \<Rightarrow> nat \<Rightarrow> mu_sym_chunk_info \<Rightarrow>
   opcua_statuscode_t + mu_sym_chunk_info \<times> nat \<times> nat" where
  "sym_verify crypto mode keys chunk msg_size info =
    (if msg_size < MU_SYM_HEADER_SIZE + 8 + MU_SYM_SIG_LEN then Inl MU_STATUS_BAD_DECODINGERROR
     else
       let signed_len = msg_size - MU_SYM_SIG_LEN in
       (case hmac_sha256 crypto (signing_key keys) (take signed_len chunk) of
          Inl s \<Rightarrow> Inl s
        | Inr mac \<Rightarrow>
          if \<not> mu_secure_memeq mac (drop signed_len chunk) MU_SYM_SIG_LEN then Inl MU_STATUS_BAD_SECURITYCHECKSFAILED
          else
            let pad = unat (chunk ! (signed_len - 1)) in
            if mode = MU_MESSAGE_SECURITY_MODE_SIGN_AND_ENCRYPT \<and>
               (signed_len < MU_SYM_HEADER_SIZE + 8 + 1 + pad \<or>
                \<not> list_all (\<lambda>i. unat (chunk ! (signed_len - 1 - i)) = pad) [1..<Suc pad])
            then Inl MU_STATUS_BAD_SECURITYCHECKSFAILED
            else
              let pad_count = (if mode = MU_MESSAGE_SECURITY_MODE_SIGN_AND_ENCRYPT then pad + 1 else 0);
                  seqbody_len = signed_len - MU_SYM_HEADER_SIZE - pad_count
              in Inr (info\<lparr>ci_sequence_number := get_u32 (slice MU_SYM_HEADER_SIZE 4 chunk),
                           ci_request_id := get_u32 (slice (MU_SYM_HEADER_SIZE + 4) 4 chunk)\<rparr>,
                      MU_SYM_HEADER_SIZE + 8, seqbody_len - 8)))"

text \<open>Offset and length of the body stand for the pointer into the chunk.\<close>

definition mu_sym_chunk_unwrap ::
  "mu_crypto_adapter \<Rightarrow> mu_message_security_mode \<Rightarrow> mu_sym_keys \<Rightarrow> bytes \<Rightarrow> nat \<Rightarrow>
   (opcua_statuscode_t + mu_sym_chunk_info \<times> nat \<times> nat) \<times> bytes" where
  "mu_sym_chunk_unwrap crypto mode keys chunk chunk_len =
    (if chunk_len < MU_SYM_HEADER_SIZE then (Inl MU_STATUS_BAD_DECODINGERROR, chunk)
     else
       let msg_size = unat (get_u32 (slice 4 4 chunk)) in
       if msg_size > chunk_len \<or> msg_size < MU_SYM_HEADER_SIZE then (Inl MU_STATUS_BAD_DECODINGERROR, chunk)
       else
         let info = \<lparr>ci_mode = mode, ci_secure_channel_id = get_u32 (slice 8 4 chunk),
               ci_token_id = get_u32 (slice 12 4 chunk), ci_sequence_number = 0, ci_request_id = 0,
               ci_message_type = take 3 chunk\<rparr>
         in
         if mode = MU_MESSAGE_SECURITY_MODE_SIGN_AND_ENCRYPT then
           let cipher_len = msg_size - MU_SYM_HEADER_SIZE in
           if cipher_len = 0 \<or> cipher_len mod MU_SYM_BLOCK \<noteq> 0 then (Inl MU_STATUS_BAD_DECODINGERROR, chunk)
           else (case sym_decrypt crypto keys (slice MU_SYM_HEADER_SIZE cipher_len chunk) of
              Inl s \<Rightarrow> (Inl s, chunk)
            | Inr plain \<Rightarrow>
              let chunk = put_at MU_SYM_HEADER_SIZE plain chunk in
              (sym_verify crypto mode keys chunk msg_size info, chunk))
         else if mode \<noteq> MU_MESSAGE_SECURITY_MODE_SIGN then (Inl MU_STATUS_BAD_SECURITYMODEREJECTED, chunk)
         else (sym_verify crypto mode keys chunk msg_size info, chunk))"

section \<open>Authenticated encryption\<close>

definition aead_build_iv :: "bytes \<Rightarrow> opcua_uint32_t \<Rightarrow> opcua_uint32_t \<Rightarrow> bytes" where
  "aead_build_iv derived_iv token_id last_seq =
    (let iv_out = take MU_CHACHA20_POLY1305_NONCE_LENGTH derived_iv;
         x = put_u32 token_id @ put_u32 last_seq
     in map2 (\<lambda>a b. a XOR b) (take 8 iv_out) x @ drop 8 iv_out)"

definition mu_sym_chunk_wrap_aead ::
  "mu_crypto_adapter \<Rightarrow> mu_sym_keys \<Rightarrow> bytes \<Rightarrow> opcua_uint32_t \<Rightarrow> opcua_uint32_t \<Rightarrow> opcua_uint32_t \<Rightarrow>
   opcua_uint32_t \<Rightarrow> opcua_uint32_t \<Rightarrow> bytes \<Rightarrow> bytes \<Rightarrow> nat \<Rightarrow> (opcua_statuscode_t + nat) \<times> bytes" where
  "mu_sym_chunk_wrap_aead crypto keys message_type secure_channel_id token_id sequence_number last_sequence_number
     request_id body out out_cap =
    (case chacha20_poly1305_encrypt crypto of
       None \<Rightarrow> (Inl MU_STATUS_BAD_INTERNALERROR, out)
     | Some encrypt \<Rightarrow>
       let plain_len = 8 + length body;
           tot = MU_SYM_HEADER_SIZE + plain_len + MU_AEAD_TAG_LEN
       in
       if tot > out_cap then (Inl MU_STATUS_BAD_RESPONSETOOLARGE, out)
       else
         let out = write_header out message_type secure_channel_id token_id
         in (case write_plain out tot sequence_number request_id body out_cap of
           Inl out \<Rightarrow> (Inl MU_STATUS_BAD_RESPONSETOOLARGE, out)
         | Inr out \<Rightarrow>
           (case encrypt (encrypting_key keys) (aead_build_iv (sk_iv keys) token_id last_sequence_number)
                   (take MU_SYM_HEADER_SIZE out) (slice MU_SYM_HEADER_SIZE plain_len out) of
              Inl s \<Rightarrow> (Inl s, out)
            | Inr (c, tag) \<Rightarrow>
                (Inr tot, put_at (MU_SYM_HEADER_SIZE + plain_len) tag (put_at MU_SYM_HEADER_SIZE c out)))))"

definition mu_sym_chunk_unwrap_aead ::
  "mu_crypto_adapter \<Rightarrow> mu_sym_keys \<Rightarrow> bytes \<Rightarrow> nat \<Rightarrow> opcua_uint32_t \<Rightarrow>
   (opcua_statuscode_t + mu_sym_chunk_info \<times> nat \<times> nat) \<times> bytes" where
  "mu_sym_chunk_unwrap_aead crypto keys chunk chunk_len last_sequence_number =
    (case chacha20_poly1305_decrypt crypto of
       None \<Rightarrow> (Inl MU_STATUS_BAD_INTERNALERROR, chunk)
     | Some decrypt \<Rightarrow>
       if chunk_len < MU_SYM_HEADER_SIZE then (Inl MU_STATUS_BAD_DECODINGERROR, chunk)
       else
         let msg_size = unat (get_u32 (slice 4 4 chunk)) in
         if msg_size > chunk_len \<or> msg_size < MU_SYM_HEADER_SIZE + 8 + MU_AEAD_TAG_LEN
         then (Inl MU_STATUS_BAD_DECODINGERROR, chunk)
         else
           let token_id = get_u32 (slice 12 4 chunk);
               plain_len = msg_size - MU_SYM_HEADER_SIZE - MU_AEAD_TAG_LEN
           in (case decrypt (encrypting_key keys) (aead_build_iv (sk_iv keys) token_id last_sequence_number)
                     (take MU_SYM_HEADER_SIZE chunk) (slice MU_SYM_HEADER_SIZE plain_len chunk)
                     (slice (MU_SYM_HEADER_SIZE + plain_len) MU_AEAD_TAG_LEN chunk) of
                 Inl s \<Rightarrow> (Inl s, chunk)
               | Inr plain \<Rightarrow>
                 let chunk' = put_at MU_SYM_HEADER_SIZE plain chunk in
                 (Inr (\<lparr>ci_mode = MU_MESSAGE_SECURITY_MODE_SIGN_AND_ENCRYPT,
                        ci_secure_channel_id = get_u32 (slice 8 4 chunk), ci_token_id = token_id,
                        ci_sequence_number = get_u32 (slice MU_SYM_HEADER_SIZE 4 chunk'),
                        ci_request_id = get_u32 (slice (MU_SYM_HEADER_SIZE + 4) 4 chunk'),
                        ci_message_type = take 3 chunk\<rparr>,
                       MU_SYM_HEADER_SIZE + 8, plain_len - 8), chunk')))"

section \<open>The chunk as a byte string\<close>

lemma put_u32_eq: "put_u32 v = mu_binary_le_put_u32 v"
  unfolding put_u32_def mu_binary_le_put_u32_def byte_mask
  by (auto intro!: bit_word_eqI simp: bit_simps)

lemma get_u32_eq: "get_u32 = mu_binary_le_get_u32"
  by (rule ext) (simp add: get_u32_def mu_binary_le_get_u32_def)

lemma length_put_u32 [simp]: "length (put_u32 v) = 4"
  by (simp add: put_u32_def)

lemma get_put_u32 [simp]: "get_u32 (put_u32 v) = v"
  by (simp add: put_u32_eq get_u32_eq)

definition sym_header ::
  "bytes \<Rightarrow> nat \<Rightarrow> opcua_uint32_t \<Rightarrow> opcua_uint32_t \<Rightarrow> opcua_uint32_t \<Rightarrow> opcua_uint32_t \<Rightarrow> bytes" where
  "sym_header mt tot scid tok sq req =
    take 3 mt @ [0x46] @ put_u32 (of_nat tot) @ put_u32 scid @ put_u32 tok @ put_u32 sq @ put_u32 req"

lemma length_sym_header [simp]: "3 \<le> length mt \<Longrightarrow> length (sym_header mt tot scid tok sq req) = 24"
  by (simp add: sym_header_def)

lemma sym_header_fields:
  assumes "3 \<le> length mt"
  shows "take 3 (sym_header mt tot scid tok sq req) = take 3 mt"
    "get_u32 (slice 4 4 (sym_header mt tot scid tok sq req)) = of_nat tot"
    "get_u32 (slice 8 4 (sym_header mt tot scid tok sq req)) = scid"
    "get_u32 (slice 12 4 (sym_header mt tot scid tok sq req)) = tok"
    "get_u32 (slice 16 4 (sym_header mt tot scid tok sq req)) = sq"
    "get_u32 (slice 20 4 (sym_header mt tot scid tok sq req)) = req"
  using assms by (simp_all add: sym_header_def slice_def)

lemma sym_header_written:
  assumes "3 \<le> length mt" "24 + length body \<le> length out"
  shows "put_at 24 body (put_at 20 (put_u32 req) (put_at 16 (put_u32 sq) (put_at 4 (put_u32 (of_nat tot))
           (write_header out mt scid tok)))) = put_at 0 (sym_header mt tot scid tok sq req @ body) out"
proof -
  let ?a = "take 3 mt @ [0x46]" and ?h = "put_u32 scid @ put_u32 tok"
  have l: "length ?a = 4" using assms by simp
  have "put_at 4 (put_u32 (of_nat tot)) (write_header out mt scid tok) = put_at 0 (?a @ put_u32 (of_nat tot) @ ?h) out"
    unfolding write_header_def using put_at_fill [of ?a 4 8 "put_u32 (of_nat tot)" ?h out] assms l by simp
  then show ?thesis
    using assms l by (simp add: put_at_chain sym_header_def)
qed

lemma write_plain_fits:
  assumes "3 \<le> length mt" "24 + length body \<le> out_cap" "out_cap \<le> length out"
  shows "write_plain (write_header out mt scid tok) tot sq req body out_cap =
    Inr (put_at 0 (sym_header mt tot scid tok sq req @ body) out)"
  using assms sym_header_written [of mt body out]
  by (simp add: write_plain_def Let_def mu_checked_memcpy_off_def)

text \<open>The padding of the encrypted form fills the last cipher block.\<close>

definition sym_pad :: "nat \<Rightarrow> nat" where
  "sym_pad n = (MU_SYM_BLOCK - (8 + n + 1 + MU_SYM_SIG_LEN) mod MU_SYM_BLOCK) mod MU_SYM_BLOCK"

lemma sym_pad_bounds: "sym_pad n < 16" "(8 + n + 1 + 32 + sym_pad n) mod 16 = 0"
proof -
  show "sym_pad n < 16" by (simp add: sym_pad_def)
  have "(a + (16 - a mod 16) mod 16) mod 16 = 0" for a :: nat
  proof (cases "a mod 16 = 0")
    case False
    then have "(16 - a mod 16) mod 16 = 16 - a mod 16" by simp
    moreover have "a + (16 - a mod 16) = 16 * (a div 16) + 16"
      using mult_div_mod_eq [of 16 a] mod_less_divisor [of 16 a] by linarith
    ultimately show ?thesis by (simp only:) simp
  qed simp
  then show "(8 + n + 1 + 32 + sym_pad n) mod 16 = 0" by (simp only: sym_pad_def)
qed

section \<open>Wrapping and unwrapping\<close>

definition sym_signed :: "mu_message_security_mode \<Rightarrow> bytes \<Rightarrow> bytes" where
  "sym_signed mode body =
    (if mode = MU_MESSAGE_SECURITY_MODE_SIGN then body
     else body @ of_nat (sym_pad (length body)) # replicate (sym_pad (length body)) (of_nat (sym_pad (length body))))"

definition sym_total :: "mu_message_security_mode \<Rightarrow> bytes \<Rightarrow> nat" where
  "sym_total mode body = 24 + length (sym_signed mode body) + MU_SYM_SIG_LEN"

text \<open>What the adapter documents about its HMAC and its ciphers: a 32-byte MAC, and a cipher that
  keeps the length and is undone by its inverse.\<close>

definition hmac_length :: "mu_crypto_adapter \<Rightarrow> bool" where
  "hmac_length crypto \<longleftrightarrow> (\<forall>k d m. hmac_sha256 crypto k d = Inr m \<longrightarrow> length m = MU_SHA256_LENGTH)"

definition cbc_inverse :: "cbc \<Rightarrow> cbc \<Rightarrow> bool" where
  "cbc_inverse enc dec \<longleftrightarrow> (\<forall>k iv x y. enc k iv x = Inr y \<longrightarrow> length y = length x \<and> dec k iv y = Inr x)"

definition ciphers_inverse :: "mu_crypto_adapter \<Rightarrow> bool" where
  "ciphers_inverse c \<longleftrightarrow> cbc_inverse (aes256_cbc_encrypt c) (aes256_cbc_decrypt c) \<and>
     (case (aes128_cbc_encrypt c, aes128_cbc_decrypt c) of
        (Some e, Some d) \<Rightarrow> cbc_inverse e d | (None, None) \<Rightarrow> True | _ \<Rightarrow> False) \<and>
     (case (aes256_cbc_encrypt_ctx c, aes256_cbc_decrypt_ctx c) of
        (Some e, Some d) \<Rightarrow> cbc_inverse e d | (None, None) \<Rightarrow> True | _ \<Rightarrow> False)"

lemma sym_decrypt_encrypt:
  assumes "ciphers_inverse c" "sym_encrypt c keys x = Inr y"
  shows "length y = length x \<and> sym_decrypt c keys y = Inr x"
  using assms
  by (auto simp: ciphers_inverse_def cbc_inverse_def sym_encrypt_def sym_decrypt_def split: option.splits if_splits bool.splits)

lemma wrap_sign:
  assumes len: "3 \<le> length mt" "out_cap \<le> length out" and T: "T = 16 + (8 + length body) + 32"
  shows "mu_sym_chunk_wrap crypto MU_MESSAGE_SECURITY_MODE_SIGN keys mt scid tok sq req body out out_cap =
    (if T > out_cap then (Inl MU_STATUS_BAD_RESPONSETOOLARGE, write_header out mt scid tok)
     else (case hmac_sha256 crypto (signing_key keys) (sym_header mt T scid tok sq req @ body) of
        Inl s \<Rightarrow> (Inl s, put_at 0 (sym_header mt T scid tok sq req @ body) out)
      | Inr mac \<Rightarrow> (Inr T, put_at (24 + length body) mac (put_at 0 (sym_header mt T scid tok sq req @ body) out))))"
proof -
  have "write_plain (write_header out mt scid tok) T sq req body out_cap =
      Inr (put_at 0 (sym_header mt T scid tok sq req @ body) out)" if "\<not> T > out_cap"
    using that len T by (intro write_plain_fits) simp_all
  moreover have "take (24 + length body) (put_at 0 (sym_header mt T scid tok sq req @ body) out) =
      sym_header mt T scid tok sq req @ body"
    using len(1) by (simp add: take_put_at_0)
  ultimately show ?thesis
    unfolding mu_sym_chunk_wrap_def Let_def T [symmetric] by (simp split: sum.split)
qed

lemma wrap_encrypt:
  assumes len: "3 \<le> length mt" "out_cap \<le> length out"
    and p: "p = (MU_SYM_BLOCK - (8 + length body + 1 + 32) mod MU_SYM_BLOCK) mod MU_SYM_BLOCK"
    and T: "T = 16 + (8 + length body + 1 + 32 + p)"
    and s: "s = sym_header mt T scid tok sq req @ body @ of_nat p # replicate p (of_nat p)"
  shows "mu_sym_chunk_wrap crypto MU_MESSAGE_SECURITY_MODE_SIGN_AND_ENCRYPT keys mt scid tok sq req body out out_cap =
    (if T > out_cap then (Inl MU_STATUS_BAD_RESPONSETOOLARGE, write_header out mt scid tok)
     else (case hmac_sha256 crypto (signing_key keys) s of
        Inl e \<Rightarrow> (Inl e, put_at 0 s out)
      | Inr mac \<Rightarrow>
        (case sym_encrypt crypto keys (slice 16 (8 + length body + 1 + 32 + p) (put_at (length s) mac (put_at 0 s out))) of
           Inl e \<Rightarrow> (Inl e, put_at (length s) mac (put_at 0 s out))
         | Inr c \<Rightarrow> (Inr T, put_at 16 c (put_at (length s) mac (put_at 0 s out))))))"
proof -
  let ?h = "sym_header mt T scid tok sq req"
  have ls: "length s = 16 + (8 + length body + 1 + p)" using len(1) by (simp add: s)
  have "write_plain (write_header out mt scid tok) T sq req body out_cap = Inr (put_at 0 (?h @ body) out)"
    if "\<not> T > out_cap"
    using that len T by (intro write_plain_fits) simp_all
  moreover have "put_at (16 + (8 + length body) + 1) (replicate p (of_nat p)) (put_at (16 + (8 + length body)) [of_nat p]
      (put_at 0 (?h @ body) out)) = put_at 0 s out" if "\<not> T > out_cap"
    using that len T by (simp add: put_at_chain s)
  moreover have "take (16 + (8 + length body + 1 + p)) (put_at 0 s out) = s"
    unfolding ls [symmetric] by (simp add: take_put_at_0)
  ultimately show ?thesis
    unfolding mu_sym_chunk_wrap_def Let_def p [symmetric] T [symmetric] ls by (simp split: sum.split)
qed

lemma sym_verify_sign:
  assumes "hmac_sha256 crypto (signing_key keys) (sym_header mt tot scid tok sq req @ body) = Inr mac"
    "length mac = 32" "3 \<le> length mt"
  shows "sym_verify crypto MU_MESSAGE_SECURITY_MODE_SIGN keys
      (put_at 0 (sym_header mt tot scid tok sq req @ body @ mac) out) (56 + length body) info =
    Inr (info\<lparr>ci_sequence_number := sq, ci_request_id := req\<rparr>, 24, length body)"
proof -
  let ?h = "sym_header mt tot scid tok sq req"
  let ?c = "put_at 0 (?h @ body @ mac) out"
  have "take (24 + length body) ?c = ?h @ body" using assms by (simp add: take_put_at_0)
  moreover have "drop (24 + length body) ?c = mac @ drop (56 + length body) out"
    using assms by (simp add: put_at_0 add.commute)
  moreover have "slice 16 4 ?c = slice 16 4 ?h" "slice 20 4 ?c = slice 20 4 ?h"
    using assms by (simp_all add: slice_put_at_0 slice_append1)
  ultimately show ?thesis
    using assms sym_header_fields [OF assms(3)] by (simp add: sym_verify_def mu_secure_memeq_iff)
qed

lemma sym_verify_encrypt:
  assumes "hmac_sha256 crypto (signing_key keys) (sym_header mt tot scid tok sq req @ body @ of_nat p # replicate p (of_nat p)) = Inr mac"
    "length mac = 32" "3 \<le> length mt" "p < 256"
  shows "sym_verify crypto MU_MESSAGE_SECURITY_MODE_SIGN_AND_ENCRYPT keys
      (put_at 0 (sym_header mt tot scid tok sq req @ body @ (of_nat p # replicate p (of_nat p)) @ mac) out)
      (57 + length body + p) info =
    Inr (info\<lparr>ci_sequence_number := sq, ci_request_id := req\<rparr>, 24, length body)"
proof -
  let ?h = "sym_header mt tot scid tok sq req" and ?p = "of_nat p # replicate p (of_nat p :: opcua_byte_t)"
  let ?c = "put_at 0 (?h @ body @ ?p @ mac) out"
  let ?n = "25 + length body + p"
  have "take ?n ?c = ?h @ body @ ?p" using assms by (simp add: take_put_at_0)
  moreover have "drop ?n ?c = mac @ drop (57 + length body + p) out"
    using assms by (simp add: put_at_0 ac_simps)
  moreover have "slice 16 4 ?c = slice 16 4 ?h" "slice 20 4 ?c = slice 20 4 ?h"
    using assms by (simp_all add: slice_put_at_0 slice_append1)
  moreover have nth: "?c ! (?n - 1 - i) = of_nat p" if "i \<le> p" for i
  proof -
    have "?c ! (?n - 1 - i) = (?h @ body @ ?p @ mac) ! (24 + length body + (p - i))"
      using that assms by (simp add: nth_put_at_0 add.assoc)
    also have "\<dots> = ?p ! (p - i)"
    proof -
      have "24 + length body + (p - i) = length (?h @ body) + (p - i)" using assms(3) by simp
      moreover have "p - i < length ?p" by simp
      ultimately show ?thesis
        using nth_append_length_plus [of "?h @ body" "?p @ mac" "p - i"] nth_append [of ?p mac "p - i"] by simp
    qed
    also have "\<dots> = of_nat p" by (simp add: nth_Cons')
    finally show ?thesis .
  qed
  moreover have "unat (of_nat p :: opcua_byte_t) = p" using assms(4) by (simp add: unat_of_nat)
  moreover have "list_all (\<lambda>i. unat (?c ! (?n - 1 - i)) = p) [1..<Suc p]"
    unfolding list_all_iff
  proof
    fix i assume "i \<in> set [1..<Suc p]"
    then have "i \<le> p" by (simp only: set_upt) simp
    from nth [OF this] show "unat (?c ! (?n - 1 - i)) = p" using assms(4) by (simp only:) (simp add: unat_of_nat)
  qed
  moreover have "?c ! (?n - 1) = of_nat p" using nth [of 0] by simp
  moreover have "57 + length body + p - 32 = ?n" by simp
  ultimately show ?thesis
    using assms sym_header_fields [OF assms(3)]
    unfolding sym_verify_def Let_def \<open>57 + length body + p - 32 = ?n\<close> by (simp add: mu_secure_memeq_iff)
qed

lemma get_u32_tot: "tot < 2 ^ 32 \<Longrightarrow> unat (of_nat tot :: 32 word) = tot"
  by (rule unat_of_nat32)

lemma unwrap_header:
  assumes "3 \<le> length mt" "24 \<le> tot" "tot \<le> n" "tot < 2 ^ 32" "16 \<le> length x" "take 16 x = take 16 (sym_header mt tot scid tok sq req)"
    and c: "c = put_at 0 x out"
  shows "mu_sym_chunk_unwrap crypto mode keys c n =
    (let info = \<lparr>ci_mode = mode, ci_secure_channel_id = scid, ci_token_id = tok, ci_sequence_number = 0,
           ci_request_id = 0, ci_message_type = take 3 mt\<rparr> in
     if mode = MU_MESSAGE_SECURITY_MODE_SIGN_AND_ENCRYPT then
       (if (tot - 16) mod MU_SYM_BLOCK \<noteq> 0 then (Inl MU_STATUS_BAD_DECODINGERROR, c)
        else (case sym_decrypt crypto keys (slice MU_SYM_HEADER_SIZE (tot - 16) c) of
            Inl s \<Rightarrow> (Inl s, c)
          | Inr plain \<Rightarrow> (sym_verify crypto mode keys (put_at 16 plain c) tot info, put_at 16 plain c)))
     else if mode \<noteq> MU_MESSAGE_SECURITY_MODE_SIGN then (Inl MU_STATUS_BAD_SECURITYMODEREJECTED, c)
     else (sym_verify crypto mode keys c tot info, c))"
proof -
  let ?h = "sym_header mt tot scid tok sq req"
  have t: "take 16 c = take 16 ?h" using assms by (simp add: take_put_at_0)
  then have "slice 4 4 c = slice 4 4 ?h" "slice 8 4 c = slice 8 4 ?h" "slice 12 4 c = slice 12 4 ?h"
    by (simp_all add: slice_cong [OF t])
  moreover have "take 3 c = take 3 ?h" using arg_cong [OF t, of "take 3"] by simp
  moreover have "\<not> n < 16" "\<not> tot < 16" "\<not> n < tot" "tot - 16 \<noteq> 0" using assms by simp_all
  ultimately show ?thesis
    using sym_header_fields [OF assms(1)] assms(4)
    by (simp add: mu_sym_chunk_unwrap_def get_u32_tot Let_def split: sum.split)
qed

lemma put_at_overwrite:
  assumes "k + length c = length x" "length x \<le> length b"
  shows "put_at k c (put_at 0 x b) = put_at 0 (take k x @ c) b"
  using assms by (simp add: put_at_def)

lemma wrap_unwrap:
  assumes wr: "mu_sym_chunk_wrap crypto mode keys mt scid tok sq req body out out_cap = (Inr n, out')"
    and len: "3 \<le> length mt" "out_cap \<le> length out" "out_cap < 2 ^ 32"
    and hm: "hmac_length crypto" "ciphers_inverse crypto"
  shows "\<exists>chunk. mu_sym_chunk_unwrap crypto mode keys out' n =
    (Inr (\<lparr>ci_mode = mode, ci_secure_channel_id = scid, ci_token_id = tok, ci_sequence_number = sq,
           ci_request_id = req, ci_message_type = take 3 mt\<rparr>, 24, length body), chunk) \<and>
    slice 24 (length body) chunk = body"
proof -
  have "mode = MU_MESSAGE_SECURITY_MODE_SIGN \<or> mode = MU_MESSAGE_SECURITY_MODE_SIGN_AND_ENCRYPT"
    using wr by (auto simp: mu_sym_chunk_wrap_def split: if_splits)
  then show ?thesis
  proof
    assume m: "mode = MU_MESSAGE_SECURITY_MODE_SIGN"
    define T where "T = 16 + (8 + length body) + 32"
    let ?h = "sym_header mt T scid tok sq req"
    obtain mac where mac: "hmac_sha256 crypto (signing_key keys) (?h @ body) = Inr mac" "n = T" "T \<le> out_cap"
        "out' = put_at (24 + length body) mac (put_at 0 (?h @ body) out)"
      using wr unfolding m wrap_sign [OF len(1,2) T_def] by (auto split: if_splits sum.splits)
    have lm: "length mac = 32" using hm(1) mac(1) by (simp add: hmac_length_def)
    have o: "out' = put_at 0 (?h @ body @ mac) out"
      unfolding mac(4) using put_at_chain [of "?h @ body" "24 + length body" mac out] len mac(3) lm by (simp add: T_def)
    have "56 + length body = T" by (simp add: T_def)
    then show ?thesis
      using unwrap_header [OF len(1) _ _ _ _ _ o, of T n scid tok sq req crypto mode keys]
        sym_verify_sign [OF mac(1) lm len(1), of out] mac(2,3) len m
      by (simp add: o slice_put_at_0 slice_append2 slice_append1)
  next
    assume m: "mode = MU_MESSAGE_SECURITY_MODE_SIGN_AND_ENCRYPT"
    define p where "p = (MU_SYM_BLOCK - (8 + length body + 1 + 32) mod MU_SYM_BLOCK) mod MU_SYM_BLOCK"
    have pb: "p < 16" "(8 + length body + 1 + 32 + p) mod 16 = 0"
      using sym_pad_bounds [of "length body"] by (simp_all only: p_def sym_pad_def)
    define T where "T = 16 + (8 + length body + 1 + 32 + p)"
    let ?h = "sym_header mt T scid tok sq req" and ?p = "of_nat p # replicate p (of_nat p :: opcua_byte_t)"
    define s where "s = ?h @ body @ ?p"
    have ls: "length s = 25 + length body + p" using len(1) by (simp add: s_def)
    let ?o = "\<lambda>mac. put_at (length s) mac (put_at 0 s out)"
    obtain mac c where mac: "hmac_sha256 crypto (signing_key keys) s = Inr mac" "n = T" "T \<le> out_cap"
        "sym_encrypt crypto keys (slice 16 (8 + length body + 1 + 32 + p) (?o mac)) = Inr c" "out' = put_at 16 c (?o mac)"
      using wr unfolding m wrap_encrypt [OF len(1,2) p_def T_def s_def] by (auto split: if_splits sum.splits)
    have lm: "length mac = 32" using hm(1) mac(1) by (simp add: hmac_length_def)
    have x: "length (s @ mac) = T" "length (s @ mac) \<le> length out"
      using ls lm mac(3) len(2) by (simp_all add: T_def)
    have o: "?o mac = put_at 0 (s @ mac) out" using x by (intro put_at_chain) simp_all
    have sl: "slice 16 (8 + length body + 1 + 32 + p) (?o mac) = drop 16 (s @ mac)"
      unfolding o using x(1) by (simp add: slice_put_at_0 T_def) (simp add: slice_def T_def)
    note inv = sym_decrypt_encrypt [OF hm(2) mac(4) [unfolded sl]]
    have lc: "length c = T - 16" using inv x(1) by simp
    have o': "out' = put_at 0 (take 16 (s @ mac) @ c) out"
      unfolding mac(5) o using x lc by (intro put_at_overwrite) (simp_all add: T_def)
    have "slice 16 (T - 16) out' = c"
    proof -
      have "length (take 16 (s @ mac)) = 16" using x(1) by (simp add: T_def)
      then have "slice 16 (T - 16) (take 16 (s @ mac) @ c) = c"
        using lc by (subst slice_append2) (simp_all only: diff_self_eq_0 slice_0_take, simp_all)
      then show ?thesis unfolding o' using x lc by (subst slice_put_at_0) (simp_all add: T_def)
    qed
    moreover have "put_at 16 (drop 16 (s @ mac)) out' = put_at 0 (s @ mac) out"
    proof -
      define y where "y = s @ mac"
      have "length (take 16 y @ c) = T" "length y = T" "T \<le> length out" using x lc by (simp_all add: y_def T_def)
      then have "put_at 16 (drop 16 y) (put_at 0 (take 16 y @ c) out) = put_at 0 (take 16 y @ drop 16 y) out"
        by (subst put_at_overwrite) (simp_all add: T_def)
      then show ?thesis by (simp add: o' y_def [symmetric])
    qed
    moreover have "take 16 (take 16 (s @ mac) @ c) = take 16 ?h" using len(1) by (simp add: s_def)
    moreover have "(T - 16) mod 16 = 0" using pb(2) by (simp add: T_def add.assoc)
    moreover have "57 + length body + p = T" by (simp add: T_def)
    moreover have "slice 24 (length body) (put_at 0 (s @ mac) out) = body"
      using len(1) lm by (simp add: s_def slice_put_at_0 slice_append2 slice_append1)
    ultimately show ?thesis
      using unwrap_header [OF len(1) _ _ _ _ _ o', of T n scid tok sq req crypto mode keys]
        sym_verify_encrypt [of crypto keys mt T scid tok sq req body p mac out] mac(1-3) len m lm pb(1) inv x(1)
      by (simp add: s_def)
  qed
qed

section \<open>Chunks from the network\<close>

definition cbc_keeps_length :: "cbc \<Rightarrow> bool" where
  "cbc_keeps_length f \<longleftrightarrow> (\<forall>k iv x y. f k iv x = Inr y \<longrightarrow> length y = length x)"

definition decrypts_keep_length :: "mu_crypto_adapter \<Rightarrow> bool" where
  "decrypts_keep_length c \<longleftrightarrow> cbc_keeps_length (aes256_cbc_decrypt c) \<and>
     (\<forall>f. aes128_cbc_decrypt c = Some f \<longrightarrow> cbc_keeps_length f) \<and>
     (\<forall>f. aes256_cbc_decrypt_ctx c = Some f \<longrightarrow> cbc_keeps_length f)"

lemma sym_decrypt_length:
  assumes "decrypts_keep_length c" "sym_decrypt c keys x = Inr y"
  shows "length y = length x"
  using assms
  by (auto simp: decrypts_keep_length_def cbc_keeps_length_def sym_decrypt_def split: option.splits if_splits bool.splits)

lemma sym_verify_Inr:
  assumes "sym_verify crypto mode keys c msg_size info = Inr (info', off, len)"
    and "hmac_length crypto" "msg_size \<le> length c"
  shows "off = 24" "24 + len + 32 \<le> msg_size"
    "hmac_sha256 crypto (signing_key keys) (take (msg_size - 32) c) = Inr (slice (msg_size - 32) 32 c)"
    "info' = info\<lparr>ci_sequence_number := get_u32 (slice 16 4 c), ci_request_id := get_u32 (slice 20 4 c)\<rparr>"
proof -
  obtain mac where ge: "\<not> msg_size < 56"
    and mac: "hmac_sha256 crypto (signing_key keys) (take (msg_size - 32) c) = Inr mac"
      "mu_secure_memeq mac (drop (msg_size - 32) c) 32"
    using assms(1) by (auto simp: sym_verify_def Let_def split: if_splits sum.splits)
  have "length mac = 32" using assms(2) mac(1) by (simp add: hmac_length_def)
  moreover have "32 \<le> length (drop (msg_size - 32) c)" using assms(3) ge by simp
  ultimately have "mac = slice (msg_size - 32) 32 c"
    using mac(2) by (simp add: mu_secure_memeq_iff slice_def)
  with mac(1) show "hmac_sha256 crypto (signing_key keys) (take (msg_size - 32) c) = Inr (slice (msg_size - 32) 32 c)"
    by simp
  show "off = 24"
    "info' = info\<lparr>ci_sequence_number := get_u32 (slice 16 4 c), ci_request_id := get_u32 (slice 20 4 c)\<rparr>"
    using assms(1) by (auto simp: sym_verify_def Let_def split: if_splits sum.splits)
  show "24 + len + 32 \<le> msg_size"
    using assms(1) ge by (auto simp: sym_verify_def Let_def mac split: if_splits)
qed

lemma unwrap_Inr:
  assumes u: "mu_sym_chunk_unwrap crypto mode keys c n = (Inr (info, off, len), c')"
    and a: "hmac_length crypto" "decrypts_keep_length crypto" "n \<le> length c"
    and M: "M = unat (get_u32 (slice 4 4 c))"
  shows "M \<le> n" "16 \<le> M" "length c' = length c" "take 16 c' = take 16 c" "drop M c' = drop M c"
    "mode = MU_MESSAGE_SECURITY_MODE_SIGN \<or> mode = MU_MESSAGE_SECURITY_MODE_SIGN_AND_ENCRYPT"
    "\<exists>info0. sym_verify crypto mode keys c' M info0 = Inr (info, off, len)"
proof -
  have ge: "\<not> n < 16" and le: "M \<le> n" "16 \<le> M"
    using u M by (auto simp: mu_sym_chunk_unwrap_def Let_def split: if_splits)
  show "M \<le> n" "16 \<le> M" by (fact le)+
  show m: "mode = MU_MESSAGE_SECURITY_MODE_SIGN \<or> mode = MU_MESSAGE_SECURITY_MODE_SIGN_AND_ENCRYPT"
    using u ge le by (auto simp: mu_sym_chunk_unwrap_def M [symmetric] Let_def split: if_splits)
  have "(\<exists>info0. sym_verify crypto mode keys c' M info0 = Inr (info, off, len)) \<and>
    (c' = c \<or> (\<exists>y. length y = M - 16 \<and> c' = put_at 16 y c))"
  proof (cases "mode = MU_MESSAGE_SECURITY_MODE_SIGN_AND_ENCRYPT")
    case True
    then obtain y where y: "sym_decrypt crypto keys (slice 16 (M - 16) c) = Inr y" "c' = put_at 16 y c"
        "\<exists>info0. sym_verify crypto mode keys c' M info0 = Inr (info, off, len)"
      using u ge le unfolding mu_sym_chunk_unwrap_def M [symmetric] Let_def
      by (auto split: if_splits sum.splits)
    have "length y = M - 16" using sym_decrypt_length [OF a(2) y(1)] a(3) le by simp
    with y show ?thesis by blast
  next
    case False
    then show ?thesis
      using u ge le m unfolding mu_sym_chunk_unwrap_def M [symmetric] Let_def by auto
  qed
  then show "\<exists>info0. sym_verify crypto mode keys c' M info0 = Inr (info, off, len)"
    "length c' = length c" "take 16 c' = take 16 c" "drop M c' = drop M c"
    using le a(3) by auto
qed

section \<open>Authenticated encryption\<close>

lemma put_u32_inject: "put_u32 a = put_u32 b \<longleftrightarrow> a = b"
proof
  assume "put_u32 a = put_u32 b"
  then have "get_u32 (put_u32 a) = get_u32 (put_u32 b)" by (rule arg_cong)
  then show "a = b" by simp
qed simp

lemma xor_right_cancel: "(a :: 8 word) XOR x = a XOR y \<longleftrightarrow> x = y"
proof
  assume "a XOR x = a XOR y"
  then have "(a XOR a) XOR x = (a XOR a) XOR y" by (simp only: xor.assoc)
  then show "x = y" by simp
qed simp

lemma map2_xor_inject:
  "length x = length iv \<Longrightarrow> length y = length iv \<Longrightarrow>
   map2 (\<lambda>a b. a XOR b) iv x = map2 (\<lambda>a b. a XOR b) iv y \<Longrightarrow> x = (y :: bytes)"
proof (induction iv arbitrary: x y)
  case (Cons a iv)
  obtain u x' v y' where xy: "x = u # x'" "y = v # y'"
    using Cons.prems by (cases x; cases y) simp_all
  with Cons show ?case by (simp add: xor_right_cancel)
qed simp

lemma take_aead_iv:
  assumes "12 \<le> length iv"
  shows "take 8 (aead_build_iv iv t s) = map2 (\<lambda>a b. a XOR b) (take 8 iv) (put_u32 t @ put_u32 s)"
proof -
  have "length (map2 (\<lambda>a b. a XOR b) (take 8 iv) (put_u32 t @ put_u32 s)) = 8"
    using assms by (simp del: map_map)
  moreover have "take 8 (take 12 iv) = take 8 iv" by simp
  ultimately show ?thesis unfolding aead_build_iv_def Let_def by (simp only: take_append) simp
qed

lemma aead_iv_inject:
  assumes "12 \<le> length iv" "aead_build_iv iv t s = aead_build_iv iv t' s'"
  shows "t = t' \<and> s = s'"
proof -
  have "map2 (\<lambda>a b. a XOR b) (take 8 iv) (put_u32 t @ put_u32 s) = map2 (\<lambda>a b. a XOR b) (take 8 iv) (put_u32 t' @ put_u32 s')"
    using assms(2) by (simp only: take_aead_iv [OF assms(1), symmetric])
  then have "put_u32 t @ put_u32 s = put_u32 t' @ put_u32 s'"
    by (rule map2_xor_inject [rotated 2]) (use assms(1) in simp_all)
  then show ?thesis by (simp add: put_u32_inject)
qed

definition aead_inverse :: "mu_crypto_adapter \<Rightarrow> bool" where
  "aead_inverse crypto \<longleftrightarrow>
    (\<forall>e d k iv aad x c tag. chacha20_poly1305_encrypt crypto = Some e \<longrightarrow> chacha20_poly1305_decrypt crypto = Some d \<longrightarrow>
       e k iv aad x = Inr (c, tag) \<longrightarrow> length c = length x \<and> length tag = MU_AEAD_TAG_LEN \<and> d k iv aad c tag = Inr x)"

lemma aead_wrap_shape:
  assumes wr: "mu_sym_chunk_wrap_aead crypto keys mt scid tok sq lsq req body out out_cap = (Inr n, out')"
    and len: "3 \<le> length mt" "out_cap \<le> length out"
    and d: "chacha20_poly1305_decrypt crypto = Some d" and inv: "aead_inverse crypto"
  obtains c tag where "length c = 8 + length body" "length tag = 16" "n = 40 + length body" "n \<le> out_cap"
    "d (encrypting_key keys) (aead_build_iv (sk_iv keys) tok lsq) (take 16 (sym_header mt n scid tok sq req)) c tag =
       Inr (drop 16 (sym_header mt n scid tok sq req @ body))"
    "out' = put_at 0 (take 16 (sym_header mt n scid tok sq req) @ c @ tag) out"
proof -
  define T where "T = 16 + (8 + length body) + 16"
  let ?h = "sym_header mt T scid tok sq req"
  let ?x = "?h @ body"
  let ?iv = "aead_build_iv (sk_iv keys) tok lsq"
  obtain e where e: "chacha20_poly1305_encrypt crypto = Some e"
    using wr by (auto simp: mu_sym_chunk_wrap_aead_def split: option.splits)
  have fit: "T \<le> out_cap"
    using wr unfolding mu_sym_chunk_wrap_aead_def e option.case Let_def T_def [symmetric] by (auto split: if_splits)
  have "write_plain (write_header out mt scid tok) T sq req body out_cap = Inr (put_at 0 ?x out)"
    using fit len by (intro write_plain_fits) (simp_all add: T_def)
  moreover have "take 16 (put_at 0 ?x out) = take 16 ?h" "slice 16 (8 + length body) (put_at 0 ?x out) = drop 16 ?x"
    using len(1) by (simp_all add: take_put_at_0 slice_put_at_0) (simp add: slice_def)
  ultimately obtain c tag where c: "e (encrypting_key keys) ?iv (take 16 ?h) (drop 16 ?x) = Inr (c, tag)" "n = T"
      "out' = put_at (16 + (8 + length body)) tag (put_at 16 c (put_at 0 ?x out))"
    using wr fit unfolding mu_sym_chunk_wrap_aead_def e option.case Let_def T_def [symmetric]
    by (auto split: sum.splits)
  have i: "length c = length (drop 16 ?x)" "length tag = 16" "d (encrypting_key keys) ?iv (take 16 ?h) c tag = Inr (drop 16 ?x)"
    using inv [unfolded aead_inverse_def] e d c(1) by blast+
  then have lc: "length c = 8 + length body" using len(1) by simp
  have "put_at 16 c (put_at 0 ?x out) = put_at 0 (take 16 ?x @ c) out"
    using lc fit len by (intro put_at_overwrite) (simp_all add: T_def)
  then have o': "out' = put_at 0 (take 16 ?h @ c @ tag) out"
    using c(3) put_at_chain [of "take 16 ?h @ c" "16 + (8 + length body)" tag out] lc i(2) fit len by (simp add: T_def)
  have "n = 40 + length body" "n \<le> out_cap" using c(2) fit by (simp_all add: T_def)
  then show ?thesis using that [OF lc i(2)] i(3) o' unfolding c(2) by blast
qed

lemma aead_shape_unwraps:
  assumes "length c = 8 + length body" "length tag = 16" "n = 40 + length body" "n < 2 ^ 32" "3 \<le> length mt"
    and d: "chacha20_poly1305_decrypt crypto = Some d"
      "d (encrypting_key keys) (aead_build_iv (sk_iv keys) tok lsq) (take 16 (sym_header mt n scid tok sq req)) c tag =
         Inr (drop 16 (sym_header mt n scid tok sq req @ body))"
  shows "mu_sym_chunk_unwrap_aead crypto keys (take 16 (sym_header mt n scid tok sq req) @ c @ tag @ rest) n lsq =
    (Inr (\<lparr>ci_mode = MU_MESSAGE_SECURITY_MODE_SIGN_AND_ENCRYPT, ci_secure_channel_id = scid, ci_token_id = tok,
           ci_sequence_number = sq, ci_request_id = req, ci_message_type = take 3 mt\<rparr>, 24, length body),
     sym_header mt n scid tok sq req @ body @ tag @ rest)"
proof -
  let ?h = "sym_header mt n scid tok sq req"
  define b where "b = take 16 ?h @ c @ tag @ rest"
  define X where "X = drop 16 (?h @ body)"
  have t: "take 16 b = take 16 ?h" "take 3 b = take 3 ?h" using assms(5) by (simp_all add: b_def)
  have h: "slice 4 4 b = slice 4 4 ?h" "slice 8 4 b = slice 8 4 ?h" "slice 12 4 b = slice 12 4 ?h"
    by (simp_all add: slice_cong [OF t(1)])
  have s: "slice 16 (8 + length body) b = c" "slice (24 + length body) 16 b = tag"
    using assms(1,2,5) by (simp_all add: b_def slice_append2 slice_append1)
  have p: "put_at 16 X b = ?h @ body @ tag @ rest"
    using assms(1,5) append_take_drop_id [of 16 ?h] by (simp add: X_def b_def put_at_def)
  have q: "slice 16 4 (?h @ body @ tag @ rest) = slice 16 4 ?h" "slice 20 4 (?h @ body @ tag @ rest) = slice 20 4 ?h"
    using assms(5) by (simp_all add: slice_append1)
  have T: "unat (of_nat n :: 32 word) = n" using assms(4) by (rule get_u32_tot)
  have n: "n - 32 = 8 + length body" "\<not> n < 16" "\<not> n < 40" using assms(3) by simp_all
  show ?thesis unfolding b_def [symmetric]
    using n sym_header_fields [OF assms(5)] d(2) [folded X_def]
    by (simp add: mu_sym_chunk_unwrap_aead_def d(1) Let_def h T t s p q)
qed

lemma aead_roundtrip:
  assumes wr: "mu_sym_chunk_wrap_aead crypto keys mt scid tok sq lsq req body out out_cap = (Inr n, out')"
    and len: "3 \<le> length mt" "out_cap \<le> length out" "out_cap < 2 ^ 32"
    and d: "chacha20_poly1305_decrypt crypto = Some d" and inv: "aead_inverse crypto"
  defines "info \<equiv> \<lparr>ci_mode = MU_MESSAGE_SECURITY_MODE_SIGN_AND_ENCRYPT, ci_secure_channel_id = scid, ci_token_id = tok,
      ci_sequence_number = sq, ci_request_id = req, ci_message_type = take 3 mt\<rparr>"
  shows "\<exists>chunk. mu_sym_chunk_unwrap_aead crypto keys out' n lsq = (Inr (info, 24, length body), chunk) \<and>
      slice 24 (length body) chunk = body"
    "\<exists>chunk. mu_sym_chunk_unwrap_aead crypto keys (take n out') n lsq = (Inr (info, 24, length body), chunk) \<and>
      slice 24 (length body) chunk = body"
    "40 \<le> n" "n \<le> out_cap" "length out' = length out" "take 16 out' = take 16 (sym_header mt n scid tok sq req)"
proof -
  let ?h = "sym_header mt n scid tok sq req"
  obtain c tag where c: "length c = 8 + length body" "length tag = 16" "n = 40 + length body" "n \<le> out_cap"
    "d (encrypting_key keys) (aead_build_iv (sk_iv keys) tok lsq) (take 16 ?h) c tag = Inr (drop 16 (?h @ body))"
    "out' = put_at 0 (take 16 ?h @ c @ tag) out"
    by (rule aead_wrap_shape [OF wr len(1,2) d inv])
  have o': "out' = take 16 ?h @ c @ tag @ drop n out" "take n out' = take 16 ?h @ c @ tag @ []"
    using c(1-3,6) len(1) by (simp_all add: put_at_0 ac_simps)
  have "n < 2 ^ 32" using c(4) len(3) by simp
  note u = aead_shape_unwraps [OF c(1-3) this len(1) d c(5)]
  have b: "slice 24 (length body) (?h @ body @ tag @ rest) = body" for rest using len(1) by (simp add: slice_append2 slice_append1)
  show "\<exists>chunk. mu_sym_chunk_unwrap_aead crypto keys out' n lsq = (Inr (info, 24, length body), chunk) \<and>
      slice 24 (length body) chunk = body"
    "\<exists>chunk. mu_sym_chunk_unwrap_aead crypto keys (take n out') n lsq = (Inr (info, 24, length body), chunk) \<and>
      slice 24 (length body) chunk = body"
    unfolding o'(2) unfolding o'(1) info_def u using b by blast+
  show "40 \<le> n" "n \<le> out_cap" "length out' = length out" "take 16 out' = take 16 ?h"
    using c(1-4) len by (simp_all add: o'(1))
qed

section \<open>Derived keys\<close>

lemma sym_keys_derive_eq:
  assumes "hmac_computes (hmac_sha256 crypto) h" "length seed \<le> MU_KDF_MAX_SEED"
    and s: "s = mu_security_policy_signature_key_length policy"
    and e: "e = mu_security_policy_encryption_key_length policy"
    and i: "i = mu_security_policy_encryption_block_size policy"
    and m: "material = P_hash h secret seed (s + e + i)"
  shows "mu_sym_keys_derive crypto policy (Some secret) (Some seed) =
    (MU_STATUS_GOOD, sym_keys_zero\<lparr>sk_policy := policy,
       signing_key := take s material @ replicate (32 - s) 0,
       encrypting_key := slice s e material @ replicate (32 - e) 0,
       sk_iv := slice (s + e) i material @ replicate (16 - i) 0\<rparr>)"
proof -
  have b: "s \<le> 32" "e \<le> 32" "i \<le> 16" using policy_lengths_bounded(1-3) [of policy] by (simp_all add: s e i)
  have "length material = s + e + i" using length_P_hash [OF assms(1)] by (simp add: m)
  then have "put_at 0 (take s material) (replicate 32 0) = take s material @ replicate (32 - s) 0"
    "put_at 0 (slice s e material) (replicate 32 0) = slice s e material @ replicate (32 - e) 0"
    "put_at 0 (slice (s + e) i material) (replicate 16 0) = slice (s + e) i material @ replicate (16 - i) 0"
    by (simp_all add: put_at_0)
  then show ?thesis
    using b mu_p_sha256_eq [OF assms(1,2)]
    unfolding mu_sym_keys_derive_def Let_def s [symmetric] e [symmetric] i [symmetric]
    by (simp add: m sym_keys_zero_def)
qed

section \<open>Main properties\<close>

definition sample_cbc :: cbc where
  "sample_cbc k iv x = Inr (map (\<lambda>b. b XOR 0xA5) x)"

definition sample_crypto :: mu_crypto_adapter where
  "sample_crypto = \<lparr>hmac_sha256 = (\<lambda>k d. Inr (sample_hmac k d)), aes256_cbc_encrypt = sample_cbc,
     aes256_cbc_decrypt = sample_cbc, aes128_cbc_encrypt = Some sample_cbc, aes128_cbc_decrypt = Some sample_cbc,
     cipher_ctx_init = None, aes256_cbc_encrypt_ctx = None, aes256_cbc_decrypt_ctx = None, cipher_ctx_free = False,
     chacha20_poly1305_encrypt = Some (\<lambda>k n a x. Inr (x, replicate 16 0)),
     chacha20_poly1305_decrypt = Some (\<lambda>k n a x t. Inr x)\<rparr>"

lemma sample_cbc_inverse: "cbc_inverse sample_cbc sample_cbc"
  by (auto simp: cbc_inverse_def sample_cbc_def comp_def xor.assoc)

lemma sample_crypto_simps [simp]:
  "hmac_sha256 sample_crypto = (\<lambda>k d. Inr (sample_hmac k d))"
  "aes256_cbc_encrypt sample_crypto = sample_cbc" "aes256_cbc_decrypt sample_crypto = sample_cbc"
  "aes128_cbc_encrypt sample_crypto = Some sample_cbc" "aes128_cbc_decrypt sample_crypto = Some sample_cbc"
  "aes256_cbc_encrypt_ctx sample_crypto = None" "aes256_cbc_decrypt_ctx sample_crypto = None"
  "chacha20_poly1305_encrypt sample_crypto = Some (\<lambda>k n a x. Inr (x, replicate 16 0))"
  "chacha20_poly1305_decrypt sample_crypto = Some (\<lambda>k n a x t. Inr x)"
  by (simp_all add: sample_crypto_def)

lemma sample_crypto_laws:
  "hmac_length sample_crypto" "ciphers_inverse sample_crypto" "decrypts_keep_length sample_crypto" "aead_inverse sample_crypto"
  "hmac_computes (hmac_sha256 sample_crypto) sample_hmac"
proof -
  show h: "hmac_computes (hmac_sha256 sample_crypto) sample_hmac" using sample_hmac_computes by simp
  then show "hmac_length sample_crypto" by (simp add: hmac_length_def hmac_computes_def)
  show "ciphers_inverse sample_crypto" using sample_cbc_inverse by (simp add: ciphers_inverse_def)
  have "cbc_keeps_length sample_cbc" using sample_cbc_inverse unfolding cbc_keeps_length_def cbc_inverse_def by blast
  then show "decrypts_keep_length sample_crypto" by (simp add: decrypts_keep_length_def)
  show "aead_inverse sample_crypto" by (simp add: aead_inverse_def)
qed

abbreviation sample_keys :: mu_sym_keys where
  "sample_keys \<equiv> sym_keys_zero\<lparr>sk_policy := MU_SECURITY_POLICY_BASIC256SHA256_ID\<rparr>"

lemma sample_wrap:
  assumes "3 \<le> length mt" "out_cap \<le> length out"
    and "p = (MU_SYM_BLOCK - (8 + length body + 1 + 32) mod MU_SYM_BLOCK) mod MU_SYM_BLOCK"
    and "T = 16 + (8 + length body + 1 + 32 + p)" "T \<le> out_cap"
  shows "\<exists>out'. mu_sym_chunk_wrap sample_crypto MU_MESSAGE_SECURITY_MODE_SIGN_AND_ENCRYPT sample_keys mt scid tok sq req
    body out out_cap = (Inr T, out')"
  unfolding wrap_encrypt [OF assms(1-4) refl] using assms(5)
  by (simp add: sym_encrypt_def sample_cbc_def policy_uses_aes128_def sym_keys_zero_def)

lemma wrap_frame_sign:
  assumes "mu_sym_chunk_wrap crypto MU_MESSAGE_SECURITY_MODE_SIGN keys mt scid tok sq req body out out_cap = (res, out')"
    and "3 \<le> length mt" "out_cap \<le> length out" "hmac_length crypto" "\<not> sym_total MU_MESSAGE_SECURITY_MODE_SIGN body > out_cap"
    and "T = sym_total MU_MESSAGE_SECURITY_MODE_SIGN body"
  shows "length out' = length out \<and> drop T out' = drop T out \<and> (\<forall>n. res = Inr n \<longrightarrow> n = T)"
proof -
  have T: "T = 16 + (8 + length body) + 32" by (simp add: assms(6) sym_total_def sym_signed_def)
  have "length mac = 32" if "hmac_sha256 crypto k d = Inr mac" for k d mac using assms(4) that by (simp add: hmac_length_def)
  then show ?thesis
    using assms(1-3,5) unfolding wrap_sign [OF assms(2,3) T] assms(6) [symmetric]
    by (auto simp: T split: sum.splits)
qed

lemma wrap_frame_encrypt:
  assumes "mu_sym_chunk_wrap crypto MU_MESSAGE_SECURITY_MODE_SIGN_AND_ENCRYPT keys mt scid tok sq req body out out_cap = (res, out')"
    and "3 \<le> length mt" "out_cap \<le> length out" "hmac_length crypto" "ciphers_inverse crypto"
    and "\<not> sym_total MU_MESSAGE_SECURITY_MODE_SIGN_AND_ENCRYPT body > out_cap"
    and "T = sym_total MU_MESSAGE_SECURITY_MODE_SIGN_AND_ENCRYPT body"
  shows "length out' = length out \<and> drop T out' = drop T out \<and> (\<forall>n. res = Inr n \<longrightarrow> n = T)"
proof -
  define p where "p = sym_pad (length body)"
  have T: "T = 16 + (8 + length body + 1 + 32 + p)" by (simp add: assms(7) sym_total_def sym_signed_def p_def)
  have m: "length mac = 32" if "hmac_sha256 crypto k d = Inr mac" for k d mac using assms(4) that by (simp add: hmac_length_def)
  have c: "length y = length x" if "sym_encrypt crypto keys x = Inr y" for x y using sym_decrypt_encrypt [OF assms(5) that] by simp
  have f: "T \<le> length out" "\<not> T > out_cap" using assms(3,6,7) by simp_all
  define s where "s = sym_header mt T scid tok sq req @ body @ of_nat p # replicate p (of_nat p)"
  have s: "length s = 25 + length body + p" using assms(2) by (simp add: s_def)
  define b where "b = put_at 0 s out"
  have b: "length b = length out" "drop T b = drop T out" using s f(1) by (simp_all add: b_def T)
  have b': "length (put_at (length s) mac b) = length out" "drop T (put_at (length s) mac b) = drop T out" if "length mac = 32" for mac
    using that s f(1) b by (simp_all add: T)
  have b'': "length (put_at 16 y (put_at (length s) mac b)) = length out" "drop T (put_at 16 y (put_at (length s) mac b)) = drop T out"
    if "length mac = 32" "length y = 8 + length body + 1 + 32 + p" for mac y
    using that(2) f(1) b' [OF that(1)] by (simp_all add: T)
  have sl: "length (slice 16 (8 + length body + 1 + 32 + p) (put_at (length s) mac b)) = 8 + length body + 1 + 32 + p" if "length mac = 32" for mac
    using b' [OF that] f(1) by (simp add: slice_def T)
  show ?thesis
    using assms(1) unfolding wrap_encrypt [OF assms(2,3) p_def [unfolded sym_pad_def] T s_def] b_def [symmetric]
    using f(2) b b' b'' m c sl by (auto split: sum.splits simp del: length_put_at drop_put_at)
qed

text \<open>
  C16.  Round trip of protected chunks.  Whatever mode and policy, the chunk built for a body is
  opened by the same keys: the channel, token, sequence number, request id and message type come back,
  and the returned pointer and length denote exactly the body, for every body length (all paddings).
\<close>

theorem sym_chunk_roundtrip:
  assumes "mu_sym_chunk_wrap crypto mode keys mt scid tok sq req body out out_cap = (Inr n, out')"
    and "3 \<le> length mt" "out_cap \<le> length out" "out_cap < 2 ^ 32" "hmac_length crypto" "ciphers_inverse crypto"
  shows "\<exists>chunk. mu_sym_chunk_unwrap crypto mode keys out' n =
    (Inr (\<lparr>ci_mode = mode, ci_secure_channel_id = scid, ci_token_id = tok, ci_sequence_number = sq,
           ci_request_id = req, ci_message_type = take 3 mt\<rparr>, 24, length body), chunk) \<and>
    slice 24 (length body) chunk = body"
  using assms by (rule wrap_unwrap)

lemma sample_wrapped: "\<exists>out'. mu_sym_chunk_wrap sample_crypto MU_MESSAGE_SECURITY_MODE_SIGN_AND_ENCRYPT sample_keys
    [0x4D, 0x53, 0x47] 7 1 52 9 [5] (replicate 64 0) 64 = (Inr 64, out')"
  by (rule sample_wrap [of "[0x4D, 0x53, 0x47]" 64 "replicate 64 0" 6 "[5]" 64 7 1 52 9]) simp_all

theorem sym_chunk_roundtrip_witness:
  "\<exists>out' chunk. mu_sym_chunk_wrap sample_crypto MU_MESSAGE_SECURITY_MODE_SIGN_AND_ENCRYPT sample_keys
       [0x4D, 0x53, 0x47] 7 1 52 9 [5] (replicate 64 0) 64 = (Inr 64, out') \<and>
     mu_sym_chunk_unwrap sample_crypto MU_MESSAGE_SECURITY_MODE_SIGN_AND_ENCRYPT sample_keys out' 64 =
       (Inr (\<lparr>ci_mode = 3, ci_secure_channel_id = 7, ci_token_id = 1, ci_sequence_number = 52, ci_request_id = 9,
              ci_message_type = [0x4D, 0x53, 0x47]\<rparr>, 24, 1), chunk) \<and>
     slice 24 1 chunk = [5]"
proof -
  obtain out' where w: "mu_sym_chunk_wrap sample_crypto MU_MESSAGE_SECURITY_MODE_SIGN_AND_ENCRYPT sample_keys
      [0x4D, 0x53, 0x47] 7 1 52 9 [5] (replicate 64 0) 64 = (Inr 64, out')"
    using sample_wrapped by (rule exE)
  have "(64 :: nat) < 2 ^ 32" "3 \<le> length [0x4D, 0x53, 0x47 :: opcua_byte_t]"
    "64 \<le> length (replicate 64 (0 :: opcua_byte_t))" by simp_all
  from sym_chunk_roundtrip [OF w this(2,3,1) sample_crypto_laws(1,2)]
  have "\<exists>chunk. mu_sym_chunk_unwrap sample_crypto MU_MESSAGE_SECURITY_MODE_SIGN_AND_ENCRYPT sample_keys out' 64 =
       (Inr (\<lparr>ci_mode = 3, ci_secure_channel_id = 7, ci_token_id = 1, ci_sequence_number = 52, ci_request_id = 9,
              ci_message_type = [0x4D, 0x53, 0x47]\<rparr>, 24, 1), chunk) \<and> slice 24 1 chunk = [5]"
    by simp
  with w show ?thesis by blast
qed

text \<open>
  C17.  Nothing unauthenticated is accepted.  When a chunk from the network is opened, its size field
  is within the received bytes, the body lies between the sequence header and the MAC, and the last
  32 bytes of the chunk are the HMAC, under the channel's signing key, of everything before them; the
  clear header and the bytes behind the chunk are unchanged.
\<close>

theorem sym_chunk_authentic:
  assumes "mu_sym_chunk_unwrap crypto mode keys chunk n = (Inr (info, off, len), chunk')"
    and "hmac_length crypto" "decrypts_keep_length crypto" "n \<le> length chunk"
    and "M = unat (get_u32 (slice 4 4 chunk))"
  shows "off = 24 \<and> off + len + MU_SYM_SIG_LEN \<le> M \<and> M \<le> n \<and>
    hmac_sha256 crypto (signing_key keys) (take (M - 32) chunk') = Inr (slice (M - 32) 32 chunk') \<and>
    length chunk' = length chunk \<and> take 16 chunk' = take 16 chunk \<and> drop M chunk' = drop M chunk \<and>
    mode \<in> {MU_MESSAGE_SECURITY_MODE_SIGN, MU_MESSAGE_SECURITY_MODE_SIGN_AND_ENCRYPT} \<and>
    ci_sequence_number info = get_u32 (slice 16 4 chunk') \<and> ci_request_id info = get_u32 (slice 20 4 chunk')"
proof -
  note u = unwrap_Inr [OF assms]
  obtain info0 where v: "sym_verify crypto mode keys chunk' M info0 = Inr (info, off, len)" using u(7) by blast
  have "M \<le> length chunk'" using u(1,3) assms(4) by simp
  then show ?thesis using u(1-6) sym_verify_Inr [OF v assms(2)] by simp
qed

theorem sym_chunk_authentic_witness:
  "\<exists>info off len c'. mu_sym_chunk_unwrap sample_crypto MU_MESSAGE_SECURITY_MODE_SIGN sample_keys
      (sym_header [0x4D, 0x53, 0x47] 57 7 1 52 9 @ [3] @ replicate 32 0) 57 = (Inr (info, off, len), c') \<and>
    off = 24 \<and> len \<le> 1"
proof -
  let ?c = "sym_header [0x4D, 0x53, 0x47] 57 7 1 52 9 @ [3] @ replicate 32 0"
  have f: "get_u32 (slice 4 4 ?c) = 57"
    using sym_header_fields(2) [of "[0x4D, 0x53, 0x47]" 57 7 1 52 9] by (simp add: slice_append1)
  obtain info off len c' where w: "mu_sym_chunk_unwrap sample_crypto MU_MESSAGE_SECURITY_MODE_SIGN sample_keys ?c 57 =
      (Inr (info, off, len), c')"
    using f by (simp add: mu_sym_chunk_unwrap_def sym_verify_def sym_keys_zero_def sample_hmac_def
        mu_secure_memeq_iff)
  from sym_chunk_authentic [OF w] sample_crypto_laws w f show ?thesis by simp
qed

text \<open>
  C18.  Round trip and nonce freshness of the authenticated-encryption form: the chunk is opened by the
  same keys and the same last sequence number, and two chunks of a key set use the same nonce only if
  they carry the same token and follow the same sequence number.
\<close>

theorem aead_chunk_roundtrip:
  assumes "mu_sym_chunk_wrap_aead crypto keys mt scid tok sq lsq req body out out_cap = (Inr n, out')"
    and "3 \<le> length mt" "out_cap \<le> length out" "out_cap < 2 ^ 32"
    and "chacha20_poly1305_decrypt crypto = Some d" "aead_inverse crypto" "length (sk_iv keys) = 16"
  shows "(\<exists>chunk. mu_sym_chunk_unwrap_aead crypto keys out' n lsq =
      (Inr (\<lparr>ci_mode = MU_MESSAGE_SECURITY_MODE_SIGN_AND_ENCRYPT, ci_secure_channel_id = scid, ci_token_id = tok,
             ci_sequence_number = sq, ci_request_id = req, ci_message_type = take 3 mt\<rparr>, 24, length body), chunk) \<and>
      slice 24 (length body) chunk = body) \<and>
    (\<forall>t s. aead_build_iv (sk_iv keys) t s = aead_build_iv (sk_iv keys) tok lsq \<longrightarrow> t = tok \<and> s = lsq)"
  using aead_roundtrip(1) [OF assms(1-6)] aead_iv_inject [of "sk_iv keys"] assms(7) by simp

theorem aead_chunk_roundtrip_witness:
  "\<exists>out' chunk. mu_sym_chunk_wrap_aead sample_crypto sample_keys [0x4D, 0x53, 0x47] 7 1 52 51 9 [1, 2] (replicate 42 0) 42 =
       (Inr 42, out') \<and>
     mu_sym_chunk_unwrap_aead sample_crypto sample_keys out' 42 51 =
       (Inr (\<lparr>ci_mode = 3, ci_secure_channel_id = 7, ci_token_id = 1, ci_sequence_number = 52, ci_request_id = 9,
              ci_message_type = [0x4D, 0x53, 0x47]\<rparr>, 24, 2), chunk) \<and> slice 24 2 chunk = [1, 2]"
proof -
  obtain out' where w: "mu_sym_chunk_wrap_aead sample_crypto sample_keys [0x4D, 0x53, 0x47] 7 1 52 51 9 [1, 2]
      (replicate 42 0) 42 = (Inr 42, out')"
    using write_plain_fits [of "[0x4D, 0x53, 0x47]" "[1, 2]" 42 "replicate 42 0" 7 1 42 52 9]
    by (simp add: mu_sym_chunk_wrap_aead_def)
  have "chacha20_poly1305_decrypt sample_crypto = Some (\<lambda>k n a x t. Inr x)" "length (sk_iv sample_keys) = 16"
    by (simp_all add: sym_keys_zero_def)
  from aead_chunk_roundtrip [OF w _ _ _ this(1) sample_crypto_laws(4) this(2)] w show ?thesis
    by simp (simp add: numeral_2_eq_2)
qed

text \<open>
  Key derivation of a channel.  For every policy the keys are consecutive pieces of the P-SHA256
  expansion, of the policy's lengths, zero-padded to the fixed arrays; no policy overflows an array or
  reaches the error branch for too much material.
\<close>

lemma sym_keys_derived:
  assumes "hmac_computes (hmac_sha256 crypto) h" "length seed \<le> MU_KDF_MAX_SEED"
    and "s = mu_security_policy_signature_key_length policy" "e = mu_security_policy_encryption_key_length policy"
    and "i = mu_security_policy_encryption_block_size policy" "material = P_hash h secret seed (s + e + i)"
  shows "\<exists>keys. mu_sym_keys_derive crypto policy (Some secret) (Some seed) = (MU_STATUS_GOOD, keys) \<and>
    take s (signing_key keys) @ take e (encrypting_key keys) @ take i (sk_iv keys) = material \<and>
    length (signing_key keys) = 32 \<and> length (encrypting_key keys) = 32 \<and> length (sk_iv keys) = 16 \<and>
    sk_policy keys = policy \<and> \<not> cipher_ctx_valid keys"
proof -
  have b: "s \<le> 32" "e \<le> 32" "i \<le> 16" using policy_lengths_bounded(1-3) [of policy] by (simp_all add: assms)
  have l: "length material = s + e + i" using length_P_hash [OF assms(1)] by (simp add: assms)
  have "take s material @ slice s e material @ slice (s + e) i material = material"
    using l take_add [of "s + e" i material] take_add [of s e material] by (simp add: slice_def)
  then show ?thesis
    unfolding sym_keys_derive_eq [OF assms] using b l by (simp add: sym_keys_zero_def)
qed

text \<open>
  C19.  What building a protected chunk writes.  A chunk that fits the capacity is written within its own
  size, header, body, padding and MAC together, whatever the outcome of the adapter; a reported length is
  that size.  A chunk that does not fit is refused as too large, and only the first 16 bytes, without the
  size field, have been written by then.  All other bytes of the buffer are as they were.
\<close>

theorem sym_wrap_within_capacity:
  assumes "mode = MU_MESSAGE_SECURITY_MODE_SIGN \<or> mode = MU_MESSAGE_SECURITY_MODE_SIGN_AND_ENCRYPT"
    and "3 \<le> length mt" "16 \<le> length out" "out_cap \<le> length out" "hmac_length crypto" "ciphers_inverse crypto"
    and "mu_sym_chunk_wrap crypto mode keys mt scid tok sq req body out out_cap = (res, out')"
    and "T = sym_total mode body"
  shows "length out' = length out \<and>
    (if T > out_cap then res = Inl MU_STATUS_BAD_RESPONSETOOLARGE \<and> slice 4 4 out' = slice 4 4 out \<and> drop 16 out' = drop 16 out
     else drop T out' = drop T out \<and> (\<forall>n. res = Inr n \<longrightarrow> n = T))"
proof (cases "T > out_cap")
  case True
  have o': "(res, out') = (Inl MU_STATUS_BAD_RESPONSETOOLARGE, write_header out mt scid tok)"
    using assms(1)
  proof
    assume m: "mode = MU_MESSAGE_SECURITY_MODE_SIGN"
    have "T = 16 + (8 + length body) + 32" by (simp add: assms(8) m sym_total_def sym_signed_def)
    from wrap_sign [OF assms(2,4) this, of crypto keys] show ?thesis using assms(7) True by (simp add: m)
  next
    assume m: "mode = MU_MESSAGE_SECURITY_MODE_SIGN_AND_ENCRYPT"
    have "T = 16 + (8 + length body + 1 + 32 + sym_pad (length body))" by (simp add: assms(8) m sym_total_def sym_signed_def)
    from wrap_encrypt [OF assms(2,4) sym_pad_def this refl, of crypto keys] show ?thesis using assms(7) True by (simp add: m)
  qed
  have "slice 4 4 (write_header out mt scid tok) = slice 4 4 out"
    using assms(2,3) by (simp add: write_header_def put_at_def slice_def min_def drop_take)
  then show ?thesis using o' assms(2,3) True by (simp add: write_header_def)
next
  case False
  then show ?thesis
    using assms(1) wrap_frame_sign [OF _ assms(2,4,5) _ refl] wrap_frame_encrypt [OF _ assms(2,4,5,6) _ refl] assms(7,8) by auto
qed

theorem sym_wrap_within_capacity_witness:
  "\<exists>out'. mu_sym_chunk_wrap sample_crypto MU_MESSAGE_SECURITY_MODE_SIGN_AND_ENCRYPT sample_keys
      [0x4D, 0x53, 0x47] 7 1 52 9 [5] (replicate 80 7) 64 = (Inr 64, out') \<and> length out' = 80 \<and> drop 64 out' = replicate 16 7"
proof -
  have "\<exists>out'. mu_sym_chunk_wrap sample_crypto MU_MESSAGE_SECURITY_MODE_SIGN_AND_ENCRYPT sample_keys
      [0x4D, 0x53, 0x47] 7 1 52 9 [5] (replicate 80 7) 64 = (Inr 64, out')"
    by (rule sample_wrap [of "[0x4D, 0x53, 0x47]" 64 "replicate 80 7" 6 "[5]" 64 7 1 52 9]) simp_all
  then obtain out' where w: "mu_sym_chunk_wrap sample_crypto MU_MESSAGE_SECURITY_MODE_SIGN_AND_ENCRYPT sample_keys
      [0x4D, 0x53, 0x47] 7 1 52 9 [5] (replicate 80 7) 64 = (Inr 64, out')" by (rule exE)
  have h: "64 = sym_total MU_MESSAGE_SECURITY_MODE_SIGN_AND_ENCRYPT [5]" "3 \<le> length [0x4D, 0x53, 0x47 :: opcua_byte_t]"
    "16 \<le> length (replicate 80 (7 :: opcua_byte_t))" "64 \<le> length (replicate 80 (7 :: opcua_byte_t))"
    by (simp_all add: sym_total_def sym_signed_def sym_pad_def)
  from sym_wrap_within_capacity [OF disjI2 [OF refl] h(2-4) sample_crypto_laws(1,2) w h(1)]
  have "length out' = 80 \<and> drop 64 out' = replicate 16 7" by simp
  with w show ?thesis by blast
qed

end
