(* ===== verification/Mu_Certificate.thy ===== *)
theory Mu_Certificate
  imports Mu_Strings Mu_Sym_Chunk
begin

unbundle bit_operations_syntax

text \<open>
  Certificates and the trust list: \<^verbatim>\<open>src/cu/core_2022_server/security/certificate.c\<close>,
  \<^verbatim>\<open>trustlist.c\<close> and \<^verbatim>\<open>ecc.c\<close>, with the asymmetric callbacks of the crypto adapter of
  \<^verbatim>\<open>include/muc_opcua/platform.h\<close> as a record of parameters.

  A certificate handed over as a pointer and a length is an optional byte list.  A callback that has
  an in-out length receives the capacity the code puts there and returns the bytes it produced.  A
  callback the code calls without a null test is looked up with \<^const>\<open>the\<close>.
\<close>

section \<open>The asymmetric callbacks\<close>

abbreviation (input) MU_THUMBPRINT_LENGTH :: nat where "MU_THUMBPRINT_LENGTH \<equiv> 20"
abbreviation (input) MU_ECC_SIGNATURE_LENGTH :: nat where "MU_ECC_SIGNATURE_LENGTH \<equiv> 64"
abbreviation (input) MU_ECC_MAX_PUBKEY_LENGTH :: nat where "MU_ECC_MAX_PUBKEY_LENGTH \<equiv> 64"
abbreviation (input) MU_ECC_NISTP256_DERIVED_KEY_LENGTH :: nat where "MU_ECC_NISTP256_DERIVED_KEY_LENGTH \<equiv> 64"
abbreviation (input) MU_STATUS_BAD_CERTIFICATEURIINVALID :: opcua_statuscode_t where
  "MU_STATUS_BAD_CERTIFICATEURIINVALID \<equiv> 0x80170000"

type_synonym sign_fn = "bytes \<Rightarrow> nat \<Rightarrow> opcua_statuscode_t + bytes"
type_synonym verify_fn = "bytes \<Rightarrow> bytes \<Rightarrow> bytes \<Rightarrow> opcua_statuscode_t"
type_synonym decrypt_fn = "bytes \<Rightarrow> nat \<Rightarrow> opcua_statuscode_t + bytes"
type_synonym encrypt_fn = "bytes \<Rightarrow> bytes \<Rightarrow> nat \<Rightarrow> opcua_statuscode_t + bytes"

record mu_asym_adapter =
  rsa_sha256_sign :: "sign_fn option"
  rsa_sha256_verify :: "verify_fn option"
  rsa_oaep_decrypt :: decrypt_fn
  rsa_oaep_encrypt :: encrypt_fn
  rsa_pss_sha256_sign :: "sign_fn option"
  rsa_pss_sha256_verify :: "verify_fn option"
  rsa_oaep_sha256_decrypt :: decrypt_fn
  rsa_oaep_sha256_encrypt :: encrypt_fn
  get_own_certificate :: "opcua_statuscode_t + bytes"
  get_certificate_key_bits :: "(bytes \<Rightarrow> opcua_statuscode_t + nat) option"
  get_certificate_thumbprint :: "(bytes \<Rightarrow> opcua_statuscode_t + bytes) option"
  verify_certificate_validity :: "(bytes \<Rightarrow> opcua_statuscode_t) option"
  verify_certificate_application_uri :: "(bytes \<Rightarrow> bytes \<Rightarrow> opcua_statuscode_t) option"
  ecc_sign :: "(mu_ecc_curve \<Rightarrow> sign_fn) option"
  ecc_verify :: "(mu_ecc_curve \<Rightarrow> verify_fn) option"
  get_own_ecc_certificate :: "(mu_ecc_curve \<Rightarrow> opcua_statuscode_t + bytes) option"

section \<open>Certificates\<close>

text \<open>A pointer with a positive length.\<close>

definition present :: "bytes option \<Rightarrow> bool" where
  "present d \<longleftrightarrow> (case d of None \<Rightarrow> False | Some b \<Rightarrow> length b \<noteq> 0)"

definition mu_certificate_thumbprint :: "mu_asym_adapter option \<Rightarrow> bytes option \<Rightarrow> opcua_statuscode_t + bytes" where
  "mu_certificate_thumbprint crypto certificate =
    (case crypto of
       None \<Rightarrow> Inl MU_STATUS_BAD_INTERNALERROR
     | Some c \<Rightarrow> (case get_certificate_thumbprint c of
         None \<Rightarrow> Inl MU_STATUS_BAD_INTERNALERROR
       | Some thumb \<Rightarrow>
           if \<not> present certificate then Inl MU_STATUS_BAD_INTERNALERROR else thumb (the certificate)))"

abbreviation (input) MU_B256S256_MIN_ASYMMETRIC_KEY_BITS :: nat where "MU_B256S256_MIN_ASYMMETRIC_KEY_BITS \<equiv> 2048"
abbreviation (input) MU_B256S256_MAX_ASYMMETRIC_KEY_BITS :: nat where "MU_B256S256_MAX_ASYMMETRIC_KEY_BITS \<equiv> 4096"

definition mu_certificate_validate ::
  "mu_asym_adapter option \<Rightarrow> mu_security_policy_id \<Rightarrow> bytes option \<Rightarrow> opcua_statuscode_t" where
  "mu_certificate_validate crypto policy certificate =
    (if policy = MU_SECURITY_POLICY_NONE_ID then MU_STATUS_GOOD
     else
       let family = mu_security_policy_asym_family policy in
       if family \<noteq> MU_ASYM_FAMILY_RSA \<and> family \<noteq> MU_ASYM_FAMILY_ECC then MU_STATUS_BAD_SECURITYPOLICYREJECTED
       else (case crypto of
         None \<Rightarrow> MU_STATUS_BAD_INTERNALERROR
       | Some c \<Rightarrow> (case get_certificate_key_bits c of
           None \<Rightarrow> MU_STATUS_BAD_INTERNALERROR
         | Some key_bits \<Rightarrow>
             if \<not> present certificate then MU_STATUS_BAD_CERTIFICATEINVALID
             else (case key_bits (the certificate) of
               Inl _ \<Rightarrow> MU_STATUS_BAD_CERTIFICATEINVALID
             | Inr bits \<Rightarrow>
                 if family = MU_ASYM_FAMILY_RSA \<and>
                    (bits < MU_B256S256_MIN_ASYMMETRIC_KEY_BITS \<or> bits > MU_B256S256_MAX_ASYMMETRIC_KEY_BITS)
                 then MU_STATUS_BAD_SECURITYCHECKSFAILED
                 else (case verify_certificate_validity c of
                   None \<Rightarrow> MU_STATUS_BAD_CERTIFICATEINVALID
                 | Some validity \<Rightarrow>
                     let vs = validity (the certificate)
                     in if vs \<noteq> MU_STATUS_GOOD then vs else MU_STATUS_GOOD)))))"

definition mu_asym_signature_sign ::
  "mu_asym_adapter option \<Rightarrow> mu_security_policy_id \<Rightarrow> bytes \<Rightarrow> nat \<Rightarrow> opcua_statuscode_t + bytes" where
  "mu_asym_signature_sign crypto policy data capacity =
    (case crypto of
       None \<Rightarrow> Inl MU_STATUS_BAD_SECURITYCHECKSFAILED
     | Some c \<Rightarrow>
       (case (if mu_security_policy_uses_pss policy then rsa_pss_sha256_sign c else rsa_sha256_sign c) of
          None \<Rightarrow> Inl MU_STATUS_BAD_SECURITYCHECKSFAILED
        | Some sign \<Rightarrow> sign data capacity))"

definition mu_asym_signature_verify ::
  "mu_asym_adapter option \<Rightarrow> mu_security_policy_id \<Rightarrow> bytes \<Rightarrow> bytes \<Rightarrow> bytes \<Rightarrow> opcua_statuscode_t" where
  "mu_asym_signature_verify crypto policy certificate data signature =
    (case crypto of
       None \<Rightarrow> MU_STATUS_BAD_SECURITYCHECKSFAILED
     | Some c \<Rightarrow>
       (case (if mu_security_policy_uses_pss policy then rsa_pss_sha256_verify c else rsa_sha256_verify c) of
          None \<Rightarrow> MU_STATUS_BAD_SECURITYCHECKSFAILED
        | Some verify \<Rightarrow> verify certificate data signature))"

definition mu_certificate_validate_application_uri ::
  "mu_asym_adapter option \<Rightarrow> mu_security_policy_id \<Rightarrow> bytes option \<Rightarrow> bytes option \<Rightarrow> opcua_statuscode_t" where
  "mu_certificate_validate_application_uri crypto policy certificate application_uri =
    (if policy = MU_SECURITY_POLICY_NONE_ID \<or> policy = MU_SECURITY_POLICY_INVALID_ID then MU_STATUS_GOOD
     else if \<not> present certificate then MU_STATUS_GOOD
     else if \<not> present application_uri then MU_STATUS_GOOD
     else (case crypto of
       None \<Rightarrow> MU_STATUS_GOOD
     | Some c \<Rightarrow> (case verify_certificate_application_uri c of
         None \<Rightarrow> MU_STATUS_GOOD
       | Some verify \<Rightarrow>
           if verify (the certificate) (the application_uri) = MU_STATUS_GOOD then MU_STATUS_GOOD
           else MU_STATUS_BAD_CERTIFICATEURIINVALID)))"

section \<open>The trust list\<close>

type_synonym mu_trust_list = "bytes list"

fun memcmp_loop :: "opcua_byte_t \<Rightarrow> bytes \<Rightarrow> bytes \<Rightarrow> nat \<Rightarrow> nat \<Rightarrow> opcua_byte_t" where
  "memcmp_loop result a b i 0 = result"
| "memcmp_loop result a b i (Suc n) = memcmp_loop (result OR (a ! i XOR b ! i)) a b (Suc i) n"

definition mu_constant_time_memcmp :: "bytes \<Rightarrow> bytes \<Rightarrow> nat \<Rightarrow> opcua_byte_t" where
  "mu_constant_time_memcmp a b len = memcmp_loop 0 a b 0 len"

definition mu_trust_list_match :: "mu_trust_list option \<Rightarrow> bytes option \<Rightarrow> opcua_statuscode_t" where
  "mu_trust_list_match trust_list cert_data =
    (case trust_list of
       None \<Rightarrow> MU_STATUS_BAD_SECURITYCHECKSFAILED
     | Some certificates \<Rightarrow>
       if certificates = [] then MU_STATUS_BAD_SECURITYCHECKSFAILED
       else if \<not> present cert_data then MU_STATUS_BAD_SECURITYCHECKSFAILED
       else if list_ex (\<lambda>c. length c = length (the cert_data) \<and>
                 mu_constant_time_memcmp c (the cert_data) (length (the cert_data)) = 0) certificates
       then MU_STATUS_GOOD
       else MU_STATUS_BAD_SECURITYCHECKSFAILED)"

section \<open>Keys from an elliptic-curve exchange\<close>

definition build_salt :: "opcua_uint16_t \<Rightarrow> bytes \<Rightarrow> bytes \<Rightarrow> bytes \<Rightarrow> bytes" where
  "build_salt L label n1 n2 = ucast (L AND 0xFF) # ucast (drop_bit 8 L AND 0xFF) # label @ n1 @ n2"

definition mu_ecc_derive_channel_keys ::
  "mu_crypto_adapter \<Rightarrow> mu_security_policy_id \<Rightarrow> bytes \<Rightarrow> bool \<Rightarrow> bytes \<Rightarrow> bytes \<Rightarrow> opcua_statuscode_t \<times> mu_sym_keys" where
  "mu_ecc_derive_channel_keys crypto policy shared is_server_direction server_nonce client_nonce =
    (let out_keys = sym_keys_zero\<lparr>sk_policy := policy\<rparr>;
         sig_key_len = mu_security_policy_signature_key_length policy;
         enc_key_len = mu_security_policy_encryption_key_length policy;
         iv_len = mu_security_policy_iv_length policy;
         L = sig_key_len + enc_key_len + iv_len
     in
     if sig_key_len > 32 \<or> enc_key_len > 32 \<or> iv_len > 16 \<or> L > MU_ECC_NISTP256_DERIVED_KEY_LENGTH \<or> L > 0xFFFF
     then (MU_STATUS_BAD_INTERNALERROR, out_keys)
     else if length server_nonce > MU_ECC_MAX_PUBKEY_LENGTH \<or> length client_nonce > MU_ECC_MAX_PUBKEY_LENGTH
     then (MU_STATUS_BAD_INTERNALERROR, out_keys)
     else
       let label = (if is_server_direction then cstr ''opcua-server'' else cstr ''opcua-client'');
           n1 = (if is_server_direction then server_nonce else client_nonce);
           n2 = (if is_server_direction then client_nonce else server_nonce);
           salt = build_salt (of_nat L) label n1 n2
       in (case mu_hkdf_sha256 (hmac_sha256 crypto) (Some salt) (Some shared) salt L of
             Inl s \<Rightarrow> (s, out_keys)
           | Inr material \<Rightarrow>
             (MU_STATUS_GOOD, out_keys\<lparr>
               signing_key := put_at 0 (take sig_key_len material) (signing_key out_keys),
               encrypting_key := put_at 0 (slice sig_key_len enc_key_len material) (encrypting_key out_keys),
               sk_iv := put_at 0 (slice (sig_key_len + enc_key_len) iv_len material) (sk_iv out_keys)\<rparr>)))"

section \<open>Facts\<close>

text \<open>The same loop as that of \<^const>\<open>mu_secure_memeq\<close>.\<close>

lemma memcmp_loop_memeq: "memcmp_loop d a b i n = memeq_loop d a b i n"
  by (induction n arbitrary: d i) simp_all

lemma constant_time_memcmp_iff:
  "n \<le> length a \<Longrightarrow> n \<le> length b \<Longrightarrow> mu_constant_time_memcmp a b n = 0 \<longleftrightarrow> take n a = take n b"
  by (auto simp: mu_constant_time_memcmp_def memcmp_loop_memeq memeq_loop_0 list_eq_iff_nth_eq)

text \<open>The list trusts exactly its members.\<close>

lemma trust_list_match_iff:
  "mu_trust_list_match (Some ts) (Some c) = MU_STATUS_GOOD \<longleftrightarrow> c \<noteq> [] \<and> c \<in> set ts"
proof -
  have "(length t = length c \<and> mu_constant_time_memcmp t c (length c) = 0) = (t = c)" for t
    using constant_time_memcmp_iff [of "length c" t c] by auto
  then show ?thesis by (auto simp: mu_trust_list_match_def present_def list_ex_iff)
qed

lemma certificate_validD:
  assumes "mu_certificate_validate (Some c) p cert = MU_STATUS_GOOD" "p \<noteq> MU_SECURITY_POLICY_NONE_ID"
  obtains d key_bits bits validity where "cert = Some d" "d \<noteq> []" "get_certificate_key_bits c = Some key_bits" "key_bits d = Inr bits"
    "mu_security_policy_asym_family p = MU_ASYM_FAMILY_RSA \<Longrightarrow> 2048 \<le> bits \<and> bits \<le> 4096"
    "verify_certificate_validity c = Some validity" "validity d = MU_STATUS_GOOD"
  using assms
  by (auto simp: mu_certificate_validate_def present_def Let_def split: if_splits option.splits sum.splits)

end
