(* ===== verification/Mu_Asym_Chunk.thy ===== *)
theory Mu_Asym_Chunk
  imports Mu_Certificate
begin

unbundle bit_operations_syntax

text \<open>
  Protection of OPN chunks: \<^verbatim>\<open>src/cu/core_2022_server/security/asym_chunk/wrap.c\<close> and
  \<^verbatim>\<open>unwrap.c\<close> with \<^verbatim>\<open>src/security/asym_chunk.h\<close> and \<^verbatim>\<open>asym_chunk/common.h\<close>.  A chunk is framed
  in the clear (policy None), signed and encrypted block by block (the RSA policies) or signed only
  (the elliptic-curve policies).

  The plaintext and the signature live in scratch arrays that the code wipes before it returns; they
  are values of the model.  An operation that fails yields its status alone, one that succeeds yields
  the output buffer updated.
\<close>

section \<open>Parameters and chunk information\<close>

abbreviation (input) MU_OAEP_SHA1_OVERHEAD :: nat where "MU_OAEP_SHA1_OVERHEAD \<equiv> 42"
abbreviation (input) MU_ASYM_SCRATCH :: nat where "MU_ASYM_SCRATCH \<equiv> 512"
abbreviation (input) MU_ASYM_SIGNED_INPUT_MAX :: nat where "MU_ASYM_SIGNED_INPUT_MAX \<equiv> 4096"
abbreviation (input) MU_ASYM_MAX_PLAINTEXT :: nat where "MU_ASYM_MAX_PLAINTEXT \<equiv> 2048"

record mu_asym_wrap_params =
  wp_crypto :: "mu_asym_adapter option"
  wp_policy :: mu_security_policy_id
  wp_secure_channel_id :: opcua_uint32_t
  wp_sequence_number :: opcua_uint32_t
  wp_request_id :: opcua_uint32_t
  wp_receiver_cert :: "bytes option"
  wp_body :: bytes
  wp_out :: "bytes option"
  wp_out_cap :: nat

record mu_asym_chunk_info =
  ai_policy :: mu_security_policy_id
  ai_secure_channel_id :: opcua_uint32_t
  ai_sequence_number :: opcua_uint32_t
  ai_request_id :: opcua_uint32_t
  ai_sender_cert :: "bytes option"

record mu_asym_unwrap_params =
  up_crypto :: "mu_asym_adapter option"
  up_chunk :: "bytes option"
  up_chunk_len :: nat
  up_out_body :: "bytes option"
  up_out_cap :: nat
  up_scratch_len :: nat

definition key_bytes :: "mu_asym_adapter \<Rightarrow> bytes \<Rightarrow> opcua_statuscode_t + nat" where
  "key_bytes crypto cert =
    (case the (get_certificate_key_bits crypto) cert of
       Inl _ \<Rightarrow> Inl MU_STATUS_BAD_CERTIFICATEINVALID
     | Inr bits \<Rightarrow>
       if bits = 0 then Inl MU_STATUS_BAD_CERTIFICATEINVALID
       else if bits div 8 \<le> MU_OAEP_SHA1_OVERHEAD then Inl MU_STATUS_BAD_CERTIFICATEINVALID
       else Inr (bits div 8))"

section \<open>Wrapping\<close>

definition cert_field :: "bytes option \<Rightarrow> mu_bytestring" where
  "cert_field d = \<lparr>str_length = (case d of None \<Rightarrow> -1 | Some b \<Rightarrow> mu_safe_int32_from_size_t (length b)), str_data = d\<rparr>"

text \<open>The first four bytes are stored without a look at the capacity.\<close>

definition put_message_type :: wr where
  "put_message_type w =
    (MU_STATUS_GOOD, w\<lparr>wr_buffer := map_option (put_at 0 (cstr ''OPNF'')) (wr_buffer w), wr_position := 4\<rparr>)"

definition asym_write_header ::
  "mu_security_policy_id \<Rightarrow> opcua_uint32_t \<Rightarrow> bytes option \<Rightarrow> bytes option \<Rightarrow> wr" where
  "asym_write_header policy scid sender_cert receiver_thumbprint =
    (case mu_security_policy_uri policy of
       None \<Rightarrow> wr_return MU_STATUS_BAD_SECURITYPOLICYREJECTED
     | Some uri \<Rightarrow>
       wr_seq put_message_type
       (wr_seq (mu_binary_write_uint32 0)
       (wr_seq (mu_binary_write_uint32 scid)
       (wr_seq (mu_binary_write_string (cert_field (Some uri)))
       (wr_seq (mu_binary_write_bytestring (cert_field sender_cert))
         (mu_binary_write_bytestring (cert_field receiver_thumbprint)))))))"

definition patch_message_size :: "nat \<Rightarrow> bytes \<Rightarrow> bytes" where
  "patch_message_size tot out = put_at 4 (mu_binary_le_put_u32 (of_nat tot)) out"

definition wrap_none ::
  "opcua_uint32_t \<Rightarrow> opcua_uint32_t \<Rightarrow> opcua_uint32_t \<Rightarrow> bytes \<Rightarrow> bytes \<Rightarrow> nat \<Rightarrow>
   opcua_statuscode_t + nat \<times> bytes" where
  "wrap_none scid sq rid body out out_cap =
    (case wr_seq (asym_write_header MU_SECURITY_POLICY_NONE_ID scid None None)
            (wr_seq (mu_binary_write_uint32 sq) (mu_binary_write_uint32 rid))
            (mu_binary_writer_init (Some out) out_cap) of
       (s, w) \<Rightarrow>
         if s \<noteq> MU_STATUS_GOOD then Inl s
         else (case mu_checked_memcpy_off (the (wr_buffer w)) out_cap (wr_position w) body (length body) of
           None \<Rightarrow> Inl MU_STATUS_BAD_RESPONSETOOLARGE
         | Some out \<Rightarrow>
           let tot = wr_position w + length body in Inr (tot, patch_message_size tot out)))"

definition validate_wrap_policy ::
  "mu_asym_adapter option \<Rightarrow> mu_security_policy_id \<Rightarrow> bytes option \<Rightarrow> opcua_statuscode_t" where
  "validate_wrap_policy crypto policy receiver_cert =
    (if policy \<noteq> MU_SECURITY_POLICY_BASIC256SHA256_ID \<and> policy \<noteq> MU_SECURITY_POLICY_AES128_SHA256_RSAOAEP_ID \<and>
        policy \<noteq> MU_SECURITY_POLICY_AES256_SHA256_RSAPSS_ID
     then MU_STATUS_BAD_SECURITYPOLICYREJECTED
     else if crypto = None \<or> \<not> present receiver_cert then MU_STATUS_BAD_INTERNALERROR
     else MU_STATUS_GOOD)"

text \<open>The plaintext block of a key, with the wrap-around of \<^verbatim>\<open>size_t\<close> in the subtraction.\<close>

definition plain_block_of :: "mu_security_policy_id \<Rightarrow> nat \<Rightarrow> nat" where
  "plain_block_of policy recv_key_bytes =
    (if policy = MU_SECURITY_POLICY_AES256_SHA256_RSAPSS_ID
     then (recv_key_bytes + (SIZE_MAX + 1) - 66) mod (SIZE_MAX + 1)
     else recv_key_bytes - MU_OAEP_SHA1_OVERHEAD)"

text \<open>Returns the header length, the signature length, the two block sizes and the buffer.\<close>

definition build_wrap_header ::
  "mu_asym_adapter \<Rightarrow> mu_security_policy_id \<Rightarrow> opcua_uint32_t \<Rightarrow> bytes \<Rightarrow> bytes \<Rightarrow> nat \<Rightarrow>
   opcua_statuscode_t + nat \<times> nat \<times> nat \<times> nat \<times> bytes" where
  "build_wrap_header crypto policy scid receiver_cert out out_cap =
    (case get_own_certificate crypto of
       Inl s \<Rightarrow> Inl s
     | Inr sender_cert \<Rightarrow> (case key_bytes crypto sender_cert of
         Inl s \<Rightarrow> Inl s
       | Inr sig_len \<Rightarrow> (case key_bytes crypto receiver_cert of
           Inl s \<Rightarrow> Inl s
         | Inr recv_key_bytes \<Rightarrow> (case mu_certificate_thumbprint (Some crypto) (Some receiver_cert) of
             Inl s \<Rightarrow> Inl s
           | Inr thumb \<Rightarrow>
             (case asym_write_header policy scid (Some sender_cert) (Some thumb) (mu_binary_writer_init (Some out) out_cap) of
                (s, w) \<Rightarrow>
                  if s \<noteq> MU_STATUS_GOOD then Inl s
                  else Inr (wr_position w, sig_len, plain_block_of policy recv_key_bytes, recv_key_bytes,
                            the (wr_buffer w)))))))"

text \<open>Returns the lengths before the signature, of the plaintext and of the ciphertext, and the total.\<close>

definition compute_wrap_sizes ::
  "nat \<Rightarrow> nat \<Rightarrow> nat \<Rightarrow> nat \<Rightarrow> nat \<Rightarrow> nat \<Rightarrow> opcua_statuscode_t + nat \<times> nat \<times> nat \<times> nat" where
  "compute_wrap_sizes body_len sig_len plain_block cipher_block hdr_len out_cap =
    (let seqbody_len = 8 + body_len;
         base = seqbody_len + 1 + sig_len;
         pad_count = (plain_block - base mod plain_block) mod plain_block;
         enc_len = base + pad_count;
         presig_len = seqbody_len + 1 + pad_count;
         cipher_len = (enc_len div plain_block) * cipher_block;
         tot = hdr_len + cipher_len
     in
     if enc_len > MU_ASYM_MAX_PLAINTEXT then Inl MU_STATUS_BAD_REQUESTTOOLARGE
     else if hdr_len + presig_len > MU_ASYM_SIGNED_INPUT_MAX then Inl MU_STATUS_BAD_REQUESTTOOLARGE
     else if tot > out_cap then Inl MU_STATUS_BAD_RESPONSETOOLARGE
     else Inr (presig_len, enc_len, cipher_len, tot))"

definition rsa_sign :: "mu_asym_adapter \<Rightarrow> mu_security_policy_id \<Rightarrow> sign_fn" where
  "rsa_sign crypto policy =
    the (if policy = MU_SECURITY_POLICY_AES256_SHA256_RSAPSS_ID then rsa_pss_sha256_sign crypto else rsa_sha256_sign crypto)"

definition sign_wrap_payload ::
  "mu_asym_adapter \<Rightarrow> mu_security_policy_id \<Rightarrow> opcua_uint32_t \<Rightarrow> opcua_uint32_t \<Rightarrow> bytes \<Rightarrow> bytes \<Rightarrow> nat \<Rightarrow> nat \<Rightarrow> nat \<Rightarrow>
   opcua_statuscode_t + bytes \<times> bytes" where
  "sign_wrap_payload crypto policy sq rid body out hdr_len presig_len sig_len =
    (let seqbody_len = 8 + length body;
         pad_count = presig_len - seqbody_len - 1;
         presig = mu_binary_le_put_u32 sq @ mu_binary_le_put_u32 rid @ body @
                  of_nat pad_count # replicate pad_count (of_nat pad_count)
     in
     if hdr_len + presig_len > MU_ASYM_SIGNED_INPUT_MAX then Inl MU_STATUS_BAD_INTERNALERROR
     else if sig_len > MU_ASYM_SCRATCH then Inl MU_STATUS_BAD_INTERNALERROR
     else
       let out = put_at hdr_len presig out in
       (case rsa_sign crypto policy (take (hdr_len + presig_len) out) MU_ASYM_SCRATCH of
          Inl s \<Rightarrow> Inl s
        | Inr sig \<Rightarrow>
          if length sig \<noteq> sig_len then Inl MU_STATUS_BAD_INTERNALERROR
          else Inr (presig @ sig, put_at hdr_len (replicate presig_len 0) out)))"

definition rsa_encrypt :: "mu_asym_adapter \<Rightarrow> mu_security_policy_id \<Rightarrow> encrypt_fn" where
  "rsa_encrypt crypto policy =
    (if policy = MU_SECURITY_POLICY_AES256_SHA256_RSAPSS_ID then rsa_oaep_sha256_encrypt crypto else rsa_oaep_encrypt crypto)"

fun encrypt_wrap_loop ::
  "(bytes \<Rightarrow> nat \<Rightarrow> opcua_statuscode_t + bytes) \<Rightarrow> nat \<Rightarrow> nat \<Rightarrow> nat \<Rightarrow> bytes \<Rightarrow> nat \<Rightarrow> bytes \<Rightarrow>
   opcua_statuscode_t + bytes" where
  "encrypt_wrap_loop enc plain_block cipher_block 0 plain pos out = Inr out"
| "encrypt_wrap_loop enc plain_block cipher_block (Suc blocks) plain pos out =
    (case enc (take plain_block plain) cipher_block of
       Inl s \<Rightarrow> Inl s
     | Inr c \<Rightarrow>
       if length c \<noteq> cipher_block then Inl MU_STATUS_BAD_INTERNALERROR
       else encrypt_wrap_loop enc plain_block cipher_block blocks (drop plain_block plain) (pos + cipher_block)
              (put_at pos c out))"

definition encrypt_wrap_blocks ::
  "mu_asym_adapter \<Rightarrow> mu_security_policy_id \<Rightarrow> bytes \<Rightarrow> bytes \<Rightarrow> nat \<Rightarrow> nat \<Rightarrow> nat \<Rightarrow> bytes \<Rightarrow> nat \<Rightarrow>
   opcua_statuscode_t + bytes" where
  "encrypt_wrap_blocks crypto policy receiver_cert plain plain_block cipher_block enc_len out out_offset =
    encrypt_wrap_loop (rsa_encrypt crypto policy receiver_cert) plain_block cipher_block (enc_len div plain_block)
      plain out_offset out"

definition wrap_ecc :: "mu_asym_wrap_params \<Rightarrow> bytes \<Rightarrow> opcua_statuscode_t + nat \<times> bytes" where
  "wrap_ecc p out =
    (case mu_security_policy_ecc_curve (wp_policy p) of
       None \<Rightarrow> Inl MU_STATUS_BAD_SECURITYPOLICYREJECTED
     | Some curve \<Rightarrow> (case wp_crypto p of
         None \<Rightarrow> Inl MU_STATUS_BAD_INTERNALERROR
       | Some crypto \<Rightarrow> (case (ecc_sign crypto, get_own_ecc_certificate crypto) of
           (Some sign, Some own_certificate) \<Rightarrow>
             if \<not> present (wp_receiver_cert p) then Inl MU_STATUS_BAD_INTERNALERROR
             else (case own_certificate curve of
               Inl s \<Rightarrow> Inl s
             | Inr sender_cert \<Rightarrow> (case mu_certificate_thumbprint (Some crypto) (wp_receiver_cert p) of
                 Inl s \<Rightarrow> Inl s
               | Inr thumb \<Rightarrow>
                 (case wr_seq (asym_write_header (wp_policy p) (wp_secure_channel_id p) (Some sender_cert) (Some thumb))
                         (wr_seq (mu_binary_write_uint32 (wp_sequence_number p)) (mu_binary_write_uint32 (wp_request_id p)))
                         (mu_binary_writer_init (Some out) (wp_out_cap p)) of
                    (s, w) \<Rightarrow>
                      if s \<noteq> MU_STATUS_GOOD then Inl s
                      else (case mu_checked_memcpy_off (the (wr_buffer w)) (wp_out_cap p) (wr_position w)
                                   (wp_body p) (length (wp_body p)) of
                        None \<Rightarrow> Inl MU_STATUS_BAD_RESPONSETOOLARGE
                      | Some out \<Rightarrow>
                        let signed_len = wr_position w + length (wp_body p);
                            tot = signed_len + MU_ECC_SIGNATURE_LENGTH
                        in
                        if tot > wp_out_cap p then Inl MU_STATUS_BAD_RESPONSETOOLARGE
                        else
                          let out = patch_message_size tot out in
                          (case sign curve (take signed_len out) MU_ECC_SIGNATURE_LENGTH of
                             Inl s \<Rightarrow> Inl s
                           | Inr sig \<Rightarrow>
                             if length sig \<noteq> MU_ECC_SIGNATURE_LENGTH then Inl MU_STATUS_BAD_INTERNALERROR
                             else Inr (tot, put_at signed_len sig out))))))
         | _ \<Rightarrow> Inl MU_STATUS_BAD_INTERNALERROR)))"

definition wrap_rsa :: "mu_asym_wrap_params \<Rightarrow> bytes \<Rightarrow> opcua_statuscode_t + nat \<times> bytes" where
  "wrap_rsa p out =
    (let s = validate_wrap_policy (wp_crypto p) (wp_policy p) (wp_receiver_cert p) in
     if s \<noteq> MU_STATUS_GOOD then Inl s
     else
       let crypto = the (wp_crypto p); receiver_cert = the (wp_receiver_cert p) in
       (case build_wrap_header crypto (wp_policy p) (wp_secure_channel_id p) receiver_cert out (wp_out_cap p) of
          Inl s \<Rightarrow> Inl s
        | Inr (hdr_len, sig_len, plain_block, cipher_block, out) \<Rightarrow>
          (case compute_wrap_sizes (length (wp_body p)) sig_len plain_block cipher_block hdr_len (wp_out_cap p) of
             Inl s \<Rightarrow> Inl s
           | Inr (presig_len, enc_len, cipher_len, tot) \<Rightarrow>
             (case sign_wrap_payload crypto (wp_policy p) (wp_sequence_number p) (wp_request_id p) (wp_body p)
                     (patch_message_size tot out) hdr_len presig_len sig_len of
                Inl s \<Rightarrow> Inl s
              | Inr (plain, out) \<Rightarrow>
                (case encrypt_wrap_blocks crypto (wp_policy p) receiver_cert plain plain_block cipher_block enc_len out hdr_len of
                   Inl s \<Rightarrow> Inl s
                 | Inr out \<Rightarrow> Inr (tot, out))))))"

definition mu_asym_chunk_wrap :: "mu_asym_wrap_params \<Rightarrow> opcua_statuscode_t + nat \<times> bytes" where
  "mu_asym_chunk_wrap p =
    (case wp_out p of
       None \<Rightarrow> Inl MU_STATUS_BAD_INTERNALERROR
     | Some out \<Rightarrow>
       if wp_policy p = MU_SECURITY_POLICY_NONE_ID then
         wrap_none (wp_secure_channel_id p) (wp_sequence_number p) (wp_request_id p) (wp_body p) out (wp_out_cap p)
       else if mu_security_policy_asym_family (wp_policy p) = MU_ASYM_FAMILY_ECC then wrap_ecc p out
       else wrap_rsa p out)"

section \<open>Unwrapping\<close>

definition rsa_decrypt :: "mu_asym_adapter \<Rightarrow> mu_security_policy_id \<Rightarrow> decrypt_fn" where
  "rsa_decrypt crypto policy =
    (if policy = MU_SECURITY_POLICY_AES256_SHA256_RSAPSS_ID then rsa_oaep_sha256_decrypt crypto else rsa_oaep_decrypt crypto)"

fun decrypt_unwrap_loop :: "decrypt_fn \<Rightarrow> nat \<Rightarrow> nat \<Rightarrow> bytes \<Rightarrow> bytes \<Rightarrow> opcua_statuscode_t + bytes" where
  "decrypt_unwrap_loop dec key_bytes_size 0 cipher plain = Inr plain"
| "decrypt_unwrap_loop dec key_bytes_size (Suc blocks) cipher plain =
    (case dec (take key_bytes_size cipher) (MU_ASYM_MAX_PLAINTEXT - length plain) of
       Inl _ \<Rightarrow> Inl MU_STATUS_BAD_SECURITYCHECKSFAILED
     | Inr out \<Rightarrow> decrypt_unwrap_loop dec key_bytes_size blocks (drop key_bytes_size cipher) (plain @ out))"

definition decrypt_unwrap_blocks ::
  "mu_asym_adapter \<Rightarrow> mu_security_policy_id \<Rightarrow> bytes \<Rightarrow> nat \<Rightarrow> nat \<Rightarrow> nat \<Rightarrow> opcua_statuscode_t + bytes" where
  "decrypt_unwrap_blocks crypto policy chunk hdr_len key_bytes_size cipher_len =
    decrypt_unwrap_loop (rsa_decrypt crypto policy) key_bytes_size (cipher_len div key_bytes_size) (drop hdr_len chunk) []"

definition rsa_verify :: "mu_asym_adapter \<Rightarrow> mu_security_policy_id \<Rightarrow> verify_fn" where
  "rsa_verify crypto policy =
    the (if policy = MU_SECURITY_POLICY_AES256_SHA256_RSAPSS_ID then rsa_pss_sha256_verify crypto else rsa_sha256_verify crypto)"

definition verify_unwrap_signature ::
  "mu_asym_adapter \<Rightarrow> mu_asym_chunk_info \<Rightarrow> bytes \<Rightarrow> nat \<Rightarrow> bytes \<Rightarrow> nat \<Rightarrow> bytes \<Rightarrow> opcua_statuscode_t" where
  "verify_unwrap_signature crypto info chunk hdr_len plain signed_len signature =
    (if hdr_len + signed_len > MU_ASYM_SIGNED_INPUT_MAX then MU_STATUS_BAD_SECURITYCHECKSFAILED
     else if rsa_verify crypto (ai_policy info) (the (ai_sender_cert info)) (take hdr_len chunk @ take signed_len plain) signature
             \<noteq> MU_STATUS_GOOD
     then MU_STATUS_BAD_SECURITYCHECKSFAILED
     else MU_STATUS_GOOD)"

text \<open>Returns the chunk information, the output buffer and the length of the body in it.\<close>

definition extract_unwrap_payload ::
  "bytes \<Rightarrow> nat \<Rightarrow> bytes \<Rightarrow> nat \<Rightarrow> mu_asym_chunk_info \<Rightarrow> opcua_statuscode_t + mu_asym_chunk_info \<times> bytes \<times> nat" where
  "extract_unwrap_payload plain signed_len out_body out_cap info =
    (let pad_count = unat (plain ! (signed_len - 1)) in
     if signed_len < pad_count + 1 + 8 then Inl MU_STATUS_BAD_SECURITYCHECKSFAILED
     else if \<not> list_all (\<lambda>i. unat (plain ! (signed_len - 1 - i)) = pad_count) [1..<Suc pad_count]
     then Inl MU_STATUS_BAD_SECURITYCHECKSFAILED
     else
       let seqbody_len = signed_len - 1 - pad_count;
           body_len = seqbody_len - 8
       in (case mu_checked_memcpy out_body out_cap (drop 8 plain) body_len of
             None \<Rightarrow> Inl MU_STATUS_BAD_RESPONSETOOLARGE
           | Some out_body \<Rightarrow>
             Inr (info\<lparr>ai_sequence_number := mu_binary_le_get_u32 (take 4 plain),
                       ai_request_id := mu_binary_le_get_u32 (slice 4 4 plain)\<rparr>, out_body, body_len)))"

text \<open>The sequence header and the body that follow the security header in the clear.\<close>

definition clear_payload ::
  "bytes \<Rightarrow> nat \<Rightarrow> nat \<Rightarrow> bytes \<Rightarrow> nat \<Rightarrow> mu_asym_chunk_info \<Rightarrow> opcua_statuscode_t + mu_asym_chunk_info \<times> bytes \<times> nat" where
  "clear_payload chunk hdr_len body_end out_body out_cap info =
    (let body_len = body_end - hdr_len - 8 in
     (case mu_checked_memcpy out_body out_cap (drop (hdr_len + 8) chunk) body_len of
        None \<Rightarrow> Inl MU_STATUS_BAD_RESPONSETOOLARGE
      | Some out_body \<Rightarrow>
        Inr (info\<lparr>ai_sequence_number := mu_binary_le_get_u32 (slice hdr_len 4 chunk),
                  ai_request_id := mu_binary_le_get_u32 (slice (hdr_len + 4) 4 chunk)\<rparr>, out_body, body_len)))"

text \<open>The receiver thumbprint of the header names the certificate the chunk is addressed to.\<close>

definition thumbprint_matches :: "mu_bytestring \<Rightarrow> bytes \<Rightarrow> bool" where
  "thumbprint_matches receiver_thumb own_thumb \<longleftrightarrow>
    str_length receiver_thumb = of_nat MU_THUMBPRINT_LENGTH \<and>
    mu_secure_memeq (str_bytes receiver_thumb) own_thumb MU_THUMBPRINT_LENGTH"

definition unwrap_ecc ::
  "mu_asym_adapter \<Rightarrow> mu_asym_chunk_info \<Rightarrow> bytes \<Rightarrow> nat \<Rightarrow> nat \<Rightarrow> mu_bytestring \<Rightarrow> bytes \<Rightarrow> nat \<Rightarrow>
   opcua_statuscode_t + mu_asym_chunk_info \<times> bytes \<times> nat" where
  "unwrap_ecc crypto info chunk hdr_len msg_size receiver_thumb out_body out_cap =
    (case mu_security_policy_ecc_curve (ai_policy info) of
       None \<Rightarrow> Inl MU_STATUS_BAD_SECURITYPOLICYREJECTED
     | Some curve \<Rightarrow> (case (ecc_verify crypto, get_own_ecc_certificate crypto) of
         (Some verify, Some own_certificate) \<Rightarrow>
           let s = mu_certificate_validate (Some crypto) (ai_policy info) (ai_sender_cert info) in
           if s \<noteq> MU_STATUS_GOOD then Inl s
           else (case own_certificate curve of
             Inl s \<Rightarrow> Inl s
           | Inr own_cert \<Rightarrow> (case mu_certificate_thumbprint (Some crypto) (Some own_cert) of
               Inl s \<Rightarrow> Inl s
             | Inr own_thumb \<Rightarrow>
               if \<not> thumbprint_matches receiver_thumb own_thumb then Inl MU_STATUS_BAD_SECURITYCHECKSFAILED
               else if msg_size < hdr_len + 8 + MU_ECC_SIGNATURE_LENGTH then Inl MU_STATUS_BAD_DECODINGERROR
               else
                 let signed_len = msg_size - MU_ECC_SIGNATURE_LENGTH in
                 if verify curve (the (ai_sender_cert info)) (take signed_len chunk)
                      (slice signed_len MU_ECC_SIGNATURE_LENGTH chunk) \<noteq> MU_STATUS_GOOD
                 then Inl MU_STATUS_BAD_SECURITYCHECKSFAILED
                 else clear_payload chunk hdr_len signed_len out_body out_cap info))
       | _ \<Rightarrow> Inl MU_STATUS_BAD_SECURITYPOLICYREJECTED))"

definition unwrap_rsa ::
  "mu_asym_adapter \<Rightarrow> mu_asym_chunk_info \<Rightarrow> bytes \<Rightarrow> nat \<Rightarrow> nat \<Rightarrow> mu_bytestring \<Rightarrow> bytes \<Rightarrow> nat \<Rightarrow>
   opcua_statuscode_t + mu_asym_chunk_info \<times> bytes \<times> nat" where
  "unwrap_rsa crypto info chunk hdr_len msg_size receiver_thumb out_body out_cap =
    (if ai_policy info \<noteq> MU_SECURITY_POLICY_BASIC256SHA256_ID \<and>
        ai_policy info \<noteq> MU_SECURITY_POLICY_AES128_SHA256_RSAOAEP_ID \<and>
        ai_policy info \<noteq> MU_SECURITY_POLICY_AES256_SHA256_RSAPSS_ID
     then Inl MU_STATUS_BAD_SECURITYPOLICYREJECTED
     else
       let s = mu_certificate_validate (Some crypto) (ai_policy info) (ai_sender_cert info) in
       if s \<noteq> MU_STATUS_GOOD then Inl s
       else (case get_own_certificate crypto of
         Inl s \<Rightarrow> Inl s
       | Inr own_cert \<Rightarrow> (case mu_certificate_thumbprint (Some crypto) (Some own_cert) of
           Inl s \<Rightarrow> Inl s
         | Inr own_thumb \<Rightarrow>
           if \<not> thumbprint_matches receiver_thumb own_thumb then Inl MU_STATUS_BAD_SECURITYCHECKSFAILED
           else (case key_bytes crypto own_cert of
             Inl s \<Rightarrow> Inl s
           | Inr own_key_bytes \<Rightarrow> (case key_bytes crypto (the (ai_sender_cert info)) of
               Inl s \<Rightarrow> Inl s
             | Inr sig_len \<Rightarrow>
               let cipher_len = msg_size - hdr_len in
               if cipher_len = 0 \<or> cipher_len mod own_key_bytes \<noteq> 0 then Inl MU_STATUS_BAD_DECODINGERROR
               else (case decrypt_unwrap_blocks crypto (ai_policy info) chunk hdr_len own_key_bytes cipher_len of
                 Inl s \<Rightarrow> Inl s
               | Inr plain \<Rightarrow>
                 if length plain < sig_len + 1 + 8 then Inl MU_STATUS_BAD_SECURITYCHECKSFAILED
                 else
                   let signed_len = length plain - sig_len;
                       s = verify_unwrap_signature crypto info chunk hdr_len plain signed_len (drop signed_len plain)
                   in if s \<noteq> MU_STATUS_GOOD then Inl s
                      else extract_unwrap_payload plain signed_len out_body out_cap info))))))"

definition read_asym_header :: "(opcua_uint32_t \<times> mu_string \<times> mu_bytestring \<times> mu_bytestring) rd" where
  "read_asym_header =
    rd_bind mu_binary_read_uint32 (\<lambda>scid.
    rd_bind mu_binary_read_string (\<lambda>policy_uri.
    rd_bind mu_binary_read_bytestring (\<lambda>sender_cert.
    rd_bind mu_binary_read_bytestring (\<lambda>receiver_thumb.
    rd_return (scid, policy_uri, sender_cert, receiver_thumb)))))"

definition unwrap_payload ::
  "mu_asym_adapter \<Rightarrow> mu_asym_chunk_info \<Rightarrow> bytes \<Rightarrow> nat \<Rightarrow> nat \<Rightarrow> mu_bytestring \<Rightarrow> bytes \<Rightarrow> nat \<Rightarrow>
   opcua_statuscode_t + mu_asym_chunk_info \<times> bytes \<times> nat" where
  "unwrap_payload crypto info chunk hdr_len msg_size receiver_thumb out_body out_cap =
    (if ai_policy info = MU_SECURITY_POLICY_NONE_ID then
       (if hdr_len + 8 > msg_size then Inl MU_STATUS_BAD_DECODINGERROR
        else clear_payload chunk hdr_len msg_size out_body out_cap info)
     else if mu_security_policy_asym_family (ai_policy info) = MU_ASYM_FAMILY_ECC then
       unwrap_ecc crypto info chunk hdr_len msg_size receiver_thumb out_body out_cap
     else unwrap_rsa crypto info chunk hdr_len msg_size receiver_thumb out_body out_cap)"

definition mu_asym_chunk_unwrap ::
  "mu_asym_unwrap_params \<Rightarrow> opcua_statuscode_t + mu_asym_chunk_info \<times> bytes \<times> nat" where
  "mu_asym_chunk_unwrap p =
    (case (up_crypto p, up_chunk p, up_out_body p) of
       (Some crypto, Some chunk, Some out_body) \<Rightarrow>
         if up_scratch_len p < MU_ASYM_MAX_PLAINTEXT + MU_ASYM_SIGNED_INPUT_MAX then Inl MU_STATUS_BAD_INTERNALERROR
         else if up_chunk_len p < 12 \<or> chunk ! 0 \<noteq> 0x4F \<or> chunk ! 1 \<noteq> 0x50 \<or> chunk ! 2 \<noteq> 0x4E
         then Inl MU_STATUS_BAD_DECODINGERROR
         else
           let msg_size = unat (mu_binary_le_get_u32 (slice 4 4 chunk)) in
           if msg_size > up_chunk_len p then Inl MU_STATUS_BAD_DECODINGERROR
           else (case read_asym_header ((mu_binary_reader_init (Some chunk) msg_size)\<lparr>rd_position := 8\<rparr>) of
             (Inl s, _) \<Rightarrow> Inl s
           | (Inr (scid, policy_uri, sender_cert, receiver_thumb), r) \<Rightarrow>
             let hdr_len = rd_position r;
                 info = \<lparr>ai_policy = mu_security_policy_from_uri (str_data policy_uri)
                                       (if 0 < sint (str_length policy_uri) then unat (str_length policy_uri) else 0),
                         ai_secure_channel_id = scid, ai_sequence_number = 0, ai_request_id = 0,
                         ai_sender_cert = (if 0 < sint (str_length sender_cert) then str_data sender_cert else None)\<rparr>
             in
             unwrap_payload crypto info chunk hdr_len msg_size receiver_thumb out_body (up_out_cap p))
     | _ \<Rightarrow> Inl MU_STATUS_BAD_INTERNALERROR)"

section \<open>The cleartext header\<close>

definition asym_header ::
  "nat \<Rightarrow> opcua_uint32_t \<Rightarrow> bytes \<Rightarrow> mu_bytestring \<Rightarrow> mu_bytestring \<Rightarrow> bytes" where
  "asym_header tot scid uri sender thumb =
    cstr ''OPNF'' @ mu_binary_le_put_u32 (of_nat tot) @ mu_binary_le_put_u32 scid @ enc_string (mk_string uri) @
    enc_string sender @ enc_string thumb"

lemma length_OPNF [simp]: "length (cstr ''OPNF'') = 4"
  by (simp add: cstr_def)

lemma cert_field_simps:
  "cert_field None = null_string"
  "length d \<le> MU_MAX_ENCODED_STRING_LENGTH \<Longrightarrow> cert_field (Some d) = mk_string d"
  by (simp_all add: cert_field_def mk_string_def mu_safe_int32_from_size_t_def)

text \<open>A field longer than the encoding limit is never written.\<close>

lemma write_long_field:
  assumes "MU_MAX_ENCODED_STRING_LENGTH < length d"
  shows "fst (mu_binary_write_string (cert_field (Some d)) w) \<noteq> MU_STATUS_GOOD"
proof (cases "length d \<le> 0x7FFFFFFF")
  case True
  then have "sint (of_nat (length d) :: 32 word) = int (length d)" "(of_nat (length d) :: 32 word) \<noteq> -1"
    by (auto intro!: int32_of_nat)
  then show ?thesis using assms True
    by (simp add: mu_binary_write_string_def cert_field_def mu_safe_int32_from_size_t_def wr_return_def)
next
  case False
  then show ?thesis
    by (simp add: mu_binary_write_string_def cert_field_def mu_safe_int32_from_size_t_def wr_return_def)
qed

lemma wr_seq_GOOD_D:
  assumes "wr_seq m n w = (MU_STATUS_GOOD, w')"
  obtains w1 where "m w = (MU_STATUS_GOOD, w1)" "n w1 = (MU_STATUS_GOOD, w')"
  using assms by (auto simp: wr_seq_def split: prod.splits if_splits)

definition field_fits :: "bytes option \<Rightarrow> bool" where
  "field_fits d \<longleftrightarrow> (case d of None \<Rightarrow> True | Some b \<Rightarrow> length b \<le> MU_MAX_ENCODED_STRING_LENGTH)"

lemma field_fits_written:
  assumes "mu_binary_write_bytestring (cert_field d) w = (MU_STATUS_GOOD, w')"
  shows "field_fits d"
  using assms write_long_field [of "the d" w]
  by (cases d) (auto simp: field_fits_def mu_binary_write_bytestring_def not_le [symmetric])

lemma encodes_field:
  "field_fits d \<Longrightarrow> encodes (mu_binary_write_bytestring (cert_field d)) (enc_string (cert_field d))"
  unfolding mu_binary_write_bytestring_def
  by (rule encodes_string) (auto simp: field_fits_def cert_field_simps split: option.splits)

lemma policy_uri_short: "mu_security_policy_uri p = Some uri \<Longrightarrow> length uri \<le> 64 \<and> uri \<noteq> []"
  by (cases p) (auto simp: mu_security_policy_uri_def POLICY_TABLE_def policy_uri_defs cstr_def)

lemma encodes_header_fields:
  assumes "length uri \<le> 64" "field_fits sender" "field_fits thumb"
  shows "encodes (wr_seq (mu_binary_write_uint32 0) (wr_seq (mu_binary_write_uint32 scid)
      (wr_seq (mu_binary_write_string (cert_field (Some uri)))
      (wr_seq (mu_binary_write_bytestring (cert_field sender)) (mu_binary_write_bytestring (cert_field thumb))))))
    (mu_binary_le_put_u32 0 @ mu_binary_le_put_u32 scid @ enc_string (mk_string uri) @
     enc_string (cert_field sender) @ enc_string (cert_field thumb))"
proof -
  have "encodes (mu_binary_write_string (cert_field (Some uri))) (enc_string (mk_string uri))"
    using assms(1) by (simp add: cert_field_simps encodes_string del: enc_string_simps)
  then show ?thesis
    by (intro encodes_seq encodes_primitives encodes_field assms)
qed

text \<open>A header is written completely, from the start of the buffer, or not at all.\<close>

lemma asym_header_written:
  assumes "asym_write_header policy scid sender thumb (mu_binary_writer_init (Some out) out_cap) = (MU_STATUS_GOOD, w)"
    and "out_cap \<le> length out"
  obtains uri h where "mu_security_policy_uri policy = Some uri" "field_fits sender" "field_fits thumb"
    "h = asym_header 0 scid uri (cert_field sender) (cert_field thumb)" "length h \<le> out_cap"
    "w = (mu_binary_writer_init (Some out) out_cap)\<lparr>wr_buffer := Some (put_at 0 h out), wr_position := length h\<rparr>"
proof -
  obtain uri where uri: "mu_security_policy_uri policy = Some uri"
    using assms(1) by (auto simp: asym_write_header_def wr_return_def split: option.splits)
  let ?w0 = "mu_binary_writer_init (Some out) out_cap"
  let ?w1 = "?w0\<lparr>wr_buffer := Some (put_at 0 (cstr ''OPNF'') out), wr_position := 4\<rparr>"
  let ?m = "wr_seq (mu_binary_write_uint32 0) (wr_seq (mu_binary_write_uint32 scid)
      (wr_seq (mu_binary_write_string (cert_field (Some uri)))
      (wr_seq (mu_binary_write_bytestring (cert_field sender)) (mu_binary_write_bytestring (cert_field thumb)))))"
  have m: "?m ?w1 = (MU_STATUS_GOOD, w)"
    using assms(1) by (simp add: asym_write_header_def uri wr_seq_def [of put_message_type] put_message_type_def
        mu_binary_writer_init_def)
  then have fit: "field_fits sender" "field_fits thumb"
    by (meson wr_seq_GOOD_D field_fits_written)+
  have "4 \<le> out_cap"
    using m by (auto elim!: wr_seq_GOOD_D simp: mu_binary_write_uint32_def ensure_space_def wr_seq_def writer_status_def
        writer_fail_def mu_binary_writer_init_def split: if_splits)
  then have wf: "wf_writer ?w1"
    using assms(2) by (simp add: wf_writer_def mu_binary_writer_init_def)
  let ?bs = "mu_binary_le_put_u32 0 @ mu_binary_le_put_u32 scid @ enc_string (mk_string uri) @
     enc_string (cert_field sender) @ enc_string (cert_field thumb)"
  have enc: "encodes ?m ?bs"
    using policy_uri_short [OF uri] fit by (intro encodes_header_fields) simp_all
  have len: "4 + length ?bs \<le> out_cap"
    using encodes_too_big [OF enc, of ?w1 "put_at 0 (cstr ''OPNF'') out"] wf m
    by (auto simp: mu_binary_writer_init_def)
  have "w = ?w1\<lparr>wr_buffer := Some (put_at 4 ?bs (put_at 0 (cstr ''OPNF'') out)), wr_position := 4 + length ?bs\<rparr>"
    using encodes_fits [OF enc, of ?w1 "put_at 0 (cstr ''OPNF'') out"] wf m len
    by (simp add: mu_binary_writer_init_def)
  moreover have "put_at 4 ?bs (put_at 0 (cstr ''OPNF'') out) = put_at 0 (cstr ''OPNF'' @ ?bs) out"
    using len assms(2) by (intro put_at_chain) simp_all
  ultimately show ?thesis
    using uri fit len by (intro that [of uri "cstr ''OPNF'' @ ?bs"]) (simp_all add: asym_header_def)
qed

lemma reads_field: "field_fits d \<Longrightarrow> reads mu_binary_read_bytestring (enc_string (cert_field d)) (cert_field d)"
  unfolding mu_binary_read_bytestring_def
  by (rule reads_string) (auto simp: field_fits_def cert_field_simps split: option.splits)

lemma reads_asym_header:
  assumes "length uri \<le> 64" "field_fits sender" "field_fits thumb"
  shows "reads read_asym_header (mu_binary_le_put_u32 scid @ enc_string (mk_string uri) @ enc_string (cert_field sender) @
      enc_string (cert_field thumb)) (scid, mk_string uri, cert_field sender, cert_field thumb)"
proof -
  have "reads mu_binary_read_string (enc_string (mk_string uri)) (mk_string uri)"
    using assms(1) by (intro reads_string) simp
  then show ?thesis
    unfolding read_asym_header_def
    by (intro reads_bind [OF reads_primitives(7)] reads_bind [OF reads_field [OF assms(2)]]
        reads_bind_return [OF reads_field [OF assms(3)]] refl reads_bind [where x = "mk_string uri"])
qed

lemma length_asym_header_ge: "12 \<le> length (asym_header tot scid uri sender thumb)"
  by (simp add: asym_header_def)

lemma asym_header_type:
  "(asym_header tot scid uri sender thumb @ rest) ! 0 = 0x4F" "(asym_header tot scid uri sender thumb @ rest) ! 1 = 0x50"
  "(asym_header tot scid uri sender thumb @ rest) ! 2 = 0x4E"
  by (simp_all add: asym_header_def cstr_def)

lemma asym_header_size:
  "slice 4 4 (asym_header tot scid uri sender thumb @ rest) = mu_binary_le_put_u32 (of_nat tot)"
  by (simp add: asym_header_def slice_def)

lemma read_asym_header_on:
  assumes "length uri \<le> 64" "field_fits sender" "field_fits thumb"
    and h: "h = asym_header tot scid uri (cert_field sender) (cert_field thumb)"
    and n: "length h \<le> n" "n \<le> length (h @ rest)"
  shows "read_asym_header ((mu_binary_reader_init (Some (h @ rest)) n)\<lparr>rd_position := 8\<rparr>) =
    (Inr (scid, mk_string uri, cert_field sender, cert_field thumb),
     (mu_binary_reader_init (Some (h @ rest)) n)\<lparr>rd_position := length h\<rparr>)"
proof -
  let ?bs = "mu_binary_le_put_u32 scid @ enc_string (mk_string uri) @ enc_string (cert_field sender) @ enc_string (cert_field thumb)"
  let ?r = "(mu_binary_reader_init (Some (h @ rest)) n)\<lparr>rd_position := 8\<rparr>"
  have len: "length h = 8 + length ?bs" by (simp add: h asym_header_def)
  have "drop 8 h = ?bs" by (simp add: h asym_header_def del: enc_string_simps)
  then have "slice 8 (length ?bs) (h @ rest) = ?bs"
    using len by (simp add: slice_def)
  then show ?thesis
    using readsD [OF reads_asym_header [OF assms(1-3), of scid], of ?r "h @ rest"] n len
    by (simp add: mu_binary_reader_init_def)
qed

definition header_info :: "mu_security_policy_id \<Rightarrow> opcua_uint32_t \<Rightarrow> bytes option \<Rightarrow> mu_asym_chunk_info" where
  "header_info policy scid sender =
    \<lparr>ai_policy = policy, ai_secure_channel_id = scid, ai_sequence_number = 0, ai_request_id = 0, ai_sender_cert = sender\<rparr>"

text \<open>Unwrapping a chunk with a well-formed header comes down to unwrapping its payload.\<close>

lemma unwrap_dispatch:
  assumes uri: "mu_security_policy_uri policy = Some uri" and fit: "field_fits sender" "field_fits thumb"
    and ne: "sender \<noteq> Some []"
    and h: "h = asym_header tot scid uri (cert_field sender) (cert_field thumb)"
    and tot: "tot = length (h @ rest)" "tot < 2 ^ 32"
    and p: "p = \<lparr>up_crypto = Some c, up_chunk = Some (h @ rest), up_chunk_len = tot, up_out_body = Some ob,
      up_out_cap = cap, up_scratch_len = sl\<rparr>" and sl: "6144 \<le> sl"
  shows "mu_asym_chunk_unwrap p =
    unwrap_payload c (header_info policy scid sender) (h @ rest) (length h) tot (cert_field thumb) ob cap"
proof -
  have s: "length uri \<le> 64" "uri \<noteq> []" using policy_uri_short [OF uri] by simp_all
  have "sint (of_nat (length uri) :: 32 word) = int (length uri)" "unat (of_nat (length uri) :: 32 word) = length uri"
    using s(1) by (auto intro!: int32_of_nat)
  then have pol: "mu_security_policy_from_uri (str_data (mk_string uri))
      (if 0 < sint (str_length (mk_string uri)) then unat (str_length (mk_string uri)) else 0) = policy"
    using policy_from_uri_known [OF uri] s(2) by (simp add: mk_string_def)
  have cert: "(if 0 < sint (str_length (cert_field sender)) then str_data (cert_field sender) else None) = sender"
  proof (cases sender)
    case (Some d)
    then have d: "length d \<le> 4096" "d \<noteq> []" using fit(1) ne by (auto simp: field_fits_def)
    then have "sint (of_nat (length d) :: 32 word) = int (length d)" by (auto intro!: int32_of_nat)
    then show ?thesis using Some d by (simp add: cert_field_simps mk_string_def)
  qed (simp add: cert_field_def)
  have 12: "12 \<le> length h" unfolding h by (rule length_asym_header_ge)
  have rd: "read_asym_header ((mu_binary_reader_init (Some (h @ rest)) tot)\<lparr>rd_position := 8\<rparr>) =
    (Inr (scid, mk_string uri, cert_field sender, cert_field thumb),
     (mu_binary_reader_init (Some (h @ rest)) tot)\<lparr>rd_position := length h\<rparr>)"
    using tot(1) by (intro read_asym_header_on [OF s(1) fit h]) simp_all
  have ms: "unat (mu_binary_le_get_u32 (slice 4 4 (h @ rest))) = tot"
    unfolding h asym_header_size using tot(2) by (simp add: unat_of_nat32)
  have ty: "(h @ rest) ! 0 = 0x4F" "(h @ rest) ! 1 = 0x50" "(h @ rest) ! 2 = 0x4E"
    unfolding h by (rule asym_header_type)+
  have "\<not> tot < 12" using 12 tot(1) by simp
  then show ?thesis
    unfolding mu_asym_chunk_unwrap_def p using sl
    by (simp add: ty ty(2) [unfolded One_nat_def] ms rd pol cert Let_def header_info_def)
qed

section \<open>Encrypted blocks and padding\<close>

text \<open>What the adapter documents about RSA-OAEP: decryption undoes encryption.\<close>

definition oaep_inverse :: "(bytes \<Rightarrow> nat \<Rightarrow> opcua_statuscode_t + bytes) \<Rightarrow> decrypt_fn \<Rightarrow> bool" where
  "oaep_inverse enc dec \<longleftrightarrow> (\<forall>m cap c. enc m cap = Inr c \<longrightarrow> (\<forall>cap'. length m \<le> cap' \<longrightarrow> dec c cap' = Inr m))"

lemma put_at_cover:
  "length z \<le> length c \<Longrightarrow> p + length c \<le> length b \<Longrightarrow> put_at p c (put_at p z b) = put_at p c b"
  by (simp add: put_at_def add.commute)

lemma encrypt_loop_inverse:
  assumes inv: "oaep_inverse enc dec"
  shows "encrypt_wrap_loop enc pb cb n plain pos out = Inr out' \<Longrightarrow> n * pb \<le> length plain \<Longrightarrow>
    pos + n * cb \<le> length out \<Longrightarrow>
    \<exists>cs. length cs = n * cb \<and> out' = put_at pos cs out \<and>
      (\<forall>acc rest. length acc + n * pb \<le> MU_ASYM_MAX_PLAINTEXT \<longrightarrow>
         decrypt_unwrap_loop dec cb n (cs @ rest) acc = Inr (acc @ take (n * pb) plain))"
proof (induction n arbitrary: plain pos out)
  case 0
  then show ?case by (intro exI [of _ "[]"]) simp
next
  case (Suc n)
  obtain c where c: "enc (take pb plain) cb = Inr c" "length c = cb"
    and rec: "encrypt_wrap_loop enc pb cb n (drop pb plain) (pos + cb) (put_at pos c out) = Inr out'"
    using Suc.prems(1) by (auto split: sum.splits if_splits)
  have len: "n * pb \<le> length (drop pb plain)" "pb \<le> length plain" "pos + length c \<le> length out"
    using Suc.prems(2,3) c(2) by simp_all
  then have "pos + cb + n * cb \<le> length (put_at pos c out)"
    using Suc.prems(3) by (simp add: algebra_simps)
  from Suc.IH [OF rec len(1) this] obtain cs where
    cs: "length cs = n * cb" "out' = put_at (pos + cb) cs (put_at pos c out)" and
    d: "\<And>acc rest. length acc + n * pb \<le> MU_ASYM_MAX_PLAINTEXT \<Longrightarrow>
      decrypt_unwrap_loop dec cb n (cs @ rest) acc = Inr (acc @ take (n * pb) (drop pb plain))"
    by blast
  have "out' = put_at pos (c @ cs) out"
    using cs c(2) Suc.prems(3) put_at_append [of pos c cs out] by (simp add: algebra_simps)
  moreover have "decrypt_unwrap_loop dec cb (Suc n) ((c @ cs) @ rest) acc = Inr (acc @ take (Suc n * pb) plain)"
    if "length acc + Suc n * pb \<le> MU_ASYM_MAX_PLAINTEXT" for acc rest
  proof -
    have "dec c (MU_ASYM_MAX_PLAINTEXT - length acc) = Inr (take pb plain)"
      using inv c(1) that len(2) unfolding oaep_inverse_def by auto
    then show ?thesis
      using d [of "acc @ take pb plain" rest] that len(2) c(2) by (simp add: take_add)
  qed
  ultimately show ?case using cs(1) c(2) by (intro exI [of _ "c @ cs"]) auto
qed

definition rsa_payload :: "opcua_uint32_t \<Rightarrow> opcua_uint32_t \<Rightarrow> bytes \<Rightarrow> nat \<Rightarrow> bytes" where
  "rsa_payload sq rid body pad =
    mu_binary_le_put_u32 sq @ mu_binary_le_put_u32 rid @ body @ of_nat pad # replicate pad (of_nat pad)"

lemma length_rsa_payload [simp]: "length (rsa_payload sq rid body pad) = 9 + length body + pad"
  by (simp add: rsa_payload_def)

lemma rsa_payload_pad:
  assumes "j \<le> pad"
  shows "(rsa_payload sq rid body pad @ sig) ! (8 + length body + j) = of_nat pad"
proof -
  have "rsa_payload sq rid body pad @ sig =
      (mu_binary_le_put_u32 sq @ mu_binary_le_put_u32 rid @ body) @ (of_nat pad # replicate pad (of_nat pad)) @ sig"
    by (simp add: rsa_payload_def)
  moreover have "(of_nat pad # replicate pad (of_nat pad :: opcua_byte_t) @ sig) ! j = of_nat pad"
    using assms by (cases j) (simp_all add: nth_append)
  ultimately show ?thesis by (simp add: nth_append)
qed

text \<open>
  Only the low byte of the padding size is stored, so the reader removes the padding modulo 256 and
  takes the rest of it for body.
\<close>

lemma extract_padded:
  assumes "signed_len = 9 + length body + pad"
    and b: "b = body @ replicate (256 * (pad div 256)) (of_nat pad)"
  shows "extract_unwrap_payload (rsa_payload sq rid body pad @ sig) signed_len ob cap info =
    (if length b > cap then Inl MU_STATUS_BAD_RESPONSETOOLARGE
     else Inr (info\<lparr>ai_sequence_number := sq, ai_request_id := rid\<rparr>, put_at 0 b ob, length b))"
proof -
  let ?p = "rsa_payload sq rid body pad @ sig"
  define q where "q = pad mod 256"
  have q: "q \<le> pad" "pad - q = 256 * (pad div 256)" unfolding q_def by (simp_all add: minus_mod_eq_mult_div)
  have w: "unat (of_nat pad :: opcua_byte_t) = q" by (simp add: unat_of_nat q_def)
  have pads: "?p ! (8 + length body + (pad - i)) = of_nat pad" for i
    by (rule rsa_payload_pad) simp
  have last: "?p ! (signed_len - 1) = of_nat pad" using pads [of 0] assms(1) by (simp add: add.assoc)
  have all: "list_all (\<lambda>i. unat (?p ! (signed_len - 1 - i)) = q) [1..<Suc q]"
  proof -
    have "unat (?p ! (signed_len - 1 - i)) = q" if "i \<le> q" for i
    proof -
      have "signed_len - 1 - i = 8 + length body + (pad - i)" using that q(1) assms(1) by simp
      then show ?thesis using pads [of i] w by simp
    qed
    then show ?thesis by (auto simp: list_all_iff)
  qed
  have "drop 8 ?p = b @ drop (8 + length b) ?p"
  proof -
    have "replicate (Suc pad) (of_nat pad :: opcua_byte_t) =
        replicate (256 * (pad div 256)) (of_nat pad) @ replicate (Suc q) (of_nat pad)"
      unfolding q(2) [symmetric] replicate_add [symmetric] using q(1) by (simp del: replicate.simps)
    then have "?p = mu_binary_le_put_u32 sq @ mu_binary_le_put_u32 rid @ b @ replicate (Suc q) (of_nat pad) @ sig"
      unfolding rsa_payload_def b by simp
    then show ?thesis by simp
  qed
  then have cp: "take (length b) (drop 8 ?p) = b" by (metis append_eq_conv_conj)
  have bl: "signed_len - 1 - q - 8 = length b" using assms q by simp
  have hd: "mu_binary_le_get_u32 (take 4 ?p) = sq" "mu_binary_le_get_u32 (slice 4 4 ?p) = rid"
    by (simp_all add: rsa_payload_def slice_def)
  show ?thesis
    unfolding extract_unwrap_payload_def Let_def last w bl hd mu_checked_memcpy_def cp
    using all q(1) assms(1) by simp
qed

section \<open>RSA chunks\<close>

definition asym_pad :: "mu_security_policy_id \<Rightarrow> nat \<Rightarrow> nat \<Rightarrow> nat \<Rightarrow> nat" where
  "asym_pad policy kb sig_len body_len =
    (let pb = plain_block_of policy kb in (pb - (8 + body_len + 1 + sig_len) mod pb) mod pb)"

lemma plain_block_bounds:
  assumes "256 \<le> kb" "kb \<le> 512"
  shows "190 \<le> plain_block_of policy kb" "plain_block_of policy kb \<le> kb - 42"
proof -
  have "(kb + (SIZE_MAX + 1) - 66) mod (SIZE_MAX + 1) = kb - 66"
    using assms by (simp add: SIZE_MAX_def mod_if)
  then have "plain_block_of policy kb = kb - 66 \<or> plain_block_of policy kb = kb - 42"
    unfolding plain_block_of_def by argo
  then show "190 \<le> plain_block_of policy kb" "plain_block_of policy kb \<le> kb - 42"
    using assms by linarith+
qed

lemma padded_to_blocks: "0 < pb \<Longrightarrow> pb dvd base + (pb - base mod pb) mod pb" for pb base :: nat
  by (metis Suc_pred add.commute dvd_eq_mod_eq_0 le_add_diff_inverse mod_add_right_eq mod_add_self2 mod_le_divisor mod_mod_trivial
      mod_add_left_eq less_imp_le mod_less_divisor mod_self)

text \<open>The four size bytes of a chunk in the buffer are overwritten in place.\<close>

lemma patch_chunk:
  assumes "length (asym_header 0 scid uri s t @ rest) \<le> length out"
  shows "patch_message_size tot (put_at 0 (asym_header 0 scid uri s t @ rest) out) = put_at 0 (asym_header tot scid uri s t @ rest) out"
proof -
  let ?r = "mu_binary_le_put_u32 scid @ enc_string (mk_string uri) @ enc_string s @ enc_string t @ rest"
  have h: "asym_header n scid uri s t @ rest = cstr ''OPNF'' @ mu_binary_le_put_u32 (of_nat n) @ ?r" for n
    by (simp add: asym_header_def)
  have "put_at 4 x (put_at 0 (cstr ''OPNF'' @ y @ ?r) out) = put_at 0 (cstr ''OPNF'' @ x @ ?r) out"
    if "length x = 4" "length y = 4" for x y
    using that by (simp add: put_at_def)
  then show ?thesis unfolding patch_message_size_def h by simp
qed

lemmas patch_header = patch_chunk [where rest = "[]", unfolded append_Nil2]

lemma length_asym_header_size: "length (asym_header n scid uri s t) = length (asym_header 0 scid uri s t)"
  by (simp add: asym_header_def)

text \<open>The stages of a successful RSA wrap.\<close>

lemma wrap_rsa_stages:
  assumes wrap: "wrap_rsa p out = Inr (tot, out')" and cap: "wp_out_cap p \<le> length out"
    and pa: "wp_crypto p = Some a" "wp_receiver_cert p = Some cb" "get_own_certificate a = Inr ca" "key_bytes a cb = Inr kb"
  obtains thumb sig_len uri h presig_len enc_len cipher_len plain out1 where
    "mu_certificate_thumbprint (Some a) (Some cb) = Inr thumb" "key_bytes a ca = Inr sig_len"
    "mu_security_policy_uri (wp_policy p) = Some uri" "field_fits (Some ca)" "field_fits (Some thumb)"
    "h = asym_header 0 (wp_secure_channel_id p) uri (cert_field (Some ca)) (cert_field (Some thumb))"
    "length h \<le> wp_out_cap p"
    "compute_wrap_sizes (length (wp_body p)) sig_len (plain_block_of (wp_policy p) kb) kb (length h) (wp_out_cap p) =
       Inr (presig_len, enc_len, cipher_len, tot)"
    "sign_wrap_payload a (wp_policy p) (wp_sequence_number p) (wp_request_id p) (wp_body p)
       (patch_message_size tot (put_at 0 h out)) (length h) presig_len sig_len = Inr (plain, out1)"
    "encrypt_wrap_blocks a (wp_policy p) cb plain (plain_block_of (wp_policy p) kb) kb enc_len out1 (length h) = Inr out'"
proof -
  let ?P = "wp_policy p"
  obtain thumb sig_len w where th: "mu_certificate_thumbprint (Some a) (Some cb) = Inr thumb" "key_bytes a ca = Inr sig_len"
    and w: "asym_write_header ?P (wp_secure_channel_id p) (Some ca) (Some thumb)
        (mu_binary_writer_init (Some out) (wp_out_cap p)) = (MU_STATUS_GOOD, w)"
    and bh: "build_wrap_header a ?P (wp_secure_channel_id p) cb out (wp_out_cap p) =
        Inr (wr_position w, sig_len, plain_block_of ?P kb, kb, the (wr_buffer w))"
    using wrap pa
    by (auto simp: wrap_rsa_def build_wrap_header_def Let_def split: if_splits sum.splits prod.splits)
  obtain uri h where uri: "mu_security_policy_uri ?P = Some uri" and fit: "field_fits (Some ca)" "field_fits (Some thumb)"
    and h: "h = asym_header 0 (wp_secure_channel_id p) uri (cert_field (Some ca)) (cert_field (Some thumb))"
    and hl: "length h \<le> wp_out_cap p"
    and w': "w = (mu_binary_writer_init (Some out) (wp_out_cap p))\<lparr>wr_buffer := Some (put_at 0 h out), wr_position := length h\<rparr>"
    using asym_header_written [OF w cap] by blast
  show ?thesis
    using wrap pa bh that [OF th uri fit h hl] unfolding wrap_rsa_def Let_def w'
    by (auto simp: mu_binary_writer_init_def split: if_splits sum.splits prod.splits)
qed

lemma wrap_rsa_success:
  assumes wrap: "wrap_rsa p out = Inr (tot, out')" and cap: "wp_out_cap p \<le> length out"
    and pa: "wp_crypto p = Some a" "wp_receiver_cert p = Some cb" "get_own_certificate a = Inr ca"
    and kb: "key_bytes a cb = Inr kb" "256 \<le> kb" "kb \<le> 512"
    and inv: "oaep_inverse (rsa_encrypt a (wp_policy p) cb) dec"
  obtains uri thumb sig_len sig pad cs n H where
    "mu_security_policy_uri (wp_policy p) = Some uri" "mu_certificate_thumbprint (Some a) (Some cb) = Inr thumb"
    "field_fits (Some ca)" "field_fits (Some thumb)"
    "key_bytes a ca = Inr sig_len" "length sig = sig_len" "pad = asym_pad (wp_policy p) kb sig_len (length (wp_body p))"
    "H = asym_header tot (wp_secure_channel_id p) uri (cert_field (Some ca)) (cert_field (Some thumb))"
    "rsa_sign a (wp_policy p) (H @ rsa_payload (wp_sequence_number p) (wp_request_id p) (wp_body p) pad) 512 = Inr sig"
    "take tot out' = H @ cs" "tot = length H + length cs" "tot < 2 ^ 32" "tot \<le> length out"
    "length H + 9 + length (wp_body p) + pad \<le> 4096" "length cs = n * kb" "0 < n"
    "decrypt_unwrap_loop dec kb n cs [] = Inr (rsa_payload (wp_sequence_number p) (wp_request_id p) (wp_body p) pad @ sig)"
proof -
  let ?P = "wp_policy p" and ?n = "length (wp_body p)"
  obtain thumb sig_len uri h presig_len enc_len cipher_len plain o1 where
    th: "mu_certificate_thumbprint (Some a) (Some cb) = Inr thumb" "key_bytes a ca = Inr sig_len" and
    uri: "mu_security_policy_uri ?P = Some uri" and fit: "field_fits (Some ca)" "field_fits (Some thumb)" and
    h: "h = asym_header 0 (wp_secure_channel_id p) uri (cert_field (Some ca)) (cert_field (Some thumb))" and
    hl: "length h \<le> wp_out_cap p" and
    sz: "compute_wrap_sizes ?n sig_len (plain_block_of ?P kb) kb (length h) (wp_out_cap p) =
      Inr (presig_len, enc_len, cipher_len, tot)" and
    sg: "sign_wrap_payload a ?P (wp_sequence_number p) (wp_request_id p) (wp_body p)
      (patch_message_size tot (put_at 0 h out)) (length h) presig_len sig_len = Inr (plain, o1)" and
    en: "encrypt_wrap_blocks a ?P cb plain (plain_block_of ?P kb) kb enc_len o1 (length h) = Inr out'"
    by (rule wrap_rsa_stages [OF wrap cap pa kb(1)])
  define pb where "pb = plain_block_of ?P kb"
  define pad where "pad = asym_pad ?P kb sig_len ?n"
  define n where "n = (8 + ?n + 1 + sig_len + pad) div pb"
  have pb: "0 < pb" "190 \<le> pb" "pb < kb" using plain_block_bounds [OF kb(2,3), of ?P] kb(2) unfolding pb_def by linarith+
  have pad: "pad = (pb - (8 + ?n + 1 + sig_len) mod pb) mod pb" unfolding pad_def asym_pad_def pb_def Let_def ..
  have blocks: "n * pb = 8 + ?n + 1 + sig_len + pad"
    using padded_to_blocks [OF pb(1), of "8 + ?n + 1 + sig_len"] unfolding n_def pad by (simp only: dvd_div_mult_self)
  have s: "presig_len = 8 + ?n + 1 + pad" "enc_len = 8 + ?n + 1 + sig_len + pad" and tot: "tot = length h + n * kb"
    and lim: "8 + ?n + 1 + sig_len + pad \<le> 2048" "length h + (8 + ?n + 1 + pad) \<le> 4096" "length h + n * kb \<le> wp_out_cap p"
    using sz unfolding compute_wrap_sizes_def Let_def pb_def [symmetric] pad [symmetric] n_def [symmetric]
    by (auto split: if_splits)
  let ?H = "asym_header tot (wp_secure_channel_id p) uri (cert_field (Some ca)) (cert_field (Some thumb))"
  let ?pl = "rsa_payload (wp_sequence_number p) (wp_request_id p) (wp_body p) pad"
  have hH: "length ?H = length h" unfolding h by (rule length_asym_header_size)
  have pt: "patch_message_size tot (put_at 0 h out) = put_at 0 ?H out"
    unfolding h using hl cap unfolding h by (intro patch_header) linarith
  have "n * pb \<le> n * kb" using pb(3) by (intro mult_le_mono) simp_all
  then have room: "length h + (8 + ?n + 1 + pad) \<le> length h + n * kb" "length h + n * kb \<le> length out"
    using blocks lim(3) cap by linarith+
  have put: "put_at (length h) ?pl (put_at 0 ?H out) = put_at 0 (?H @ ?pl) out"
    using room hH by (intro put_at_chain) simp_all
  obtain sig where sig: "rsa_sign a ?P (?H @ ?pl) 512 = Inr sig" "length sig = sig_len" "plain = ?pl @ sig"
    "o1 = put_at (length h) (replicate (8 + ?n + 1 + pad) 0) (put_at 0 (?H @ ?pl) out)"
    using sg [unfolded pt] unfolding sign_wrap_payload_def Let_def s
    by (auto simp: rsa_payload_def [symmetric] put hH take_put_at_0 split: if_splits sum.splits)
  have o1: "length o1 = length out" using sig(4) room hH by simp
  have pl: "length plain = n * pb" using sig(2,3) blocks by simp
  have en': "encrypt_wrap_loop (rsa_encrypt a ?P cb) pb kb n plain (length h) o1 = Inr out'"
    using en unfolding encrypt_wrap_blocks_def s pb_def [symmetric] n_def [symmetric] .
  obtain cs where cs: "length cs = n * kb" "out' = put_at (length h) cs o1"
    and dec: "\<And>acc rest. length acc + n * pb \<le> MU_ASYM_MAX_PLAINTEXT \<Longrightarrow>
      decrypt_unwrap_loop dec kb n (cs @ rest) acc = Inr (acc @ take (n * pb) plain)"
    using encrypt_loop_inverse [OF inv en'] pl room(2) o1 by auto
  have cs3: "decrypt_unwrap_loop dec kb n cs [] = Inr plain"
    using dec [of "[]" "[]"] pl blocks lim(1) by simp
  have "out' = put_at (length h) cs (put_at (length h) ?pl (put_at 0 ?H out))"
    unfolding cs(2) sig(4) put using room hH cs(1) by (intro put_at_cover) simp_all
  also have "\<dots> = put_at (length h) cs (put_at 0 ?H out)"
    using room hH cs(1) by (intro put_at_cover) simp_all
  also have "\<dots> = put_at 0 (?H @ cs) out"
    using room hH cs(1) by (intro put_at_chain) simp_all
  finally have "out' = put_at 0 (?H @ cs) out" .
  then have tk: "take tot out' = ?H @ cs"
    using tot hH cs(1) by (simp add: put_at_0)
  have "n * 190 \<le> n * pb" using pb(2) by simp
  then have "n \<le> 10" using blocks lim(1) by linarith
  then have "n * kb \<le> 10 * 512" using kb(3) by (intro mult_le_mono) simp_all
  then have "tot < 2 ^ 32" using tot lim(2) by simp
  moreover have "0 < n" using blocks by (cases n) simp_all
  ultimately show ?thesis
    using that [OF uri th(1) fit th(2) sig(2) pad_def refl sig(1) tk _ _ _ _ cs(1)] cs3 sig(3) tot hH cs(1) lim(2,3) cap
    by simp
qed

text \<open>
  What two applications that talk RSA rely on: each knows its own certificate, both read key sizes and
  20-byte thumbprints from certificates in the same way, a signature made by \<open>a\<close> verifies at \<open>b\<close> under
  the certificate of \<open>a\<close>, and \<open>b\<close> decrypts what \<open>a\<close> encrypts to the certificate of \<open>b\<close>.
\<close>

definition thumbprints_agree :: "mu_asym_adapter \<Rightarrow> mu_asym_adapter \<Rightarrow> bool" where
  "thumbprints_agree a b \<longleftrightarrow> get_certificate_thumbprint a = get_certificate_thumbprint b \<and>
     (\<forall>f c t. get_certificate_thumbprint b = Some f \<longrightarrow> f c = Inr t \<longrightarrow> length t = MU_THUMBPRINT_LENGTH)"

definition rsa_peers :: "mu_security_policy_id \<Rightarrow> mu_asym_adapter \<Rightarrow> bytes \<Rightarrow> mu_asym_adapter \<Rightarrow> bytes \<Rightarrow> bool" where
  "rsa_peers policy a ca b cb \<longleftrightarrow>
     get_own_certificate a = Inr ca \<and> get_own_certificate b = Inr cb \<and>
     get_certificate_key_bits a = get_certificate_key_bits b \<and> thumbprints_agree a b \<and>
     (\<forall>d cap s. rsa_sign a policy d cap = Inr s \<longrightarrow> rsa_verify b policy ca d s = MU_STATUS_GOOD) \<and>
     oaep_inverse (rsa_encrypt a policy cb) (rsa_decrypt b policy)"

lemma thumbprints_agreeD:
  assumes "thumbprints_agree a b" "mu_certificate_thumbprint (Some a) (Some c) = Inr t"
  shows "mu_certificate_thumbprint (Some b) (Some c) = Inr t" "length t = 20"
  using assms by (auto simp: thumbprints_agree_def mu_certificate_thumbprint_def split: option.splits if_splits)

lemma thumbprint_matches_self: "length t = 20 \<Longrightarrow> thumbprint_matches (cert_field (Some t)) t"
  by (simp add: thumbprint_matches_def cert_field_simps mk_string_def str_bytes_def mu_secure_memeq_iff)

lemma rsa_family:
  "mu_security_policy_asym_family p = MU_ASYM_FAMILY_RSA \<longleftrightarrow>
     p = MU_SECURITY_POLICY_BASIC256SHA256_ID \<or> p = MU_SECURITY_POLICY_AES128_SHA256_RSAOAEP_ID \<or>
     p = MU_SECURITY_POLICY_AES256_SHA256_RSAPSS_ID"
  by (cases p) (simp_all add: mu_security_policy_asym_family_def POLICY_TABLE_def)

lemma key_bytes_valid:
  assumes "mu_certificate_validate (Some b) policy (Some c) = MU_STATUS_GOOD"
    and "mu_security_policy_asym_family policy = MU_ASYM_FAMILY_RSA"
  obtains f bits where "get_certificate_key_bits b = Some f" "f c = Inr bits" "2048 \<le> bits" "bits \<le> 4096" "c \<noteq> []"
    "key_bytes b c = Inr (bits div 8)"
proof -
  have "policy \<noteq> MU_SECURITY_POLICY_NONE_ID" using assms(2) by (auto simp: rsa_family)
  from certificate_validD [OF assms(1) this] obtain f bits where
    f: "get_certificate_key_bits b = Some f" "f c = Inr bits" "2048 \<le> bits" "bits \<le> 4096" "c \<noteq> []"
    using assms(2) by (metis option.inject)
  then have "key_bytes b c = Inr (bits div 8)" by (simp add: key_bytes_def)
  with f show ?thesis by (rule that)
qed

text \<open>What the receiver recovers from a chunk of the RSA policies, whatever the key size.\<close>

lemma rsa_chunk_unwraps:
  assumes fam: "mu_security_policy_asym_family policy = MU_ASYM_FAMILY_RSA"
    and peers: "rsa_peers policy a ca b cb"
    and valid: "mu_certificate_validate (Some b) policy (Some ca) = MU_STATUS_GOOD"
      "mu_certificate_validate (Some b) policy (Some cb) = MU_STATUS_GOOD"
    and wrap: "mu_asym_chunk_wrap \<lparr>wp_crypto = Some a, wp_policy = policy, wp_secure_channel_id = scid, wp_sequence_number = sq,
       wp_request_id = rid, wp_receiver_cert = Some cb, wp_body = body, wp_out = Some out, wp_out_cap = out_cap\<rparr> = Inr (tot, out')"
    and cap: "out_cap \<le> length out" and sl: "6144 \<le> sl"
    and kb: "key_bytes b ca = Inr sig_len" "key_bytes b cb = Inr kb"
    and bd: "bd = body @ replicate (256 * (asym_pad policy kb sig_len (length body) div 256)) (of_nat (asym_pad policy kb sig_len (length body)))"
  shows "length (take tot out') = tot"
    and "mu_asym_chunk_unwrap \<lparr>up_crypto = Some b, up_chunk = Some (take tot out'), up_chunk_len = tot, up_out_body = Some ob,
       up_out_cap = cap, up_scratch_len = sl\<rparr> =
    (if length bd > cap then Inl MU_STATUS_BAD_RESPONSETOOLARGE
     else Inr (\<lparr>ai_policy = policy, ai_secure_channel_id = scid, ai_sequence_number = sq, ai_request_id = rid, ai_sender_cert = Some ca\<rparr>,
               put_at 0 bd ob, length bd))"
proof -
  let ?p = "\<lparr>wp_crypto = Some a, wp_policy = policy, wp_secure_channel_id = scid, wp_sequence_number = sq,
       wp_request_id = rid, wp_receiver_cert = Some cb, wp_body = body, wp_out = Some out, wp_out_cap = out_cap\<rparr>"
  have own: "get_own_certificate a = Inr ca" "get_own_certificate b = Inr cb" and thumbs: "thumbprints_agree a b"
    and sgn: "\<And>d n s. rsa_sign a policy d n = Inr s \<Longrightarrow> rsa_verify b policy ca d s = MU_STATUS_GOOD"
    and inv: "oaep_inverse (rsa_encrypt a policy cb) (rsa_decrypt b policy)"
    using peers by (auto simp: rsa_peers_def)
  have same: "key_bytes a = key_bytes b" using peers by (simp add: rsa_peers_def key_bytes_def fun_eq_iff)
  have ne: "policy \<noteq> MU_SECURITY_POLICY_NONE_ID" "mu_security_policy_asym_family policy \<noteq> MU_ASYM_FAMILY_ECC"
    using fam rsa_family [of policy] by auto
  have ca: "ca \<noteq> []" using key_bytes_valid [OF valid(1) fam] by blast
  obtain bits where "2048 \<le> bits" "bits \<le> 4096" "kb = bits div 8"
    using key_bytes_valid [OF valid(2) fam] kb(2) by (metis Inr_inject)
  then have kbb: "256 \<le> kb" "kb \<le> 512" by simp_all
  have W: "wrap_rsa ?p out = Inr (tot, out')" using wrap ne by (simp add: mu_asym_chunk_wrap_def)
  have ka: "key_bytes a cb = Inr kb" using kb(2) same by simp
  have W2: "wp_out_cap ?p \<le> length out" "wp_crypto ?p = Some a" "wp_receiver_cert ?p = Some cb"
    "oaep_inverse (rsa_encrypt a (wp_policy ?p) cb) (rsa_decrypt b policy)"
    using cap inv by simp_all
  obtain uri thumb sl2 sig pad cs n H where
    uri: "mu_security_policy_uri policy = Some uri" and th: "mu_certificate_thumbprint (Some a) (Some cb) = Inr thumb" and
    fit: "field_fits (Some ca)" "field_fits (Some thumb)" and
    sl2: "key_bytes a ca = Inr sl2" "length sig = sl2" "pad = asym_pad policy kb sl2 (length body)" and
    H: "H = asym_header tot scid uri (cert_field (Some ca)) (cert_field (Some thumb))" and
    sg: "rsa_sign a policy (H @ rsa_payload sq rid body pad) 512 = Inr sig" and
    tk: "take tot out' = H @ cs" and tot: "tot = length H + length cs" "tot < 2 ^ 32" "tot \<le> length out" and
    lim: "length H + 9 + length body + pad \<le> 4096" and cs: "length cs = n * kb" "0 < n" and
    dec: "decrypt_unwrap_loop (rsa_decrypt b policy) kb n cs [] = Inr (rsa_payload sq rid body pad @ sig)"
    by (rule wrap_rsa_success [OF W W2(1-3) own(1) ka kbb W2(4), unfolded mu_asym_wrap_params.select_convs])
  have sl': "length sig = sig_len" and pad: "pad = asym_pad policy kb sig_len (length body)"
    using sl2 kb(1) same by simp_all
  have "unwrap_rsa b (header_info policy scid (Some ca)) (H @ cs) (length H) tot (cert_field (Some thumb)) ob cap =
      extract_unwrap_payload (rsa_payload sq rid body pad @ sig) (9 + length body + pad) ob cap (header_info policy scid (Some ca))"
  proof -
    have n: "n * kb div kb = n" "n * kb \<noteq> 0" using kbb(1) cs(2) by auto
    have "rsa_verify b policy ca (H @ rsa_payload sq rid body pad) sig = MU_STATUS_GOOD" using sgn [OF sg] .
    then have "verify_unwrap_signature b (header_info policy scid (Some ca)) (H @ cs) (length H) (rsa_payload sq rid body pad @ sig)
        (9 + length body + pad) sig = MU_STATUS_GOOD"
      using lim by (simp add: verify_unwrap_signature_def header_info_def)
    then show ?thesis
      using fam valid(1) own(2) thumbprints_agreeD [OF thumbs th] thumbprint_matches_self kb tot(1) cs(1) dec n sl'
      by (auto simp: unwrap_rsa_def header_info_def rsa_family decrypt_unwrap_blocks_def Let_def)
  qed
  also have "\<dots> = (if length bd > cap then Inl MU_STATUS_BAD_RESPONSETOOLARGE
     else Inr ((header_info policy scid (Some ca))\<lparr>ai_sequence_number := sq, ai_request_id := rid\<rparr>, put_at 0 bd ob, length bd))"
    unfolding bd pad by (rule extract_padded [OF refl refl])
  finally show "mu_asym_chunk_unwrap \<lparr>up_crypto = Some b, up_chunk = Some (take tot out'), up_chunk_len = tot, up_out_body = Some ob,
       up_out_cap = cap, up_scratch_len = sl\<rparr> =
    (if length bd > cap then Inl MU_STATUS_BAD_RESPONSETOOLARGE
     else Inr (\<lparr>ai_policy = policy, ai_secure_channel_id = scid, ai_sequence_number = sq, ai_request_id = rid, ai_sender_cert = Some ca\<rparr>,
               put_at 0 bd ob, length bd))"
    unfolding tk using unwrap_dispatch [OF uri fit _ H, of cs] tot ne ca sl by (simp add: unwrap_payload_def header_info_def)
  show "length (take tot out') = tot" unfolding tk using tot(1) by simp
qed

section \<open>Cleartext and elliptic-curve chunks\<close>

lemma clear_payload_on:
  assumes "hdr_len = length H" "body_end = length H + 8 + length body"
  shows "clear_payload (H @ mu_binary_le_put_u32 sq @ mu_binary_le_put_u32 rid @ body @ rest) hdr_len body_end ob cap info =
    (if length body > cap then Inl MU_STATUS_BAD_RESPONSETOOLARGE
     else Inr (info\<lparr>ai_sequence_number := sq, ai_request_id := rid\<rparr>, put_at 0 body ob, length body))"
  using assms by (simp add: clear_payload_def mu_checked_memcpy_def slice_def)

lemma clear_header_written:
  assumes wr: "wr_seq (asym_write_header policy scid sender thumb) (wr_seq (mu_binary_write_uint32 sq) (mu_binary_write_uint32 rid))
      (mu_binary_writer_init (Some out) out_cap) = (MU_STATUS_GOOD, w)" and cap: "out_cap \<le> length out"
  obtains uri h where "mu_security_policy_uri policy = Some uri" "field_fits sender" "field_fits thumb"
    "h = asym_header 0 scid uri (cert_field sender) (cert_field thumb)" "length h + 8 \<le> out_cap"
    "wr_buffer w = Some (put_at 0 (h @ mu_binary_le_put_u32 sq @ mu_binary_le_put_u32 rid) out)"
    "wr_position w = length h + 8"
proof -
  obtain w1 where w1: "asym_write_header policy scid sender thumb (mu_binary_writer_init (Some out) out_cap) = (MU_STATUS_GOOD, w1)"
    and w: "wr_seq (mu_binary_write_uint32 sq) (mu_binary_write_uint32 rid) w1 = (MU_STATUS_GOOD, w)"
    by (rule wr_seq_GOOD_D [OF wr])
  obtain uri h where uri: "mu_security_policy_uri policy = Some uri" "field_fits sender" "field_fits thumb" and
    h: "h = asym_header 0 scid uri (cert_field sender) (cert_field thumb)" "length h \<le> out_cap" and
    w1': "w1 = (mu_binary_writer_init (Some out) out_cap)\<lparr>wr_buffer := Some (put_at 0 h out), wr_position := length h\<rparr>"
    by (rule asym_header_written [OF w1 cap])
  let ?bs = "mu_binary_le_put_u32 sq @ mu_binary_le_put_u32 rid"
  have enc: "encodes (wr_seq (mu_binary_write_uint32 sq) (mu_binary_write_uint32 rid)) ?bs"
    by (intro encodes_seq encodes_primitives)
  have w1'': "wr_buffer w1 = Some (put_at 0 h out)" "wr_status w1 = MU_STATUS_GOOD" "wf_writer w1"
    "wr_position w1 = length h" "wr_length w1 = out_cap"
    using w1' h(2) cap by (simp_all add: wf_writer_def mu_binary_writer_init_def)
  have len: "length h + 8 \<le> out_cap" using encodes_too_big [OF enc w1''(1-3)] w w1''(4,5) by force
  then have "w = w1\<lparr>wr_buffer := Some (put_at (length h) ?bs (put_at 0 h out)), wr_position := length h + 8\<rparr>"
    using encodes_fits [OF enc w1''(1-3)] w w1''(4,5) by simp
  moreover have "put_at (length h) ?bs (put_at 0 h out) = put_at 0 (h @ ?bs) out"
    using len cap by (intro put_at_chain) simp_all
  ultimately show ?thesis using that [OF uri h(1) len] by simp
qed

lemma none_chunk_unwraps:
  assumes wrap: "wrap_none scid sq rid body out out_cap = Inr (tot, out')"
    and cap: "out_cap \<le> length out" and big: "out_cap < 2 ^ 32" and sl: "6144 \<le> sl"
  shows "mu_asym_chunk_unwrap \<lparr>up_crypto = Some b, up_chunk = Some (take tot out'), up_chunk_len = tot, up_out_body = Some ob,
       up_out_cap = cap, up_scratch_len = sl\<rparr> =
    (if length body > cap then Inl MU_STATUS_BAD_RESPONSETOOLARGE
     else Inr (\<lparr>ai_policy = MU_SECURITY_POLICY_NONE_ID, ai_secure_channel_id = scid, ai_sequence_number = sq,
       ai_request_id = rid, ai_sender_cert = None\<rparr>, put_at 0 body ob, length body))"
proof -
  obtain w out1 where w: "wr_seq (asym_write_header MU_SECURITY_POLICY_NONE_ID scid None None)
      (wr_seq (mu_binary_write_uint32 sq) (mu_binary_write_uint32 rid)) (mu_binary_writer_init (Some out) out_cap) = (MU_STATUS_GOOD, w)"
    and cp: "mu_checked_memcpy_off (the (wr_buffer w)) out_cap (wr_position w) body (length body) = Some out1"
    and res: "tot = wr_position w + length body" "out' = patch_message_size tot out1"
    using wrap by (auto simp: wrap_none_def Let_def split: prod.splits if_splits option.splits)
  obtain uri h where uri: "mu_security_policy_uri MU_SECURITY_POLICY_NONE_ID = Some uri" "field_fits None" "field_fits None" and
    h: "h = asym_header 0 scid uri (cert_field None) (cert_field None)" "length h + 8 \<le> out_cap" and
    wb: "wr_buffer w = Some (put_at 0 (h @ mu_binary_le_put_u32 sq @ mu_binary_le_put_u32 rid) out)" "wr_position w = length h + 8"
    by (rule clear_header_written [OF w cap])
  let ?r = "mu_binary_le_put_u32 sq @ mu_binary_le_put_u32 rid @ body"
  let ?H = "asym_header tot scid uri (cert_field None) (cert_field None)"
  have hH: "length ?H = length h" unfolding h by (rule length_asym_header_size)
  have fits: "length h + 8 + length body \<le> out_cap"
    using cp wb h(2) by (auto simp: mu_checked_memcpy_off_def split: if_splits)
  have "out1 = put_at (length h + 8) body (put_at 0 (h @ mu_binary_le_put_u32 sq @ mu_binary_le_put_u32 rid) out)"
    using cp wb by (auto simp: mu_checked_memcpy_off_def split: if_splits)
  also have "\<dots> = put_at 0 ((h @ mu_binary_le_put_u32 sq @ mu_binary_le_put_u32 rid) @ body) out"
    using fits cap by (intro put_at_chain) simp_all
  finally have "out' = put_at 0 (?H @ ?r) out"
    unfolding res(2) h(1) using fits cap unfolding h(1) by (subst patch_chunk [symmetric]) simp_all
  moreover have tot: "tot = length (?H @ ?r)" using res(1) wb(2) hH by simp
  ultimately have tk: "take tot out' = ?H @ ?r" by (simp add: put_at_0)
  have "tot < 2 ^ 32" using fits big tot hH by simp
  moreover have "tot = length ?H + 8 + length body" using tot by simp
  ultimately show ?thesis
    unfolding tk using unwrap_dispatch [OF uri _ refl tot _ refl sl, of b ob cap] clear_payload_on [OF refl, of tot ?H body sq rid "[]" ob cap]
    by (simp add: unwrap_payload_def header_info_def)
qed

definition ecc_peers :: "mu_security_policy_id \<Rightarrow> mu_asym_adapter \<Rightarrow> bytes \<Rightarrow> mu_asym_adapter \<Rightarrow> bytes \<Rightarrow> bool" where
  "ecc_peers policy a ca b cb \<longleftrightarrow>
     (\<exists>curve sign verify own_a own_b. mu_security_policy_ecc_curve policy = Some curve \<and>
        ecc_sign a = Some sign \<and> ecc_verify b = Some verify \<and>
        get_own_ecc_certificate a = Some own_a \<and> own_a curve = Inr ca \<and>
        get_own_ecc_certificate b = Some own_b \<and> own_b curve = Inr cb \<and> thumbprints_agree a b \<and>
        (\<forall>d cap s. sign curve d cap = Inr s \<longrightarrow> verify curve ca d s = MU_STATUS_GOOD))"

lemma ecc_chunk_unwraps:
  assumes fam: "mu_security_policy_asym_family policy = MU_ASYM_FAMILY_ECC"
    and peers: "ecc_peers policy a ca b cb"
    and valid: "mu_certificate_validate (Some b) policy (Some ca) = MU_STATUS_GOOD"
    and wrap: "wrap_ecc \<lparr>wp_crypto = Some a, wp_policy = policy, wp_secure_channel_id = scid, wp_sequence_number = sq,
       wp_request_id = rid, wp_receiver_cert = Some cb, wp_body = body, wp_out = Some out, wp_out_cap = out_cap\<rparr> out = Inr (tot, out')"
    and cap: "out_cap \<le> length out" and big: "out_cap < 2 ^ 32" and sl: "6144 \<le> sl"
  shows "mu_asym_chunk_unwrap \<lparr>up_crypto = Some b, up_chunk = Some (take tot out'), up_chunk_len = tot, up_out_body = Some ob,
       up_out_cap = cap, up_scratch_len = sl\<rparr> =
    (if length body > cap then Inl MU_STATUS_BAD_RESPONSETOOLARGE
     else Inr (\<lparr>ai_policy = policy, ai_secure_channel_id = scid, ai_sequence_number = sq,
       ai_request_id = rid, ai_sender_cert = Some ca\<rparr>, put_at 0 body ob, length body))"
proof -
  obtain curve sign verify own_a own_b where curve: "mu_security_policy_ecc_curve policy = Some curve" and
    ab: "ecc_sign a = Some sign" "ecc_verify b = Some verify" "get_own_ecc_certificate a = Some own_a" "own_a curve = Inr ca"
      "get_own_ecc_certificate b = Some own_b" "own_b curve = Inr cb" and thumbs: "thumbprints_agree a b" and
    sgn: "\<And>d n s. sign curve d n = Inr s \<Longrightarrow> verify curve ca d s = MU_STATUS_GOOD"
    using peers by (auto simp: ecc_peers_def)
  have ne: "policy \<noteq> MU_SECURITY_POLICY_NONE_ID" using curve by (auto simp: mu_security_policy_ecc_curve_def POLICY_TABLE_def)
  obtain thumb w out1 sig where th: "mu_certificate_thumbprint (Some a) (Some cb) = Inr thumb"
    and w: "wr_seq (asym_write_header policy scid (Some ca) (Some thumb))
      (wr_seq (mu_binary_write_uint32 sq) (mu_binary_write_uint32 rid)) (mu_binary_writer_init (Some out) out_cap) = (MU_STATUS_GOOD, w)"
    and cp: "mu_checked_memcpy_off (the (wr_buffer w)) out_cap (wr_position w) body (length body) = Some out1"
    and sg: "sign curve (take (wr_position w + length body) (patch_message_size tot out1)) 64 = Inr sig" "length sig = 64"
    and res: "tot = wr_position w + length body + 64" "tot \<le> out_cap" "out' = put_at (wr_position w + length body) sig (patch_message_size tot out1)"
    using wrap curve ab by (auto simp: wrap_ecc_def Let_def split: prod.splits if_splits option.splits sum.splits)
  obtain uri h where uri: "mu_security_policy_uri policy = Some uri" "field_fits (Some ca)" "field_fits (Some thumb)" and
    h: "h = asym_header 0 scid uri (cert_field (Some ca)) (cert_field (Some thumb))" "length h + 8 \<le> out_cap" and
    wb: "wr_buffer w = Some (put_at 0 (h @ mu_binary_le_put_u32 sq @ mu_binary_le_put_u32 rid) out)" "wr_position w = length h + 8"
    by (rule clear_header_written [OF w cap])
  let ?r = "mu_binary_le_put_u32 sq @ mu_binary_le_put_u32 rid @ body"
  let ?H = "asym_header tot scid uri (cert_field (Some ca)) (cert_field (Some thumb))"
  have hH: "length ?H = length h" unfolding h by (rule length_asym_header_size)
  have fits: "length h + 8 + length body + 64 \<le> length out" using res(1,2) wb(2) cap by simp
  have "out1 = put_at (length h + 8) body (put_at 0 (h @ mu_binary_le_put_u32 sq @ mu_binary_le_put_u32 rid) out)"
    using cp wb by (auto simp: mu_checked_memcpy_off_def split: if_splits)
  also have "\<dots> = put_at 0 ((h @ mu_binary_le_put_u32 sq @ mu_binary_le_put_u32 rid) @ body) out"
    using fits by (intro put_at_chain) simp_all
  finally have p: "patch_message_size tot out1 = put_at 0 (?H @ ?r) out"
    unfolding h(1) using fits unfolding h(1) by (subst patch_chunk [symmetric]) simp_all
  have len: "length (?H @ ?r) = wr_position w + length body" using wb(2) hH by simp
  have "out' = put_at 0 ((?H @ ?r) @ sig) out"
    unfolding res(3) p using len fits wb(2) sg(2) by (intro put_at_chain) simp_all
  moreover have tot: "tot = length (?H @ ?r @ sig)" using res(1) len sg(2) by simp
  ultimately have tk: "take tot out' = ?H @ ?r @ sig" by (simp add: put_at_0)
  have vf: "verify curve ca (?H @ ?r) sig = MU_STATUS_GOOD"
    using sgn [OF sg(1)] unfolding p len [symmetric] by (simp add: take_put_at_0)
  have "tot < 2 ^ 32" using res(2) big by simp
  moreover have "ca \<noteq> []" using certificate_validD [OF valid ne] by blast
  moreover have "unwrap_ecc b (header_info policy scid (Some ca)) (?H @ ?r @ sig) (length ?H) tot (cert_field (Some thumb)) ob cap =
     clear_payload (?H @ ?r @ sig) (length ?H) (tot - 64) ob cap (header_info policy scid (Some ca))"
  proof -
    have "take (tot - 64) (?H @ ?r @ sig) = ?H @ ?r" "slice (tot - 64) 64 (?H @ ?r @ sig) = sig"
      using tot sg(2) by (simp_all add: slice_def)
    then show ?thesis
      using curve ab valid thumbprints_agreeD [OF thumbs th] thumbprint_matches_self vf tot sg(2)
      by (simp add: unwrap_ecc_def header_info_def)
  qed
  moreover have "tot - 64 = length ?H + 8 + length body" using tot sg(2) by simp
  ultimately show ?thesis
    unfolding tk using unwrap_dispatch [OF uri _ refl tot _ refl sl, of b ob cap] fam ne
      clear_payload_on [OF refl, of "tot - 64" ?H body sq rid sig ob cap]
    by (simp add: unwrap_payload_def header_info_def)
qed

section \<open>Wrapping succeeds\<close>

lemma asym_header_fits:
  assumes uri: "mu_security_policy_uri policy = Some uri" and fit: "field_fits sender" "field_fits thumb"
    and h: "h = asym_header 0 scid uri (cert_field sender) (cert_field thumb)" "length h \<le> out_cap" and cap: "out_cap \<le> length out"
  shows "asym_write_header policy scid sender thumb (mu_binary_writer_init (Some out) out_cap) =
    (MU_STATUS_GOOD, (mu_binary_writer_init (Some out) out_cap)\<lparr>wr_buffer := Some (put_at 0 h out), wr_position := length h\<rparr>)"
proof -
  let ?bs = "mu_binary_le_put_u32 0 @ mu_binary_le_put_u32 scid @ enc_string (mk_string uri) @
     enc_string (cert_field sender) @ enc_string (cert_field thumb)"
  let ?w1 = "(mu_binary_writer_init (Some out) out_cap)\<lparr>wr_buffer := Some (put_at 0 (cstr ''OPNF'') out), wr_position := 4\<rparr>"
  have len: "length h = 4 + length ?bs" by (simp add: h asym_header_def)
  have wf: "wf_writer ?w1" using len h(2) cap by (simp add: wf_writer_def mu_binary_writer_init_def)
  have "put_at 4 ?bs (put_at 0 (cstr ''OPNF'') out) = put_at 0 h out"
    using len h(2) cap by (subst put_at_chain) (simp_all add: h(1) asym_header_def)
  then show ?thesis
    using encodes_fits [OF encodes_header_fields [OF _ fit, of uri scid], of ?w1 "put_at 0 (cstr ''OPNF'') out"]
      policy_uri_short [OF uri] wf len h(2)
    by (simp add: asym_write_header_def uri wr_seq_def [of put_message_type] put_message_type_def mu_binary_writer_init_def)
qed

lemma encrypt_loop_succeeds:
  assumes "\<And>m. length m = pb \<Longrightarrow> \<exists>c. enc m cb = Inr c \<and> length c = cb"
  shows "n * pb \<le> length plain \<Longrightarrow> \<exists>out'. encrypt_wrap_loop enc pb cb n plain pos out = Inr out'"
proof (induction n arbitrary: plain pos out)
  case (Suc n)
  then obtain c where "enc (take pb plain) cb = Inr c" "length c = cb"
    using assms [of "take pb plain"] by auto
  then show ?case using Suc.IH [of "drop pb plain"] Suc.prems by simp
qed simp

lemma wrap_rsa_succeeds:
  assumes fam: "mu_security_policy_asym_family policy = MU_ASYM_FAMILY_RSA"
    and own: "get_own_certificate a = Inr ca" "key_bytes a ca = Inr sig_len" "sig_len \<le> 512" "field_fits (Some ca)"
    and rcv: "cb \<noteq> []" "key_bytes a cb = Inr kb" "256 \<le> kb" "kb \<le> 512"
      "mu_certificate_thumbprint (Some a) (Some cb) = Inr thumb" "length thumb = 20"
    and sgn: "\<And>d. \<exists>s. rsa_sign a policy d 512 = Inr s \<and> length s = sig_len"
    and enc: "\<And>m. length m = plain_block_of policy kb \<Longrightarrow> \<exists>c. rsa_encrypt a policy cb m kb = Inr c \<and> length c = kb"
    and uri: "mu_security_policy_uri policy = Some uri"
    and h: "hl = length (asym_header 0 scid uri (cert_field (Some ca)) (cert_field (Some thumb)))"
    and pad: "pad = asym_pad policy kb sig_len (length body)"
    and lim: "9 + length body + sig_len + pad \<le> 2048" "hl + 9 + length body + pad \<le> 4096"
      "hl + (9 + length body + sig_len + pad) div plain_block_of policy kb * kb \<le> out_cap" "out_cap \<le> length out"
  shows "\<exists>tot out'. mu_asym_chunk_wrap \<lparr>wp_crypto = Some a, wp_policy = policy, wp_secure_channel_id = scid, wp_sequence_number = sq,
       wp_request_id = rid, wp_receiver_cert = Some cb, wp_body = body, wp_out = Some out, wp_out_cap = out_cap\<rparr> = Inr (tot, out')"
proof -
  let ?pb = "plain_block_of policy kb"
  have ne: "policy \<noteq> MU_SECURITY_POLICY_NONE_ID" "mu_security_policy_asym_family policy \<noteq> MU_ASYM_FAMILY_ECC"
    using fam rsa_family [of policy] by auto
  have pb: "0 < ?pb" using plain_block_bounds(1) [OF rcv(3,4), of policy] by simp
  have fit: "field_fits (Some thumb)" using rcv(6) by (simp add: field_fits_def)
  have hl: "hl \<le> out_cap" using lim(3) by simp
  note wh = asym_header_fits [OF uri own(4) fit refl hl [unfolded h] lim(4)]
  have pd: "(?pb - (8 + length body + 1 + sig_len) mod ?pb) mod ?pb = pad" unfolding pad asym_pad_def Let_def ..
  have sz: "compute_wrap_sizes (length body) sig_len ?pb kb hl out_cap =
     Inr (8 + length body + 1 + pad, 8 + length body + 1 + sig_len + pad,
          (8 + length body + 1 + sig_len + pad) div ?pb * kb, hl + (8 + length body + 1 + sig_len + pad) div ?pb * kb)"
    using lim unfolding compute_wrap_sizes_def Let_def pd by simp
  have sg: "\<exists>sig out1. sign_wrap_payload a policy sq rid body out0 hl (8 + length body + 1 + pad) sig_len =
      Inr (rsa_payload sq rid body pad @ sig, out1) \<and> length sig = sig_len" for out0
    using sgn own(3) lim(2) unfolding sign_wrap_payload_def Let_def
    by (auto simp: rsa_payload_def [symmetric] split: sum.splits) (metis Inl_Inr_False Inr_inject)+
  have en: "\<exists>out'. encrypt_wrap_blocks a policy cb plain ?pb kb (8 + length body + 1 + sig_len + pad) out1 hl = Inr out'"
    if "length plain = 9 + length body + pad + sig_len" for plain out1
    unfolding encrypt_wrap_blocks_def using enc that by (intro encrypt_loop_succeeds) (simp_all add: ac_simps)
  define tot where "tot = hl + (8 + length body + 1 + sig_len + pad) div ?pb * kb"
  define out0 where "out0 = put_at 0 (asym_header 0 scid uri (cert_field (Some ca)) (cert_field (Some thumb))) out"
  obtain sig out1 where s1: "sign_wrap_payload a policy sq rid body (patch_message_size tot out0) hl (8 + length body + 1 + pad) sig_len =
      Inr (rsa_payload sq rid body pad @ sig, out1)" "length sig = sig_len"
    using sg by blast
  obtain out' where e1: "encrypt_wrap_blocks a policy cb (rsa_payload sq rid body pad @ sig) ?pb kb (8 + length body + 1 + sig_len + pad)
      out1 hl = Inr out'"
    using en [of "rsa_payload sq rid body pad @ sig"] s1(2) by fastforce
  have bh: "build_wrap_header a policy scid cb out out_cap = Inr (hl, sig_len, ?pb, kb, out0)"
    using own rcv wh by (simp add: build_wrap_header_def mu_binary_writer_init_def h out0_def)
  have v: "validate_wrap_policy (Some a) policy (Some cb) = MU_STATUS_GOOD"
    using fam rcv(1) by (auto simp: validate_wrap_policy_def rsa_family present_def)
  have "mu_asym_chunk_wrap \<lparr>wp_crypto = Some a, wp_policy = policy, wp_secure_channel_id = scid, wp_sequence_number = sq,
       wp_request_id = rid, wp_receiver_cert = Some cb, wp_body = body, wp_out = Some out, wp_out_cap = out_cap\<rparr> = Inr (tot, out')"
    unfolding mu_asym_chunk_wrap_def wrap_rsa_def Let_def mu_asym_wrap_params.select_convs option.sel v
    using ne s1(1) e1 sz by (simp add: bh tot_def)
  then show ?thesis by blast
qed


section \<open>What an accepted chunk has passed\<close>

lemma clear_payload_D:
  assumes "clear_payload chunk h e ob cap info = Inr (info', ob', len)"
  shows "len = e - h - 8" "len \<le> cap" "ob' = put_at 0 (slice (h + 8) len chunk) ob"
    "ai_policy info' = ai_policy info" "ai_sender_cert info' = ai_sender_cert info"
    "ai_sequence_number info' = mu_binary_le_get_u32 (slice h 4 chunk)"
    "ai_request_id info' = mu_binary_le_get_u32 (slice (h + 4) 4 chunk)"
  using assms by (auto simp: clear_payload_def mu_checked_memcpy_def Let_def slice_def split: if_splits)

lemma extract_D:
  assumes "extract_unwrap_payload plain signed_len ob cap info = Inr (info', ob', len)"
  shows "8 + len \<le> signed_len" "len \<le> cap" "ob' = put_at 0 (slice 8 len plain) ob"
    "ai_policy info' = ai_policy info" "ai_sender_cert info' = ai_sender_cert info"
    "ai_sequence_number info' = mu_binary_le_get_u32 (take 4 plain)"
    "ai_request_id info' = mu_binary_le_get_u32 (slice 4 4 plain)"
  using assms by (auto simp: extract_unwrap_payload_def mu_checked_memcpy_def Let_def slice_def split: if_splits)

text \<open>The payload behind the header and the signature at its end, as received or as decrypted.\<close>

definition opn_payload :: "mu_asym_adapter \<Rightarrow> mu_security_policy_id \<Rightarrow> bytes \<Rightarrow> bytes \<Rightarrow> nat \<Rightarrow> nat \<Rightarrow> bytes \<Rightarrow> bytes \<Rightarrow> bool" where
  "opn_payload b policy sender chunk h m payload sig \<longleftrightarrow>
    (if mu_security_policy_asym_family policy = MU_ASYM_FAMILY_ECC then
       payload @ sig = slice h (m - h) chunk \<and> length sig = 64
     else (\<exists>own kb. get_own_certificate b = Inr own \<and> key_bytes b own = Inr kb \<and>
       decrypt_unwrap_blocks b policy chunk h kb (m - h) = Inr (payload @ sig) \<and> key_bytes b sender = Inr (length sig)))"

definition signature_accepted :: "mu_asym_adapter \<Rightarrow> mu_security_policy_id \<Rightarrow> bytes \<Rightarrow> bytes \<Rightarrow> bytes \<Rightarrow> bool" where
  "signature_accepted b policy sender covered sig \<longleftrightarrow>
    (if mu_security_policy_asym_family policy = MU_ASYM_FAMILY_ECC then
       (\<exists>curve verify. mu_security_policy_ecc_curve policy = Some curve \<and> ecc_verify b = Some verify \<and>
          verify curve sender covered sig = MU_STATUS_GOOD)
     else mu_security_policy_asym_family policy = MU_ASYM_FAMILY_RSA \<and> rsa_verify b policy sender covered sig = MU_STATUS_GOOD)"

text \<open>The sequence header and the body of an accepted chunk, by the payload.\<close>

definition opn_content :: "bytes \<Rightarrow> mu_asym_chunk_info \<Rightarrow> bytes \<Rightarrow> nat \<Rightarrow> bool" where
  "opn_content payload info body len \<longleftrightarrow> 8 + len \<le> length payload \<and>
    ai_sequence_number info = mu_binary_le_get_u32 (take 4 payload) \<and>
    ai_request_id info = mu_binary_le_get_u32 (slice 4 4 payload) \<and> take len body = slice 8 len payload"

lemma unwrap_rsa_D:
  assumes u: "unwrap_rsa b info chunk h m thumb ob cap = Inr (info', ob', len)" and cap: "cap \<le> length ob"
    and fam: "mu_security_policy_asym_family (ai_policy info) \<noteq> MU_ASYM_FAMILY_ECC"
  defines "sender \<equiv> the (ai_sender_cert info)"
  obtains payload sig where "mu_certificate_validate (Some b) (ai_policy info) (ai_sender_cert info) = MU_STATUS_GOOD"
    "opn_payload b (ai_policy info) sender chunk h m payload sig"
    "signature_accepted b (ai_policy info) sender (take h chunk @ payload) sig" "opn_content payload info' ob' len"
    "ai_policy info' = ai_policy info" "ai_sender_cert info' = ai_sender_cert info" "len \<le> cap"
proof -
  obtain own kb plain n where v: "mu_certificate_validate (Some b) (ai_policy info) (ai_sender_cert info) = MU_STATUS_GOOD"
    and own: "get_own_certificate b = Inr own" "key_bytes b own = Inr kb" "key_bytes b sender = Inr n"
    and pl: "decrypt_unwrap_blocks b (ai_policy info) chunk h kb (m - h) = Inr plain" "\<not> length plain < n + 1 + 8"
    and sg: "mu_security_policy_asym_family (ai_policy info) = MU_ASYM_FAMILY_RSA"
      "rsa_verify b (ai_policy info) sender (take h chunk @ take (length plain - n) plain) (drop (length plain - n) plain) = MU_STATUS_GOOD"
    and ex: "extract_unwrap_payload plain (length plain - n) ob cap info = Inr (info', ob', len)"
    using u unfolding unwrap_rsa_def verify_unwrap_signature_def Let_def sender_def
    by (auto simp: rsa_family split: if_splits sum.splits)
  let ?p = "take (length plain - n) plain" and ?s = "drop (length plain - n) plain"
  note e = extract_D [OF ex]
  have "opn_payload b (ai_policy info) sender chunk h m ?p ?s" "signature_accepted b (ai_policy info) sender (take h chunk @ ?p) ?s"
    using fam own pl sg by (simp_all add: opn_payload_def signature_accepted_def)
  moreover have "opn_content ?p info' ob' len"
    using e(1-3,6,7) cap by (simp add: opn_content_def put_at_0 drop_take min_absorb1 slice_def)
  ultimately show ?thesis using that v e(2,4,5) by blast
qed

lemma unwrap_ecc_D:
  assumes u: "unwrap_ecc b info chunk h m thumb ob cap = Inr (info', ob', len)" and n: "m \<le> length chunk" and cap: "cap \<le> length ob"
    and fam: "mu_security_policy_asym_family (ai_policy info) = MU_ASYM_FAMILY_ECC"
  defines "sender \<equiv> the (ai_sender_cert info)"
  obtains payload sig where "mu_certificate_validate (Some b) (ai_policy info) (ai_sender_cert info) = MU_STATUS_GOOD"
    "opn_payload b (ai_policy info) sender chunk h m payload sig"
    "signature_accepted b (ai_policy info) sender (take h chunk @ payload) sig" "opn_content payload info' ob' len"
    "ai_policy info' = ai_policy info" "ai_sender_cert info' = ai_sender_cert info" "len \<le> cap"
proof -
  obtain curve verify where v: "mu_security_policy_ecc_curve (ai_policy info) = Some curve" "ecc_verify b = Some verify"
    "mu_certificate_validate (Some b) (ai_policy info) (ai_sender_cert info) = MU_STATUS_GOOD"
    and m: "h + 72 \<le> m" and sg: "verify curve sender (take (m - 64) chunk) (slice (m - 64) 64 chunk) = MU_STATUS_GOOD"
    and ex: "clear_payload chunk h (m - 64) ob cap info = Inr (info', ob', len)"
    using u unfolding unwrap_ecc_def Let_def sender_def
    by (auto simp: not_less split: if_splits sum.splits option.splits)
  let ?p = "slice h (m - 64 - h) chunk" and ?s = "slice (m - 64) 64 chunk"
  note e = clear_payload_D [OF ex]
  have k: "m - h = (m - 64 - h) + 64" "h + (m - 64 - h) = m - 64" "m - 64 = h + (m - 64 - h)"
    "h + (m - (h + 64)) = m - 64" using m by simp_all
  have "?p @ ?s = slice h (m - h) chunk" unfolding slice_def k(1) take_add drop_drop by (simp add: k(4) add.commute)
  then have "opn_payload b (ai_policy info) sender chunk h m ?p ?s" using fam m n by (simp add: opn_payload_def)
  moreover have "take h chunk @ ?p = take (m - 64) chunk" unfolding slice_def by (subst k(3), subst take_add) simp
  then have "signature_accepted b (ai_policy info) sender (take h chunk @ ?p) ?s" using fam v(1,2) sg by (simp add: signature_accepted_def)
  moreover have "opn_content ?p info' ob' len"
    using e(1-3,6,7) m n cap by (simp add: opn_content_def put_at_0 slice_def drop_take min_absorb1 add.commute)
  ultimately show ?thesis using that v(3) e(2,4,5) by blast
qed

lemma reader_op_asym_header: "reader_op read_asym_header"
  unfolding read_asym_header_def by (intro decoder_intros)

lemma header_position:
  assumes rd: "read_asym_header ((mu_binary_reader_init (Some chunk) m)\<lparr>rd_position := 8\<rparr>) = (Inr v, r)"
  shows "rd_position r \<le> m"
proof -
  let ?r = "(mu_binary_reader_init (Some chunk) m)\<lparr>rd_position := 8\<rparr>"
  have "8 \<le> m"
    using rd by (auto simp: read_asym_header_def rd_bind_def mu_binary_read_uint32_def ensure_bytes_def reader_fail_def
        mu_binary_reader_init_def split: if_splits)
  then show ?thesis
    using reader_op.in_bounds [OF reader_op_asym_header, of ?r] rd by (simp add: mu_binary_reader_init_def)
qed

text \<open>
  The header of an OPN chunk by its bytes: behind the channel id at offset 8 stand three fields, each a
  length of four bytes and that many bytes of content (none for a null field): the policy URI, the
  sender's certificate and the receiver's thumbprint.
\<close>

definition field_length :: "bytes \<Rightarrow> nat \<Rightarrow> nat" where
  "field_length chunk p = nat (sint (mu_binary_le_get_u32 (slice p 4 chunk)))"

definition field_end :: "bytes \<Rightarrow> nat \<Rightarrow> nat" where
  "field_end chunk p = p + 4 + field_length chunk p"

definition opn_header_length :: "bytes \<Rightarrow> nat" where
  "opn_header_length chunk = field_end chunk (field_end chunk (field_end chunk 12))"

definition opn_sender_cert :: "bytes \<Rightarrow> bytes option" where
  "opn_sender_cert chunk =
    (let p = field_end chunk 12 in if field_length chunk p = 0 then None else Some (slice (p + 4) (field_length chunk p) chunk))"

lemma read_asym_header_value:
  assumes "read_asym_header ((mu_binary_reader_init (Some chunk) m)\<lparr>rd_position := 8\<rparr>) = (Inr (scid, uri, cert, thumb), r)"
  shows "rd_position r = opn_header_length chunk"
    "(if 0 < sint (str_length cert) then str_data cert else None) = opn_sender_cert chunk"
proof -
  let ?r = "(mu_binary_reader_init (Some chunk) m)\<lparr>rd_position := 8\<rparr>"
  have i: "rd_buffer ?r = Some chunk" "rd_position ?r = 8" by (simp_all add: mu_binary_reader_init_def)
  obtain r1 r2 r3 where s: "mu_binary_read_uint32 ?r = (Inr scid, r1)" "mu_binary_read_string r1 = (Inr uri, r2)"
    "mu_binary_read_string r2 = (Inr cert, r3)" "mu_binary_read_string r3 = (Inr thumb, r)"
    using assms unfolding read_asym_header_def mu_binary_read_bytestring_def
    by (elim rd_bind_InrE) (auto simp: rd_return_def)
  note v1 = read_u32_value [OF i(1) s(1)]
  note v2 = read_string_value [OF v1(3) s(2)]
  note v3 = read_string_value [OF v2(3) s(3)]
  note v4 = read_string_value [OF v3(3) s(4)]
  have p: "rd_position r1 = 12" "rd_position r2 = field_end chunk 12" "rd_position r3 = field_end chunk (field_end chunk 12)"
    using i(2) v1(2) v2(2) v3(2) by (simp_all add: field_end_def field_length_def)
  show "rd_position r = opn_header_length chunk" using v4(2) p(3) by (simp add: opn_header_length_def field_end_def field_length_def)
  show "(if 0 < sint (str_length cert) then str_data cert else None) = opn_sender_cert chunk"
    using v3(1,4) p(2) by (auto simp: opn_sender_cert_def field_length_def Let_def)
qed

lemma asym_unwrap_parts:
  assumes unwrap: "mu_asym_chunk_unwrap \<lparr>up_crypto = Some b, up_chunk = Some chunk, up_chunk_len = n, up_out_body = Some ob,
       up_out_cap = cap, up_scratch_len = sl\<rparr> = Inr (info, ob', len)"
  defines "m \<equiv> unat (mu_binary_le_get_u32 (slice 4 4 chunk))" and "h \<equiv> opn_header_length chunk"
  obtains info0 thumb where "h \<le> m" "m \<le> n" "ai_sender_cert info0 = opn_sender_cert chunk"
    "unwrap_payload b info0 chunk h m thumb ob cap = Inr (info, ob', len)"
proof -
  obtain scid uri cert thumb r where
    rd: "read_asym_header ((mu_binary_reader_init (Some chunk) m)\<lparr>rd_position := 8\<rparr>) = (Inr (scid, uri, cert, thumb), r)"
    and m: "m \<le> n"
    using unwrap by (auto simp: mu_asym_chunk_unwrap_def Let_def m_def split: if_splits prod.splits sum.splits)
  note hv = read_asym_header_value [OF rd, folded h_def]
  have h: "h \<le> m" using header_position [OF rd] hv(1) by simp
  define info0 where "info0 = \<lparr>ai_policy = mu_security_policy_from_uri (str_data uri)
      (if 0 < sint (str_length uri) then unat (str_length uri) else 0), ai_secure_channel_id = scid, ai_sequence_number = 0,
      ai_request_id = 0, ai_sender_cert = (if 0 < sint (str_length cert) then str_data cert else None)\<rparr>"
  have c0: "ai_sender_cert info0 = opn_sender_cert chunk" using hv(2) by (simp add: info0_def)
  have res: "unwrap_payload b info0 chunk h m thumb ob cap = Inr (info, ob', len)"
    using unwrap rd hv(1) by (simp add: mu_asym_chunk_unwrap_def Let_def m_def [symmetric] info0_def split: if_split_asm)
  show ?thesis by (rule that [OF h m c0 res])
qed

section \<open>Main properties\<close>

text \<open>
  Two applications that can exchange OPN chunks under a policy.  Under RSA both certificates pass the
  policy's checks and the receiver's key has 2048 bits.
\<close>

definition opn_peers :: "mu_security_policy_id \<Rightarrow> mu_asym_adapter \<Rightarrow> bytes \<Rightarrow> mu_asym_adapter \<Rightarrow> bytes \<Rightarrow> bool" where
  "opn_peers policy a ca b cb \<longleftrightarrow>
    (case mu_security_policy_asym_family policy of
       MU_ASYM_FAMILY_NONE \<Rightarrow> policy = MU_SECURITY_POLICY_NONE_ID
     | MU_ASYM_FAMILY_RSA \<Rightarrow> rsa_peers policy a ca b cb \<and>
         mu_certificate_validate (Some b) policy (Some ca) = MU_STATUS_GOOD \<and>
         mu_certificate_validate (Some b) policy (Some cb) = MU_STATUS_GOOD \<and> key_bytes b cb = Inr 256
     | MU_ASYM_FAMILY_ECC \<Rightarrow> ecc_peers policy a ca b cb \<and>
         mu_certificate_validate (Some b) policy (Some ca) = MU_STATUS_GOOD)"

lemma small_key_pad: "asym_pad policy 256 sig_len n div 256 = 0"
proof -
  have "asym_pad policy 256 sig_len n < plain_block_of policy 256"
    unfolding asym_pad_def Let_def using plain_block_bounds(1) [of 256 policy] by (intro mod_less_divisor) linarith
  then show ?thesis using plain_block_bounds(2) [of 256 policy] by simp
qed

text \<open>
  C30.  An OPN chunk wrapped by one application is unwrapped by the other to the same body, sequence
  number, request id, channel id and policy, with the sender's certificate, under every policy: None,
  the three RSA policies with a 2048-bit receiver key, and the two elliptic-curve policies.  Nothing of
  the padding or the signature reaches the body; a body larger than the output buffer is refused.
\<close>

theorem opn_chunk_roundtrip:
  assumes peers: "opn_peers policy a ca b cb"
    and wrap: "mu_asym_chunk_wrap \<lparr>wp_crypto = Some a, wp_policy = policy, wp_secure_channel_id = scid, wp_sequence_number = sq,
       wp_request_id = rid, wp_receiver_cert = Some cb, wp_body = body, wp_out = Some out, wp_out_cap = out_cap\<rparr> = Inr (tot, out')"
    and cap: "out_cap \<le> length out" "out_cap < 2 ^ 32" and sl: "6144 \<le> sl"
  shows "mu_asym_chunk_unwrap \<lparr>up_crypto = Some b, up_chunk = Some (take tot out'), up_chunk_len = tot, up_out_body = Some ob,
       up_out_cap = cap, up_scratch_len = sl\<rparr> =
    (if length body > cap then Inl MU_STATUS_BAD_RESPONSETOOLARGE
     else Inr (\<lparr>ai_policy = policy, ai_secure_channel_id = scid, ai_sequence_number = sq, ai_request_id = rid,
                ai_sender_cert = (if policy = MU_SECURITY_POLICY_NONE_ID then None else Some ca)\<rparr>,
               put_at 0 body ob, length body))"
proof (cases "mu_security_policy_asym_family policy")
  case MU_ASYM_FAMILY_NONE
  then have "policy = MU_SECURITY_POLICY_NONE_ID" using peers by (simp add: opn_peers_def)
  then show ?thesis using none_chunk_unwraps [OF _ cap sl, of scid sq rid body tot out' b ob "cap"] wrap
    by (simp add: mu_asym_chunk_wrap_def)
next
  case MU_ASYM_FAMILY_RSA
  then have p: "rsa_peers policy a ca b cb" "mu_certificate_validate (Some b) policy (Some ca) = MU_STATUS_GOOD"
    "mu_certificate_validate (Some b) policy (Some cb) = MU_STATUS_GOOD" "key_bytes b cb = Inr 256"
    using peers by (simp_all add: opn_peers_def)
  obtain sig_len where "key_bytes b ca = Inr sig_len"
    using key_bytes_valid [OF p(2) MU_ASYM_FAMILY_RSA] by blast
  moreover have "policy \<noteq> MU_SECURITY_POLICY_NONE_ID" using MU_ASYM_FAMILY_RSA by (auto simp: rsa_family)
  ultimately show ?thesis
    using rsa_chunk_unwraps(2) [OF MU_ASYM_FAMILY_RSA p(1-3) wrap cap(1) sl _ p(4) refl]
    by (simp add: small_key_pad)
next
  case MU_ASYM_FAMILY_ECC
  then have p: "ecc_peers policy a ca b cb" "mu_certificate_validate (Some b) policy (Some ca) = MU_STATUS_GOOD"
    using peers by (simp_all add: opn_peers_def)
  have ne: "policy \<noteq> MU_SECURITY_POLICY_NONE_ID"
    using MU_ASYM_FAMILY_ECC by (auto simp: mu_security_policy_asym_family_def POLICY_TABLE_def)
  then show ?thesis
    using ecc_chunk_unwraps [OF MU_ASYM_FAMILY_ECC p _ cap sl] wrap MU_ASYM_FAMILY_ECC by (simp add: mu_asym_chunk_wrap_def)
qed

text \<open>An adapter whose cipher stores the length of the plaintext and whose signatures are constant.\<close>

definition sample_encrypt :: encrypt_fn where
  "sample_encrypt cert m capacity =
    (if length m + 2 \<le> capacity \<and> length m < 65536
     then Inr (of_nat (length m mod 256) # of_nat (length m div 256) # m @ replicate (capacity - 2 - length m) 0)
     else Inl MU_STATUS_BAD_INTERNALERROR)"

definition sample_decrypt :: decrypt_fn where
  "sample_decrypt c capacity = Inr (take (unat (c ! 0) + 256 * unat (c ! 1)) (drop 2 c))"

definition sample_asym :: "nat \<Rightarrow> bytes \<Rightarrow> mu_asym_adapter" where
  "sample_asym bits own = \<lparr>
     rsa_sha256_sign = Some (\<lambda>d capacity. Inr (replicate (bits div 8) 7)), rsa_sha256_verify = Some (\<lambda>c d s. 0),
     rsa_oaep_decrypt = sample_decrypt, rsa_oaep_encrypt = sample_encrypt,
     rsa_pss_sha256_sign = Some (\<lambda>d capacity. Inr (replicate (bits div 8) 7)), rsa_pss_sha256_verify = Some (\<lambda>c d s. 0),
     rsa_oaep_sha256_decrypt = sample_decrypt, rsa_oaep_sha256_encrypt = sample_encrypt,
     get_own_certificate = Inr own, get_certificate_key_bits = Some (\<lambda>c. Inr bits),
     get_certificate_thumbprint = Some (\<lambda>c. Inr (replicate 20 (hd c))), verify_certificate_validity = Some (\<lambda>c. 0),
     verify_certificate_application_uri = None,
     ecc_sign = Some (\<lambda>curve d capacity. Inr (replicate 64 9)), ecc_verify = Some (\<lambda>curve c d s. 0),
     get_own_ecc_certificate = Some (\<lambda>curve. Inr own)\<rparr>"

lemma sample_oaep: "oaep_inverse (sample_encrypt cert) sample_decrypt"
proof -
  have "unat (of_nat (n mod 256) :: opcua_byte_t) + 256 * unat (of_nat (n div 256) :: opcua_byte_t) = n" if "n < 65536" for n
    using that by (simp add: unat_of_nat)
  then show ?thesis by (auto simp: oaep_inverse_def sample_encrypt_def sample_decrypt_def split: if_splits)
qed

lemma sample_rsa_peers:
  "mu_security_policy_asym_family policy = MU_ASYM_FAMILY_RSA \<Longrightarrow> rsa_peers policy (sample_asym bits ca) ca (sample_asym bits cb) cb"
  using sample_oaep
  by (auto simp: rsa_peers_def sample_asym_def thumbprints_agree_def rsa_sign_def rsa_verify_def rsa_encrypt_def rsa_decrypt_def)

lemma sample_valid:
  "mu_security_policy_asym_family policy = MU_ASYM_FAMILY_RSA \<Longrightarrow> 2048 \<le> bits \<Longrightarrow> bits \<le> 4096 \<Longrightarrow> c \<noteq> [] \<Longrightarrow>
   mu_certificate_validate (Some (sample_asym bits own)) policy (Some c) = MU_STATUS_GOOD"
  by (auto simp: mu_certificate_validate_def sample_asym_def present_def Let_def)

lemma sample_key_bytes: "2048 \<le> bits \<Longrightarrow> key_bytes (sample_asym bits own) c = Inr (bits div 8)"
  by (auto simp: key_bytes_def sample_asym_def)

lemma sample_header_length:
  "length (asym_header 0 scid POLICY_B256S256_URI (cert_field (Some [x])) (cert_field (Some (replicate 20 y)))) = 102"
  by (simp add: asym_header_def cert_field_simps)

lemma sample_opn_wrap:
  assumes bits: "bits = 2048 \<or> bits = 4096"
    and pad: "pad = asym_pad MU_SECURITY_POLICY_BASIC256SHA256_ID (bits div 8) (bits div 8) (length body)"
    and lim: "9 + length body + bits div 8 + pad \<le> 2048"
      "(9 + length body + bits div 8 + pad) div (bits div 8 - 42) * (bits div 8) \<le> 3000"
  shows "\<exists>tot out'. mu_asym_chunk_wrap \<lparr>wp_crypto = Some (sample_asym bits [1]), wp_policy = MU_SECURITY_POLICY_BASIC256SHA256_ID,
      wp_secure_channel_id = 5, wp_sequence_number = 51, wp_request_id = 7, wp_receiver_cert = Some [2], wp_body = body,
      wp_out = Some (replicate 4096 0), wp_out_cap = 4096\<rparr> = Inr (tot, out')"
proof -
  have pb: "plain_block_of MU_SECURITY_POLICY_BASIC256SHA256_ID (bits div 8) = bits div 8 - 42"
    by (simp add: plain_block_of_def)
  show ?thesis
    using bits lim
    by (intro wrap_rsa_succeeds [where sig_len = "bits div 8" and kb = "bits div 8" and ca = "[1]" and thumb = "replicate 20 2"
          and uri = POLICY_B256S256_URI and pad = pad and hl = 102])
      (auto simp: rsa_family sample_key_bytes field_fits_def mu_certificate_thumbprint_def present_def sample_asym_def
        rsa_sign_def rsa_encrypt_def sample_encrypt_def mu_security_policy_uri_def POLICY_TABLE_def
        sample_header_length pad pb key_bytes_def)
qed

theorem opn_chunk_roundtrip_witness:
  "\<exists>tot out'. mu_asym_chunk_unwrap \<lparr>up_crypto = Some (sample_asym 2048 [2]), up_chunk = Some (take tot out'), up_chunk_len = tot,
       up_out_body = Some (replicate 8 0), up_out_cap = 8, up_scratch_len = 6144\<rparr> =
     Inr (\<lparr>ai_policy = MU_SECURITY_POLICY_BASIC256SHA256_ID, ai_secure_channel_id = 5, ai_sequence_number = 51,
           ai_request_id = 7, ai_sender_cert = Some [1]\<rparr>, [10, 20, 30, 0, 0, 0, 0, 0], 3)"
proof -
  let ?P = MU_SECURITY_POLICY_BASIC256SHA256_ID
  have fam: "mu_security_policy_asym_family ?P = MU_ASYM_FAMILY_RSA" by (simp add: rsa_family)
  have peers: "opn_peers ?P (sample_asym 2048 [1]) [1] (sample_asym 2048 [2]) [2]"
    using sample_rsa_peers [OF fam, of 2048 "[1]" "[2]"] sample_valid [OF fam, of 2048] sample_key_bytes [of 2048 "[2]" "[2]"] fam
    by (simp add: opn_peers_def)
  obtain tot out' where w: "mu_asym_chunk_wrap \<lparr>wp_crypto = Some (sample_asym 2048 [1]), wp_policy = ?P,
      wp_secure_channel_id = 5, wp_sequence_number = 51, wp_request_id = 7, wp_receiver_cert = Some [2], wp_body = [10, 20, 30],
      wp_out = Some (replicate 4096 0), wp_out_cap = 4096\<rparr> = Inr (tot, out')"
    using sample_opn_wrap [OF _ refl, of 2048 "[10, 20, 30]"] by (auto simp: asym_pad_def plain_block_of_def)
  have "put_at 0 [10, 20, 30] (replicate 8 0) = [10, 20, 30, 0, 0, 0, 0, 0 :: opcua_byte_t]"
    by (simp add: put_at_def eval_nat_numeral)
  moreover have "length [10, 20, 30 :: opcua_byte_t] = 3" by simp
  ultimately show ?thesis
    using opn_chunk_roundtrip [OF peers w, of 6144 "replicate 8 0" 8] by (intro exI [of _ tot] exI [of _ out']) (simp del: list.size)
qed

text \<open>
  C31.  The size of the padding is stored in one byte.  A receiver key of more than 2048 bits can need
  256 or more bytes of padding, and then the receiver takes a multiple of 256 padding bytes for the end
  of the body, although every signature and padding check passes.
\<close>

theorem opn_padding_truncated:
  assumes fam: "mu_security_policy_asym_family policy = MU_ASYM_FAMILY_RSA"
    and peers: "rsa_peers policy a ca b cb"
    and valid: "mu_certificate_validate (Some b) policy (Some ca) = MU_STATUS_GOOD"
      "mu_certificate_validate (Some b) policy (Some cb) = MU_STATUS_GOOD"
    and wrap: "mu_asym_chunk_wrap \<lparr>wp_crypto = Some a, wp_policy = policy, wp_secure_channel_id = scid, wp_sequence_number = sq,
       wp_request_id = rid, wp_receiver_cert = Some cb, wp_body = body, wp_out = Some out, wp_out_cap = out_cap\<rparr> = Inr (tot, out')"
    and cap: "out_cap \<le> length out" and sl: "6144 \<le> sl"
    and kb: "key_bytes b ca = Inr sig_len" "key_bytes b cb = Inr kb"
    and pad: "pad = asym_pad policy kb sig_len (length body)" "256 \<le> pad" "length body + pad \<le> cap"
  shows "\<exists>extra. 256 \<le> length extra \<and>
    mu_asym_chunk_unwrap \<lparr>up_crypto = Some b, up_chunk = Some (take tot out'), up_chunk_len = tot, up_out_body = Some ob,
       up_out_cap = cap, up_scratch_len = sl\<rparr> =
    Inr (\<lparr>ai_policy = policy, ai_secure_channel_id = scid, ai_sequence_number = sq, ai_request_id = rid, ai_sender_cert = Some ca\<rparr>,
         put_at 0 (body @ extra) ob, length body + length extra)"
proof -
  let ?extra = "replicate (256 * (pad div 256)) (of_nat pad) :: bytes"
  have "1 \<le> pad div 256" using pad(2) div_le_mono [of 256 pad 256] by simp
  moreover have "length body + length ?extra \<le> cap"
    using pad(3) times_div_less_eq_dividend [of 256 pad] by simp
  ultimately show ?thesis
    using rsa_chunk_unwraps(2) [OF fam peers valid wrap cap sl kb refl, folded pad(1)]
    by (intro exI [of _ ?extra]) simp
qed

theorem opn_padding_truncated_witness:
  "\<exists>tot out' extra. 256 \<le> length extra \<and>
    mu_asym_chunk_unwrap \<lparr>up_crypto = Some (sample_asym 4096 [2]), up_chunk = Some (take tot out'), up_chunk_len = tot,
       up_out_body = Some (replicate 512 0), up_out_cap = 512, up_scratch_len = 6144\<rparr> =
     Inr (\<lparr>ai_policy = MU_SECURITY_POLICY_BASIC256SHA256_ID, ai_secure_channel_id = 5, ai_sequence_number = 51,
           ai_request_id = 7, ai_sender_cert = Some [1]\<rparr>, put_at 0 ([10, 20, 30] @ extra) (replicate 512 0), 3 + length extra)"
proof -
  let ?P = MU_SECURITY_POLICY_BASIC256SHA256_ID
  have fam: "mu_security_policy_asym_family ?P = MU_ASYM_FAMILY_RSA" by (simp add: rsa_family)
  obtain tot out' where w: "mu_asym_chunk_wrap \<lparr>wp_crypto = Some (sample_asym 4096 [1]), wp_policy = ?P,
      wp_secure_channel_id = 5, wp_sequence_number = 51, wp_request_id = 7, wp_receiver_cert = Some [2], wp_body = [10, 20, 30],
      wp_out = Some (replicate 4096 0), wp_out_cap = 4096\<rparr> = Inr (tot, out')"
    using sample_opn_wrap [OF _ refl, of 4096 "[10, 20, 30]"] by (auto simp: asym_pad_def plain_block_of_def)
  have "416 = asym_pad ?P 512 512 (length [10, 20, 30 :: opcua_byte_t])" by (simp add: asym_pad_def plain_block_of_def)
  moreover have "length [10, 20, 30 :: opcua_byte_t] = 3" by simp
  ultimately show ?thesis
    using opn_padding_truncated [OF fam sample_rsa_peers [OF fam] sample_valid [OF fam] sample_valid [OF fam] w, of 6144 512 512 416 512
        "replicate 512 0"] sample_key_bytes [of 4096 "[2]"]
    by - (rule exI [of _ tot], rule exI [of _ out'], simp del: list.size)
qed

text \<open>
  C32.  A chunk is accepted under a policy other than None only if the sender's certificate, which is the
  one in the chunk's header, passes the policy's checks and the signature verifies under it.  The signature
  covers the whole header of the chunk, from its first byte to the end of the receiver's thumbprint, and
  behind it the payload up to the signature, as decrypted with the server's key (RSA) or as received
  (elliptic curves).  The sequence number, the request id and the body returned are those of the covered
  payload.  No other policy than these and None is accepted.
\<close>

theorem opn_chunk_authentic:
  assumes unwrap: "mu_asym_chunk_unwrap \<lparr>up_crypto = Some b, up_chunk = Some chunk, up_chunk_len = n, up_out_body = Some ob,
       up_out_cap = cap, up_scratch_len = sl\<rparr> = Inr (info, ob', len)"
    and n: "n \<le> length chunk" and cap: "cap \<le> length ob"
  defines "m \<equiv> unat (mu_binary_le_get_u32 (slice 4 4 chunk))" and "h \<equiv> opn_header_length chunk"
  shows "len \<le> cap \<and> h \<le> m \<and> m \<le> n \<and> ai_sender_cert info = opn_sender_cert chunk \<and>
    (ai_policy info \<noteq> MU_SECURITY_POLICY_NONE_ID \<longrightarrow>
       mu_certificate_validate (Some b) (ai_policy info) (ai_sender_cert info) = MU_STATUS_GOOD \<and>
       (\<exists>payload sig. opn_payload b (ai_policy info) (the (ai_sender_cert info)) chunk h m payload sig \<and>
          signature_accepted b (ai_policy info) (the (ai_sender_cert info)) (take h chunk @ payload) sig \<and>
          opn_content payload info ob' len))"
proof -
  obtain info0 thumb where h: "h \<le> m" and m: "m \<le> n" and c0: "ai_sender_cert info0 = opn_sender_cert chunk"
    and res: "unwrap_payload b info0 chunk h m thumb ob cap = Inr (info, ob', len)"
    unfolding m_def h_def by (rule asym_unwrap_parts [OF unwrap])
  consider "ai_policy info0 = MU_SECURITY_POLICY_NONE_ID" "clear_payload chunk h m ob cap info0 = Inr (info, ob', len)"
    | "mu_security_policy_asym_family (ai_policy info0) = MU_ASYM_FAMILY_ECC" "unwrap_ecc b info0 chunk h m thumb ob cap = Inr (info, ob', len)"
    | "mu_security_policy_asym_family (ai_policy info0) \<noteq> MU_ASYM_FAMILY_ECC" "unwrap_rsa b info0 chunk h m thumb ob cap = Inr (info, ob', len)"
    using res by (auto simp: unwrap_payload_def split: if_splits)
  then show ?thesis
  proof cases
    case 1
    then show ?thesis using clear_payload_D [OF 1(2)] h m c0 by simp
  next
    case 2
    have "m \<le> length chunk" using m n by simp
    then show ?thesis by (rule unwrap_ecc_D [OF 2(2) _ cap 2(1)]) (use h m c0 in auto)
  next
    case 3
    show ?thesis by (rule unwrap_rsa_D [OF 3(2) cap 3(1)]) (use h m c0 in auto)
  qed
qed

theorem opn_chunk_authentic_witness:
  "\<exists>chunk n info ob'. mu_asym_chunk_unwrap \<lparr>up_crypto = Some (sample_asym 2048 [2]), up_chunk = Some chunk, up_chunk_len = n,
       up_out_body = Some (replicate 8 0), up_out_cap = 8, up_scratch_len = 6144\<rparr> = Inr (info, ob', 3) \<and>
     ai_policy info = MU_SECURITY_POLICY_BASIC256SHA256_ID \<and>
     ai_sender_cert info = Some [1] \<and>
     (\<exists>payload sig. signature_accepted (sample_asym 2048 [2]) MU_SECURITY_POLICY_BASIC256SHA256_ID [1]
          (take (opn_header_length chunk) chunk @ payload) sig \<and>
        opn_content payload info ob' 3)"
proof -
  let ?P = MU_SECURITY_POLICY_BASIC256SHA256_ID
  have fam: "mu_security_policy_asym_family ?P = MU_ASYM_FAMILY_RSA" by (simp add: rsa_family)
  obtain tot out' where w: "mu_asym_chunk_wrap \<lparr>wp_crypto = Some (sample_asym 2048 [1]), wp_policy = ?P,
      wp_secure_channel_id = 5, wp_sequence_number = 51, wp_request_id = 7, wp_receiver_cert = Some [2], wp_body = [10, 20, 30],
      wp_out = Some (replicate 4096 0), wp_out_cap = 4096\<rparr> = Inr (tot, out')"
    using sample_opn_wrap [OF _ refl, of 2048 "[10, 20, 30]"] by (auto simp: asym_pad_def plain_block_of_def)
  have kb: "key_bytes (sample_asym 2048 [2]) c = Inr 256" for c using sample_key_bytes [of 2048 "[2]" c] by simp
  note u = rsa_chunk_unwraps [OF fam sample_rsa_peers [OF fam] sample_valid [OF fam] sample_valid [OF fam] w _ _ kb kb refl]
  have "length [10, 20, 30 :: opcua_byte_t] = 3" by simp
  then have unw: "mu_asym_chunk_unwrap \<lparr>up_crypto = Some (sample_asym 2048 [2]), up_chunk = Some (take tot out'), up_chunk_len = tot,
       up_out_body = Some (replicate 8 0), up_out_cap = 8, up_scratch_len = 6144\<rparr> =
     Inr (\<lparr>ai_policy = ?P, ai_secure_channel_id = 5, ai_sequence_number = 51, ai_request_id = 7, ai_sender_cert = Some [1]\<rparr>,
          put_at 0 [10, 20, 30] (replicate 8 0), 3)"
    using u(2) [where sl = 6144 and cap = 8 and ob = "replicate 8 0"] by (simp add: small_key_pad del: list.size)
  note a = opn_chunk_authentic [OF unw, simplified mu_asym_chunk_info.select_convs option.sel]
  have "tot \<le> length (take tot out')" "(8 :: nat) \<le> length (replicate 8 (0 :: opcua_byte_t))"
    using u(1) [where sl = 6144] by simp_all
  note a' = conjunct2 [OF conjunct2 [OF conjunct2 [OF conjunct2 [OF a [OF this]]]]]
  have "?P \<noteq> MU_SECURITY_POLICY_NONE_ID" by simp
  note a'' = conjunct2 [OF mp [OF a' this]]
  show ?thesis
    by (rule exI [of _ "take tot out'"], rule exI [of _ tot], rule exI, rule exI, rule conjI [OF unw])
      (use a'' in \<open>simp only: mu_asym_chunk_info.select_convs, blast\<close>)
qed

end
