(* ===== verification/Mu_NodeIds.thy ===== *)
theory Mu_NodeIds
  imports Mu_Strings
begin

unbundle bit_operations_syntax

text \<open>
  \<^verbatim>\<open>NodeId\<close>, \<^verbatim>\<open>ExpandedNodeId\<close> and \<^verbatim>\<open>QualifiedName\<close>: \<^verbatim>\<open>src/encoding/binary_nodeid.c\<close> with the
  extended identifier kinds compiled in.  The tagged union of \<^verbatim>\<open>mu_nodeid_t\<close> is a datatype; an
  opaque identifier is the list of its valid bytes.
\<close>

section \<open>Data\<close>

datatype mu_identifier =
    NUMERIC opcua_uint32_t
  | STRING mu_string
  | GUID bytes
  | OPAQUE bytes

record mu_nodeid =
  namespace_index :: opcua_uint16_t
  ident :: mu_identifier

record mu_expanded_nodeid =
  node_id :: mu_nodeid
  namespace_uri :: mu_string
  server_index :: opcua_uint32_t

record mu_qualified_name =
  qn_namespace_index :: opcua_uint16_t
  qn_name :: mu_string

section \<open>NodeId\<close>

definition mu_binary_read_nodeid :: "mu_nodeid rd" where
  "mu_binary_read_nodeid =
    rd_bind mu_binary_read_byte (\<lambda>encoding_mask.
    let format = encoding_mask AND 0x0F in
    if format = 0x00 then
      rd_bind mu_binary_read_byte (\<lambda>i.
      rd_return \<lparr>namespace_index = 0, ident = NUMERIC (ucast i)\<rparr>)
    else if format = 0x01 then
      rd_bind mu_binary_read_byte (\<lambda>ns.
      rd_bind mu_binary_read_uint16 (\<lambda>i.
      rd_return \<lparr>namespace_index = ucast ns, ident = NUMERIC (ucast i)\<rparr>))
    else if format = 0x02 then
      rd_bind mu_binary_read_uint16 (\<lambda>ns.
      rd_bind mu_binary_read_uint32 (\<lambda>i.
      rd_return \<lparr>namespace_index = ns, ident = NUMERIC i\<rparr>))
    else if format = 0x03 then
      rd_bind mu_binary_read_uint16 (\<lambda>ns.
      rd_bind mu_binary_read_string (\<lambda>s.
      rd_return \<lparr>namespace_index = ns, ident = STRING s\<rparr>))
    else if format = 0x04 then
      rd_bind mu_binary_read_uint16 (\<lambda>ns.
      rd_bind (rd_list 16 mu_binary_read_byte) (\<lambda>g.
      rd_return \<lparr>namespace_index = ns, ident = GUID g\<rparr>))
    else if format = 0x05 then
      rd_bind mu_binary_read_uint16 (\<lambda>ns.
      rd_bind mu_binary_read_int32 (\<lambda>opaque_len.
      if sint opaque_len < 0 \<or> sint opaque_len > 16 then rd_error MU_STATUS_BAD_DECODINGERROR
      else rd_bind (rd_list (unat opaque_len) mu_binary_read_byte) (\<lambda>d.
        rd_return \<lparr>namespace_index = ns, ident = OPAQUE d\<rparr>)))
    else rd_error MU_STATUS_BAD_DECODINGERROR)"

definition mu_binary_write_nodeid :: "mu_nodeid \<Rightarrow> wr" where
  "mu_binary_write_nodeid value =
    (case ident value of
       NUMERIC numeric \<Rightarrow>
         if namespace_index value = 0 \<and> numeric \<le> 255 then
           wr_seq (mu_binary_write_byte 0x00) (mu_binary_write_byte (ucast numeric))
         else if namespace_index value \<le> 255 \<and> numeric \<le> 65535 then
           wr_seq (mu_binary_write_byte 0x01)
           (wr_seq (mu_binary_write_byte (ucast (namespace_index value)))
             (mu_binary_write_uint16 (ucast numeric)))
         else
           wr_seq (mu_binary_write_byte 0x02)
           (wr_seq (mu_binary_write_uint16 (namespace_index value)) (mu_binary_write_uint32 numeric))
     | STRING s \<Rightarrow>
         wr_seq (mu_binary_write_byte 0x03)
         (wr_seq (mu_binary_write_uint16 (namespace_index value)) (mu_binary_write_string s))
     | GUID g \<Rightarrow>
         wr_seq (mu_binary_write_byte 0x04)
         (wr_seq (mu_binary_write_uint16 (namespace_index value))
         (wr_seq (wr_list mu_binary_write_byte (take 16 g)) (wr_return MU_STATUS_GOOD)))
     | OPAQUE d \<Rightarrow>
         wr_seq (mu_binary_write_byte 0x05)
         (wr_seq (mu_binary_write_uint16 (namespace_index value))
         (wr_seq (mu_binary_write_int32 (of_nat (length d)))
         (wr_seq (wr_list mu_binary_write_byte d) (wr_return MU_STATUS_GOOD)))))"

section \<open>ExpandedNodeId\<close>

text \<open>The encoding byte is inspected before the NodeId decoder consumes it.\<close>

definition peek_encoding_mask :: "opcua_byte_t rd" where
  "peek_encoding_mask r =
    (if rd_buffer r = None \<or> rd_position r \<ge> rd_length r then (Inl MU_STATUS_BAD_DECODINGERROR, r)
     else (Inr (the (rd_buffer r) ! rd_position r), r))"

definition mu_binary_read_expanded_nodeid :: "mu_expanded_nodeid rd" where
  "mu_binary_read_expanded_nodeid =
    rd_bind peek_encoding_mask (\<lambda>encoding_mask.
    rd_bind mu_binary_read_nodeid (\<lambda>nid.
    rd_bind (if encoding_mask AND 0x80 \<noteq> 0 then mu_binary_read_string else rd_return null_string) (\<lambda>uri.
    rd_bind (if encoding_mask AND 0x40 \<noteq> 0 then mu_binary_read_uint32 else rd_return 0) (\<lambda>idx.
    rd_return \<lparr>node_id = nid, namespace_uri = uri, server_index = idx\<rparr>))))"

definition expanded_nodeid_mask :: "mu_expanded_nodeid \<Rightarrow> opcua_byte_t" where
  "expanded_nodeid_mask value =
    (let node = node_id value;
         encoding_mask = (case ident node of
             NUMERIC numeric \<Rightarrow>
               if namespace_index node = 0 \<and> numeric \<le> 255 then 0x00
               else if namespace_index node \<le> 255 \<and> numeric \<le> 65535 then 0x01
               else 0x02
           | STRING _ \<Rightarrow> 0x03
           | GUID _ \<Rightarrow> 0x04
           | OPAQUE _ \<Rightarrow> 0x05);
         encoding_mask = (if sint (str_length (namespace_uri value)) \<ge> 0 \<and> str_data (namespace_uri value) \<noteq> None
                          then encoding_mask OR 0x80 else encoding_mask)
     in if server_index value \<noteq> 0 then encoding_mask OR 0x40 else encoding_mask)"

definition expanded_nodeid_body :: "opcua_byte_t \<Rightarrow> mu_nodeid \<Rightarrow> wr" where
  "expanded_nodeid_body format node =
    (case ident node of
       NUMERIC numeric \<Rightarrow>
         if format = 0x00 then mu_binary_write_byte (ucast numeric)
         else if format = 0x01 then
           wr_seq (mu_binary_write_byte (ucast (namespace_index node))) (mu_binary_write_uint16 (ucast numeric))
         else wr_seq (mu_binary_write_uint16 (namespace_index node)) (mu_binary_write_uint32 numeric)
     | STRING s \<Rightarrow>
         wr_seq (mu_binary_write_uint16 (namespace_index node)) (mu_binary_write_string s)
     | GUID g \<Rightarrow>
         wr_seq (mu_binary_write_uint16 (namespace_index node)) (wr_list mu_binary_write_byte (take 16 g))
     | OPAQUE d \<Rightarrow>
         wr_seq (mu_binary_write_uint16 (namespace_index node))
         (wr_seq (mu_binary_write_int32 (of_nat (length d))) (wr_list mu_binary_write_byte d)))"

definition mu_binary_write_expanded_nodeid :: "mu_expanded_nodeid \<Rightarrow> wr" where
  "mu_binary_write_expanded_nodeid value =
    (let encoding_mask = expanded_nodeid_mask value in
     wr_seq (mu_binary_write_byte encoding_mask)
     (wr_seq (expanded_nodeid_body (encoding_mask AND 0x0F) (node_id value))
     (wr_seq (if encoding_mask AND 0x80 \<noteq> 0 then mu_binary_write_string (namespace_uri value)
              else wr_return MU_STATUS_GOOD)
       (if encoding_mask AND 0x40 \<noteq> 0 then mu_binary_write_uint32 (server_index value)
        else wr_return MU_STATUS_GOOD))))"

section \<open>QualifiedName\<close>

definition mu_binary_read_qualified_name :: "mu_qualified_name rd" where
  "mu_binary_read_qualified_name =
    rd_bind mu_binary_read_uint16 (\<lambda>ns.
    rd_bind mu_binary_read_string (\<lambda>nm. rd_return \<lparr>qn_namespace_index = ns, qn_name = nm\<rparr>))"

definition mu_binary_write_qualified_name :: "mu_qualified_name \<Rightarrow> wr" where
  "mu_binary_write_qualified_name value =
    wr_seq (mu_binary_write_uint16 (qn_namespace_index value)) (mu_binary_write_string (qn_name value))"

section \<open>Contracts\<close>

lemma decoder_nodeid [decoder_intros]: "decoder mu_binary_read_nodeid"
  unfolding mu_binary_read_nodeid_def Let_def by (intro decoder_intros) simp_all

lemma reader_op_nodeid [decoder_intros]: "reader_op mu_binary_read_nodeid"
  by (rule decoder_reader_op [OF decoder_nodeid])

lemma reader_op_peek: "reader_op peek_encoding_mask"
proof unfold_locales
  fix r1 r2 :: mu_binary_reader
  assume view: "same_view r1 r2"
  show "fst (peek_encoding_mask r1) = fst (peek_encoding_mask r2) \<and>
      same_view (snd (peek_encoding_mask r1)) (snd (peek_encoding_mask r2))"
  proof (cases "rd_buffer r1 \<noteq> None \<and> rd_position r1 < rd_length r1")
    case True
    then obtain b1 b2 where b: "rd_buffer r1 = Some b1" "rd_buffer r2 = Some b2"
      using view by (cases "rd_buffer r1"; cases "rd_buffer r2") (auto simp: same_view_def)
    with view have "take (rd_length r1) b1 ! rd_position r1 = take (rd_length r1) b2 ! rd_position r1"
      by (auto simp: same_view_def)
    with True b view show ?thesis
      by (auto simp: peek_encoding_mask_def same_view_def)
  next
    case False
    then show ?thesis
      using view by (auto simp: peek_encoding_mask_def same_view_def)
  qed
qed (auto simp: peek_encoding_mask_def)

lemma decoder_expanded_nodeid [decoder_intros]: "decoder mu_binary_read_expanded_nodeid"
proof -
  have "reader_op mu_binary_read_expanded_nodeid"
    unfolding mu_binary_read_expanded_nodeid_def by (intro decoder_intros reader_op_peek)
  moreover have "\<exists>e. mu_binary_read_expanded_nodeid r = (Inl e, r)" if "rd_status r \<noteq> MU_STATUS_GOOD" for r
    using decoder.sticky [OF decoder_nodeid that]
    by (auto simp: mu_binary_read_expanded_nodeid_def rd_bind_def peek_encoding_mask_def)
  ultimately show ?thesis
    by (simp add: decoder_def decoder_axioms_def)
qed

lemma decoder_qualified_name [decoder_intros]: "decoder mu_binary_read_qualified_name"
  unfolding mu_binary_read_qualified_name_def by (intro decoder_intros)

lemma encoder_nodeid [encoder_intros]: "encoder (mu_binary_write_nodeid v)"
  unfolding mu_binary_write_nodeid_def
  by (cases "ident v") (auto intro!: encoder_intros)

lemma writer_op_nodeid [encoder_intros]: "writer_op (mu_binary_write_nodeid v)"
  by (rule encoder_writer_op [OF encoder_nodeid])

lemma encoder_expanded_nodeid [encoder_intros]: "encoder (mu_binary_write_expanded_nodeid v)"
  unfolding mu_binary_write_expanded_nodeid_def Let_def expanded_nodeid_body_def
  by (cases "ident (node_id v)") (auto intro!: encoder_intros)

lemma encoder_qualified_name [encoder_intros]: "encoder (mu_binary_write_qualified_name v)"
  unfolding mu_binary_write_qualified_name_def by (intro encoder_intros)

section \<open>Byte layouts\<close>

definition valid_nodeid :: "mu_nodeid \<Rightarrow> bool" where
  "valid_nodeid v \<longleftrightarrow>
     (case ident v of
        NUMERIC _ \<Rightarrow> True
      | STRING s \<Rightarrow> valid_string s
      | GUID g \<Rightarrow> length g = 16
      | OPAQUE d \<Rightarrow> length d \<le> 16)"

definition nodeid_format :: "mu_nodeid \<Rightarrow> opcua_byte_t" where
  "nodeid_format v =
     (case ident v of
        NUMERIC n \<Rightarrow> if namespace_index v = 0 \<and> n \<le> 255 then 0 else if namespace_index v \<le> 255 \<and> n \<le> 65535 then 1 else 2
      | STRING _ \<Rightarrow> 3 | GUID _ \<Rightarrow> 4 | OPAQUE _ \<Rightarrow> 5)"

definition nodeid_payload :: "mu_nodeid \<Rightarrow> bytes" where
  "nodeid_payload v =
     (case ident v of
        NUMERIC n \<Rightarrow>
          if namespace_index v = 0 \<and> n \<le> 255 then [ucast n]
          else if namespace_index v \<le> 255 \<and> n \<le> 65535
            then [ucast (namespace_index v)] @ mu_binary_le_put_u16 (ucast n)
          else mu_binary_le_put_u16 (namespace_index v) @ mu_binary_le_put_u32 n
      | STRING s \<Rightarrow> mu_binary_le_put_u16 (namespace_index v) @ enc_string s
      | GUID g \<Rightarrow> mu_binary_le_put_u16 (namespace_index v) @ g
      | OPAQUE d \<Rightarrow> mu_binary_le_put_u16 (namespace_index v) @ mu_binary_le_put_u32 (of_nat (length d)) @ d)"

definition enc_nodeid :: "mu_nodeid \<Rightarrow> bytes" where
  "enc_nodeid v = [nodeid_format v] @ nodeid_payload v"

lemma encodes_byte_list: "encodes (wr_list mu_binary_write_byte bs) bs"
  using encodes_list [of bs mu_binary_write_byte "\<lambda>x. [x]"] encodes_primitives(3) by simp

lemma reads_byte_list: "n = length bs \<Longrightarrow> reads (rd_list n mu_binary_read_byte) bs bs"
  using reads_list [of bs mu_binary_read_byte "\<lambda>x. [x]"] reads_primitives(3) by simp

lemma encodes_expanded_nodeid_body:
  assumes "valid_nodeid v"
  shows "encodes (expanded_nodeid_body (nodeid_format v) v) (nodeid_payload v)"
  using assms unfolding expanded_nodeid_body_def nodeid_payload_def nodeid_format_def valid_nodeid_def
  by (cases "ident v")
    (auto intro!: encodes_seq encodes_byte_list encodes_string encodes_primitives encodes_if
       intro: encodes_seq [where as = "[_]", simplified])

lemma write_nodeid_body:
  "mu_binary_write_nodeid v = wr_seq (mu_binary_write_byte (nodeid_format v))
     (case ident v of
        GUID _ \<Rightarrow> wr_seq (expanded_nodeid_body (nodeid_format v) v) (wr_return MU_STATUS_GOOD)
      | OPAQUE _ \<Rightarrow> wr_seq (expanded_nodeid_body (nodeid_format v) v) (wr_return MU_STATUS_GOOD)
      | _ \<Rightarrow> expanded_nodeid_body (nodeid_format v) v)"
  unfolding mu_binary_write_nodeid_def nodeid_format_def expanded_nodeid_body_def
  by (cases "ident v") (auto simp: wr_seq_def fun_eq_iff split: prod.splits)

lemma encodes_nodeid:
  assumes "valid_nodeid v"
  shows "encodes (mu_binary_write_nodeid v) (enc_nodeid v)"
  unfolding write_nodeid_body enc_nodeid_def
  using encodes_expanded_nodeid_body [OF assms]
  by (cases "ident v") (auto intro!: encodes_seq encodes_primitives encodes_seq_return
      simp del: append_Cons append_Nil)

lemma ucast_small32 [simp]: "n \<le> 65535 \<Longrightarrow> ucast (ucast (n :: 32 word) :: 16 word) = n"
  by (simp add: word_unat_eq_iff unsigned_ucast_eq take_bit_eq_mod word_le_nat_alt unat_mod_distrib)

text \<open>The flag bits above the format nibble do not disturb the NodeId decoder.\<close>

lemma reads_nodeid_flagged:
  assumes "valid_nodeid v" "em AND 0x0F = nodeid_format v"
  shows "reads mu_binary_read_nodeid ([em] @ nodeid_payload v) v"
  unfolding mu_binary_read_nodeid_def Let_def
proof (rule reads_bind [OF reads_primitives(3)], unfold assms(2), goal_cases)
  case 1
  show ?case
  proof (cases "ident v")
    case (NUMERIC n)
    then show ?thesis
      unfolding nodeid_format_def nodeid_payload_def
      by (auto intro!: reads_bind_return reads_primitives reads_bind [where x = "ucast (namespace_index v)"]
         reads_bind [where x = "namespace_index v"] simp del: append_Cons append_Nil)
  next
    case (STRING s)
    with assms show ?thesis
      by (simp add: nodeid_format_def nodeid_payload_def valid_nodeid_def)
        (intro reads_bind [where x = "namespace_index v"] reads_bind_return [where x = s] reads_primitives reads_string, auto)
  next
    case (GUID g)
    with assms show ?thesis
      by (simp add: nodeid_format_def nodeid_payload_def valid_nodeid_def del: rd_list.simps)
        (intro reads_bind [where x = "namespace_index v"] reads_bind_return [where x = g] reads_primitives reads_byte_list, auto)
  next
    case (OPAQUE d)
    then have "length d \<le> 16" using assms by (simp add: valid_nodeid_def)
    then have "reads (rd_bind (rd_list (length d) mu_binary_read_byte) (\<lambda>d.
          rd_return \<lparr>namespace_index = namespace_index v, ident = OPAQUE d\<rparr>)) d v"
      using OPAQUE by (intro reads_bind_return [where x = d] reads_byte_list) simp_all
    with OPAQUE \<open>length d \<le> 16\<close> show ?thesis
      by (simp add: nodeid_format_def nodeid_payload_def)
        (intro reads_bind [where x = "namespace_index v"] reads_bind [where x = "of_nat (length d)"] reads_primitives,
          simp add: int32_of_nat)
  qed
qed

lemma nodeid_format_nibble: "nodeid_format v AND 0x0F = nodeid_format v"
  by (cases "ident v") (simp_all add: nodeid_format_def)

lemma reads_nodeid: "valid_nodeid v \<Longrightarrow> reads mu_binary_read_nodeid (enc_nodeid v) v"
  unfolding enc_nodeid_def by (rule reads_nodeid_flagged [OF _ nodeid_format_nibble])

interpretation nodeid_codec: codec mu_binary_write_nodeid mu_binary_read_nodeid enc_nodeid valid_nodeid
  by unfold_locales (simp_all add: encodes_nodeid reads_nodeid)

definition valid_expanded_nodeid :: "mu_expanded_nodeid \<Rightarrow> bool" where
  "valid_expanded_nodeid v \<longleftrightarrow> valid_nodeid (node_id v) \<and> valid_string (namespace_uri v)"

definition enc_expanded_nodeid :: "mu_expanded_nodeid \<Rightarrow> bytes" where
  "enc_expanded_nodeid v =
     [expanded_nodeid_mask v] @ nodeid_payload (node_id v) @
     (if expanded_nodeid_mask v AND 0x80 \<noteq> 0 then enc_string (namespace_uri v) else []) @
     (if expanded_nodeid_mask v AND 0x40 \<noteq> 0 then mu_binary_le_put_u32 (server_index v) else [])"

lemma expanded_nodeid_mask_format: "expanded_nodeid_mask v AND 0x0F = nodeid_format (node_id v)"
  by (cases "ident (node_id v)") (simp_all add: expanded_nodeid_mask_def nodeid_format_def Let_def)

lemma expanded_nodeid_mask_flags:
  "expanded_nodeid_mask v AND 0x80 \<noteq> 0 \<longleftrightarrow>
     sint (str_length (namespace_uri v)) \<ge> 0 \<and> str_data (namespace_uri v) \<noteq> None"
  "expanded_nodeid_mask v AND 0x40 \<noteq> 0 \<longleftrightarrow> server_index v \<noteq> 0"
  by (cases "ident (node_id v)"; simp add: expanded_nodeid_mask_def Let_def)+

lemma encodes_expanded_nodeid:
  assumes "valid_expanded_nodeid v"
  shows "encodes (mu_binary_write_expanded_nodeid v) (enc_expanded_nodeid v)"
  using assms unfolding mu_binary_write_expanded_nodeid_def enc_expanded_nodeid_def Let_def
    expanded_nodeid_mask_format
  by (intro encodes_seq encodes_if encodes_primitives encodes_string encodes_Nil encodes_expanded_nodeid_body)
    (auto simp: valid_expanded_nodeid_def)

lemma reads_peeked:
  assumes "reads (f x) (x # bs) v"
  shows "reads (rd_bind peek_encoding_mask f) (x # bs) v"
  unfolding reads_def
proof (intro allI impI, elim conjE)
  fix r :: mu_binary_reader and b
  assume r: "rd_buffer r = Some b" "rd_status r = MU_STATUS_GOOD" "rd_length r \<le> length b"
    "rd_position r + length (x # bs) \<le> rd_length r" "slice (rd_position r) (length (x # bs)) b = x # bs"
  have "b ! rd_position r = x"
    using arg_cong [OF r(5), of hd] r(3,4) by (simp add: slice_def hd_drop_conv_nth)
  then have "peek_encoding_mask r = (Inr x, r)"
    using r by (simp add: peek_encoding_mask_def)
  then show "rd_bind peek_encoding_mask f r = (Inr v, r\<lparr>rd_position := rd_position r + length (x # bs)\<rparr>)"
    using readsD [OF assms r] by (simp add: rd_bind_def)
qed

lemma reads_expanded_nodeid:
  assumes "valid_expanded_nodeid v"
  shows "reads mu_binary_read_expanded_nodeid (enc_expanded_nodeid v) v"
proof -
  have uri: "namespace_uri v = null_string" if "\<not> expanded_nodeid_mask v AND 0x80 \<noteq> 0"
    using that assms unfolding expanded_nodeid_mask_flags valid_expanded_nodeid_def
    by (elim conjE valid_string_cases) (auto simp: mk_string_def int32_of_nat)
  have idx: "server_index v = 0" if "\<not> expanded_nodeid_mask v AND 0x40 \<noteq> 0"
    using that unfolding expanded_nodeid_mask_flags by simp
  have nid: "reads mu_binary_read_nodeid ([expanded_nodeid_mask v] @ nodeid_payload (node_id v)) (node_id v)"
    using assms by (intro reads_nodeid_flagged expanded_nodeid_mask_format) (simp add: valid_expanded_nodeid_def)
  have "reads (rd_bind mu_binary_read_nodeid (\<lambda>nid.
      rd_bind (if expanded_nodeid_mask v AND 0x80 \<noteq> 0 then mu_binary_read_string else rd_return null_string) (\<lambda>uri.
      rd_bind (if expanded_nodeid_mask v AND 0x40 \<noteq> 0 then mu_binary_read_uint32 else rd_return 0) (\<lambda>idx.
      rd_return \<lparr>node_id = nid, namespace_uri = uri, server_index = idx\<rparr>))))
     (([expanded_nodeid_mask v] @ nodeid_payload (node_id v)) @
     (if expanded_nodeid_mask v AND 0x80 \<noteq> 0 then enc_string (namespace_uri v) else []) @
     (if expanded_nodeid_mask v AND 0x40 \<noteq> 0 then mu_binary_le_put_u32 (server_index v) else [])) v"
    using assms
    by (intro reads_bind [OF nid] reads_bind [where x = "namespace_uri v"] reads_bind_return [where x = "server_index v"]
        reads_if reads_string reads_primitives)
      (auto simp: uri idx reads_return valid_expanded_nodeid_def)
  then show ?thesis
    unfolding mu_binary_read_expanded_nodeid_def enc_expanded_nodeid_def by (auto intro: reads_peeked)
qed

interpretation expanded_nodeid_codec: codec mu_binary_write_expanded_nodeid mu_binary_read_expanded_nodeid
  enc_expanded_nodeid valid_expanded_nodeid
  by unfold_locales (simp_all add: encodes_expanded_nodeid reads_expanded_nodeid)

definition valid_qualified_name :: "mu_qualified_name \<Rightarrow> bool" where
  "valid_qualified_name v \<longleftrightarrow> valid_string (qn_name v)"

definition enc_qualified_name :: "mu_qualified_name \<Rightarrow> bytes" where
  "enc_qualified_name v = mu_binary_le_put_u16 (qn_namespace_index v) @ enc_string (qn_name v)"

interpretation qualified_name_codec: codec mu_binary_write_qualified_name mu_binary_read_qualified_name
  enc_qualified_name valid_qualified_name
proof
  fix v assume v: "valid_qualified_name v"
  show "encodes (mu_binary_write_qualified_name v) (enc_qualified_name v)"
    using v unfolding mu_binary_write_qualified_name_def enc_qualified_name_def
    by (intro encodes_seq encodes_primitives encodes_string) (simp add: valid_qualified_name_def)
  show "reads mu_binary_read_qualified_name (enc_qualified_name v) v"
    using v unfolding mu_binary_read_qualified_name_def enc_qualified_name_def
    by (intro reads_bind [where x = "qn_namespace_index v"] reads_bind_return [where x = "qn_name v"]
        reads_primitives reads_string) (simp_all add: valid_qualified_name_def)
qed

section \<open>Main properties\<close>

text \<open>
  C5.  Round trip of ExpandedNodeIds through all six NodeId formats and the two optional fields.
\<close>

theorem expanded_nodeid_roundtrip:
  assumes "valid_expanded_nodeid v" "wf_writer w" "wr_status w = MU_STATUS_GOOD" "wr_buffer w \<noteq> None"
    and "mu_binary_write_expanded_nodeid v w = (MU_STATUS_GOOD, w')"
  shows "mu_binary_read_expanded_nodeid
      \<lparr>rd_buffer = wr_buffer w', rd_length = wr_position w', rd_position = wr_position w, rd_status = MU_STATUS_GOOD\<rparr> =
    (Inr v, \<lparr>rd_buffer = wr_buffer w', rd_length = wr_position w', rd_position = wr_position w',
             rd_status = MU_STATUS_GOOD\<rparr>)"
  by (rule expanded_nodeid_codec.round_trip [OF assms])

definition sample_expanded :: mu_expanded_nodeid where
  "sample_expanded = \<lparr>node_id = \<lparr>namespace_index = 300, ident = OPAQUE [1, 2]\<rparr>,
     namespace_uri = mk_string [0x75], server_index = 5\<rparr>"

lemma sample_expanded_facts:
  "valid_expanded_nodeid sample_expanded"
  "enc_expanded_nodeid sample_expanded = [0xC5, 0x2C, 1, 2, 0, 0, 0, 1, 2, 1, 0, 0, 0, 0x75, 5, 0, 0, 0]"
proof -
  show "valid_expanded_nodeid sample_expanded"
    by (simp add: sample_expanded_def valid_expanded_nodeid_def valid_nodeid_def)
  have "expanded_nodeid_mask sample_expanded = 0xC5"
    by (simp add: sample_expanded_def expanded_nodeid_mask_def mk_string_def)
  then show "enc_expanded_nodeid sample_expanded = [0xC5, 0x2C, 1, 2, 0, 0, 0, 1, 2, 1, 0, 0, 0, 0x75, 5, 0, 0, 0]"
    unfolding enc_expanded_nodeid_def
    by (simp add: sample_expanded_def nodeid_payload_def mu_binary_le_put_u16_def mu_binary_le_put_u32_def)
qed

lemma sample_expanded_written:
  "mu_binary_write_expanded_nodeid sample_expanded (mu_binary_writer_init (Some (replicate 18 0)) 18) =
    (MU_STATUS_GOOD, \<lparr>wr_buffer = Some [0xC5, 0x2C, 1, 2, 0, 0, 0, 1, 2, 1, 0, 0, 0, 0x75, 5, 0, 0, 0],
      wr_length = 18, wr_position = 18, wr_status = MU_STATUS_GOOD\<rparr>)"
  using encodes_fits [OF encodes_expanded_nodeid [OF sample_expanded_facts(1)],
    of "mu_binary_writer_init (Some (replicate 18 0)) 18" "replicate 18 0"]
  by (simp add: sample_expanded_facts(2) mu_binary_writer_init_def wf_writer_def put_at_def)

theorem expanded_nodeid_roundtrip_witness:
  "fst (mu_binary_read_expanded_nodeid
      \<lparr>rd_buffer = Some [0xC5, 0x2C, 1, 2, 0, 0, 0, 1, 2, 1, 0, 0, 0, 0x75, 5, 0, 0, 0], rd_length = 18,
       rd_position = 0, rd_status = MU_STATUS_GOOD\<rparr>) = Inr sample_expanded"
  using expanded_nodeid_roundtrip [OF sample_expanded_facts(1) _ _ _ sample_expanded_written]
  by (simp add: mu_binary_writer_init_def wf_writer_def)

text \<open>
  C6.  The NodeId wire format is unambiguous: if the encodings of two well-formed NodeIds are prefixes
  of the same byte stream, the NodeIds are equal and the streams continue alike.
\<close>

theorem nodeid_encoding_unambiguous:
  assumes "valid_nodeid a" "valid_nodeid b" "enc_nodeid a @ xs = enc_nodeid b @ ys"
  shows "encodes (mu_binary_write_nodeid a) (enc_nodeid a) \<and> a = b \<and> xs = ys"
  using nodeid_codec.prefix_free [OF assms] encodes_nodeid [OF assms(1)] by simp

theorem nodeid_encoding_unambiguous_witness:
  "enc_nodeid \<lparr>namespace_index = 0, ident = NUMERIC 85\<rparr> = [0, 85] \<and>
   encodes (mu_binary_write_nodeid \<lparr>namespace_index = 0, ident = NUMERIC 85\<rparr>) [0, 85]"
  using nodeid_encoding_unambiguous [of "\<lparr>namespace_index = 0, ident = NUMERIC 85\<rparr>"
    "\<lparr>namespace_index = 0, ident = NUMERIC 85\<rparr>" "[]" "[]"]
  by (simp add: valid_nodeid_def enc_nodeid_def nodeid_format_def nodeid_payload_def)

end
