(* ===== verification/Mu_Extension_Object.thy ===== *)
theory Mu_Extension_Object
  imports Mu_NodeIds
begin

unbundle bit_operations_syntax

text \<open>
  ExtensionObjects: the header, body and skip operations of
  \<^verbatim>\<open>src/encoding/binary_extension_object.c\<close>, and the three structures \<^verbatim>\<open>binary_writer.c\<close> wraps in
  one, \<^verbatim>\<open>Argument\<close>, \<^verbatim>\<open>ServerDiagnosticsSummary\<close> and \<^verbatim>\<open>ServerStatus\<close>.  The data types come from
  \<^verbatim>\<open>include/muc_opcua/services/method.h\<close> and \<^verbatim>\<open>diagnostics.h\<close>; the time adapter pointer of
  \<^verbatim>\<open>mu_server_status_t\<close> is not read by the encoder and is left out.  The uninitialised scratch
  arrays of the C functions start as zeros.
\<close>

section \<open>Data\<close>

record mu_argument =
  arg_name :: mu_string
  arg_data_type :: mu_nodeid
  arg_value_rank :: opcua_int32_t
  arg_description :: mu_localized_text

record mu_server_status =
  start_time :: opcua_datetime_t
  current_time :: opcua_datetime_t
  srv_state :: opcua_int32_t
  product_uri :: mu_string
  manufacturer_name :: mu_string
  product_name :: mu_string
  software_version :: mu_string
  build_number :: mu_string
  build_date :: opcua_datetime_t

record mu_diagnostics_summary =
  server_view_count :: opcua_uint32_t
  current_session_count :: opcua_uint32_t
  cumulated_session_count :: opcua_uint32_t
  security_rejected_session_count :: opcua_uint32_t
  rejected_session_count :: opcua_uint32_t
  session_timeout_count :: opcua_uint32_t
  session_abort_count :: opcua_uint32_t
  current_subscription_count :: opcua_uint32_t
  cumulated_subscription_count :: opcua_uint32_t
  publishing_interval_count :: opcua_uint32_t
  security_rejected_requests_count :: opcua_uint32_t
  rejected_requests_count :: opcua_uint32_t

section \<open>Header, body, skip\<close>

definition mu_binary_read_extension_object_header :: "(mu_nodeid \<times> nat) rd" where
  "mu_binary_read_extension_object_header =
    rd_bind mu_binary_read_nodeid (\<lambda>type_id.
    rd_bind mu_binary_read_byte (\<lambda>encoding_mask.
    if encoding_mask = 0x00 then rd_return (type_id, 0)
    else if encoding_mask = 0x01 \<or> encoding_mask = 0x02 then
      rd_bind mu_binary_read_int32 (\<lambda>len.
      if sint len < 0 then rd_error MU_STATUS_BAD_DECODINGERROR
      else rd_return (type_id, unat len))
    else rd_error MU_STATUS_BAD_DECODINGERROR))"

definition mu_binary_write_extension_object_header :: "mu_nodeid \<Rightarrow> nat \<Rightarrow> wr" where
  "mu_binary_write_extension_object_header type_id length' =
    wr_seq (mu_binary_write_nodeid type_id)
      (if length' = 0 then mu_binary_write_byte 0x00
       else wr_seq (mu_binary_write_byte 0x01) (mu_binary_write_int32 (of_nat length')))"

text \<open>The body decoder runs on a reader of its own that covers exactly the declared body.\<close>

definition mu_binary_read_extension_object_body :: "nat \<Rightarrow> 'a rd \<Rightarrow> 'a rd" where
  "mu_binary_read_extension_object_body length' dec r =
    (if rd_status r \<noteq> MU_STATUS_GOOD then (Inl (rd_status r), r)
     else if rd_buffer r = None then (Inl MU_STATUS_BAD_INTERNALERROR, r)
     else if rd_position r > rd_length r \<or> length' > rd_length r - rd_position r then
       (Inl MU_STATUS_BAD_DECODINGERROR, r\<lparr>rd_status := MU_STATUS_BAD_DECODINGERROR\<rparr>)
     else
       (case dec (mu_binary_reader_init (map_option (drop (rd_position r)) (rd_buffer r)) length') of
          (Inl status, _) \<Rightarrow> (Inl status, r\<lparr>rd_status := status\<rparr>)
        | (Inr v, body_reader) \<Rightarrow>
            if rd_status body_reader \<noteq> MU_STATUS_GOOD then
              (Inl (rd_status body_reader), r\<lparr>rd_status := rd_status body_reader\<rparr>)
            else if rd_position body_reader \<noteq> length' then
              (Inl MU_STATUS_BAD_DECODINGERROR, r\<lparr>rd_status := MU_STATUS_BAD_DECODINGERROR\<rparr>)
            else (Inr v, r\<lparr>rd_position := rd_position r + length'\<rparr>)))"

definition mu_binary_skip_extension_object :: "unit rd" where
  "mu_binary_skip_extension_object =
    rd_bind mu_binary_read_extension_object_header (\<lambda>(type_id, length') r.
      if rd_position r > rd_length r \<or> length' > rd_length r - rd_position r then
        (Inl MU_STATUS_BAD_DECODINGERROR, r\<lparr>rd_status := MU_STATUS_BAD_DECODINGERROR\<rparr>)
      else (Inr (), r\<lparr>rd_position := rd_position r + length'\<rparr>))"

section \<open>Wrapped structures\<close>

text \<open>
  The common tail of the three writers: give up with the scratch writer's sticky status, write the
  ExtensionObject header, then copy the scratch bytes behind it.
\<close>

definition wr_copy_body :: "nat \<Rightarrow> bytes \<Rightarrow> wr" where
  "wr_copy_body n body w =
    (if wr_position w + n > wr_length w then (MU_STATUS_BAD_OUTOFMEMORY, w)
     else (MU_STATUS_GOOD, w\<lparr>wr_buffer := map_option (put_at (wr_position w) (take n body)) (wr_buffer w),
                             wr_position := wr_position w + n\<rparr>))"

definition write_scratch_body :: "opcua_uint32_t \<Rightarrow> mu_binary_writer \<Rightarrow> wr" where
  "write_scratch_body encoding_id bw =
    (if wr_status bw \<noteq> MU_STATUS_GOOD then wr_return (wr_status bw)
     else wr_seq (mu_binary_write_extension_object_header
            \<lparr>namespace_index = 0, ident = NUMERIC encoding_id\<rparr> (wr_position bw))
       (wr_copy_body (wr_position bw) (the (wr_buffer bw))))"

definition argument_body :: "mu_argument \<Rightarrow> wr" where
  "argument_body arg =
    wr_void (mu_binary_write_string (arg_name arg))
    (wr_void (mu_binary_write_nodeid (arg_data_type arg))
    (wr_void (mu_binary_write_int32 (arg_value_rank arg))
    (wr_void (mu_binary_write_int32 (-1))
    (mu_binary_write_localized_text (arg_description arg)))))"

definition mu_binary_write_argument :: "mu_argument \<Rightarrow> wr" where
  "mu_binary_write_argument arg =
    write_scratch_body 298 (snd (argument_body arg (mu_binary_writer_init (Some (replicate 256 0)) 256)))"

definition diagnostics_summary_body :: "mu_diagnostics_summary \<Rightarrow> wr" where
  "diagnostics_summary_body diag =
    wr_void (mu_binary_write_uint32 (server_view_count diag))
    (wr_void (mu_binary_write_uint32 (current_session_count diag))
    (wr_void (mu_binary_write_uint32 (cumulated_session_count diag))
    (wr_void (mu_binary_write_uint32 (security_rejected_session_count diag))
    (wr_void (mu_binary_write_uint32 (rejected_session_count diag))
    (wr_void (mu_binary_write_uint32 (session_timeout_count diag))
    (wr_void (mu_binary_write_uint32 (session_abort_count diag))
    (wr_void (mu_binary_write_uint32 (current_subscription_count diag))
    (wr_void (mu_binary_write_uint32 (cumulated_subscription_count diag))
    (wr_void (mu_binary_write_uint32 (publishing_interval_count diag))
    (wr_void (mu_binary_write_uint32 (security_rejected_requests_count diag))
    (mu_binary_write_uint32 (rejected_requests_count diag))))))))))))"

definition mu_binary_write_server_diagnostics_summary :: "mu_diagnostics_summary \<Rightarrow> wr" where
  "mu_binary_write_server_diagnostics_summary diag =
    write_scratch_body 861 (snd (diagnostics_summary_body diag (mu_binary_writer_init (Some (replicate 48 0)) 48)))"

definition server_status_body :: "mu_server_status \<Rightarrow> wr" where
  "server_status_body status =
    wr_void (mu_binary_write_int64 (start_time status))
    (wr_void (mu_binary_write_int64 (current_time status))
    (wr_void (mu_binary_write_int32 (srv_state status))
    (wr_void (mu_binary_write_string (product_uri status))
    (wr_void (mu_binary_write_string (manufacturer_name status))
    (wr_void (mu_binary_write_string (product_name status))
    (wr_void (mu_binary_write_string (software_version status))
    (wr_void (mu_binary_write_string (build_number status))
    (wr_void (mu_binary_write_int64 (build_date status))
    (wr_void (mu_binary_write_uint32 0)
    (mu_binary_write_byte 0))))))))))"

definition mu_binary_write_server_status :: "mu_server_status \<Rightarrow> wr" where
  "mu_binary_write_server_status status =
    write_scratch_body 864 (snd (server_status_body status (mu_binary_writer_init (Some (replicate 256 0)) 256)))"

section \<open>Contracts\<close>

lemma decoder_extension_object_header [decoder_intros]: "decoder mu_binary_read_extension_object_header"
  unfolding mu_binary_read_extension_object_header_def by (intro decoder_intros) simp_all

lemma reader_op_skip_body:
  "reader_op (\<lambda>r. if rd_position r > rd_length r \<or> n > rd_length r - rd_position r then
        (Inl MU_STATUS_BAD_DECODINGERROR, r\<lparr>rd_status := MU_STATUS_BAD_DECODINGERROR\<rparr>)
      else (Inr (), r\<lparr>rd_position := rd_position r + n\<rparr>))"
  by unfold_locales (auto simp: same_view_def)

lemma decoder_skip_extension_object [decoder_intros]: "decoder mu_binary_skip_extension_object"
  unfolding mu_binary_skip_extension_object_def
  by (intro decoder_bind decoder_intros) (simp add: case_prod_beta reader_op_skip_body)

lemma same_view_sub:
  assumes "same_view r1 r2" "rd_position r1 \<le> rd_length r1" "n \<le> rd_length r1 - rd_position r1"
  shows "same_view (mu_binary_reader_init (map_option (drop (rd_position r1)) (rd_buffer r1)) n)
    (mu_binary_reader_init (map_option (drop (rd_position r2)) (rd_buffer r2)) n)"
proof (cases "rd_buffer r1")
  case None
  with assms show ?thesis by (auto simp: same_view_def mu_binary_reader_init_def)
next
  case (Some b1)
  then obtain b2 where b2: "rd_buffer r2 = Some b2"
    using assms(1) by (cases "rd_buffer r2") (auto simp: same_view_def)
  have "take (rd_length r1) b1 = take (rd_length r1) b2"
    using assms(1) Some b2 by (auto simp: same_view_def)
  from slice_cong [OF this, of "rd_position r1" n] show ?thesis
    using assms Some b2 by (auto simp: same_view_def mu_binary_reader_init_def slice_def)
qed

lemma ext_body_outcome:
  obtains (unchanged) e where "mu_binary_read_extension_object_body n d r = (Inl e, r)"
      "rd_status r \<noteq> MU_STATUS_GOOD \<and> e = rd_status r \<or> e = MU_STATUS_BAD_INTERNALERROR"
    | (failed) e where "mu_binary_read_extension_object_body n d r = (Inl e, r\<lparr>rd_status := e\<rparr>)"
      "rd_status r = MU_STATUS_GOOD"
      "e = MU_STATUS_BAD_DECODINGERROR \<or> e \<noteq> MU_STATUS_GOOD \<or> (\<exists>r'. fst (d r') = Inl e)"
    | (ok) v where "mu_binary_read_extension_object_body n d r = (Inr v, r\<lparr>rd_position := rd_position r + n\<rparr>)"
      "rd_status r = MU_STATUS_GOOD" "rd_position r + n \<le> rd_length r"
proof (cases "rd_status r \<noteq> MU_STATUS_GOOD \<or> rd_buffer r = None \<or> rd_position r > rd_length r \<or>
    n > rd_length r - rd_position r")
  case True
  then consider "rd_status r \<noteq> MU_STATUS_GOOD" | "rd_status r = MU_STATUS_GOOD" "rd_buffer r = None"
    | "rd_status r = MU_STATUS_GOOD" "rd_buffer r \<noteq> None"
      "rd_position r > rd_length r \<or> n > rd_length r - rd_position r"
    by (cases "rd_status r = MU_STATUS_GOOD"; cases "rd_buffer r = None") simp_all
  then show ?thesis
  proof cases
    case 1
    then show ?thesis
      by (intro unchanged [of "rd_status r"]) (simp_all add: mu_binary_read_extension_object_body_def)
  next
    case 2
    then show ?thesis
      by (intro unchanged [of MU_STATUS_BAD_INTERNALERROR]) (simp_all add: mu_binary_read_extension_object_body_def)
  next
    case 3
    then show ?thesis
      by (intro failed [of MU_STATUS_BAD_DECODINGERROR]) (simp_all add: mu_binary_read_extension_object_body_def)
  qed
next
  case False
  obtain x b where d: "d (mu_binary_reader_init (map_option (drop (rd_position r)) (rd_buffer r)) n) = (x, b)"
    by fastforce
  from False obtain buf where buf: "rd_buffer r = Some buf" and r: "rd_status r = MU_STATUS_GOOD"
    "\<not> rd_length r < rd_position r" "\<not> rd_length r - rd_position r < n"
    by auto
  note body = mu_binary_read_extension_object_body_def [of n d r, unfolded d] buf r
  show ?thesis
  proof (cases x)
    case (Inl e)
    have "fst (d (mu_binary_reader_init (map_option (drop (rd_position r)) (rd_buffer r)) n)) = Inl e"
      by (simp add: d Inl)
    with Inl show ?thesis by (intro failed [of e]) (auto simp: body)
  next
    case (Inr v)
    consider "rd_status b \<noteq> MU_STATUS_GOOD" | "rd_status b = MU_STATUS_GOOD" "rd_position b \<noteq> n"
      | "rd_status b = MU_STATUS_GOOD" "rd_position b = n" by metis
    then show ?thesis
    proof cases
      case 1
      with Inr show ?thesis by (intro failed [of "rd_status b"]) (simp_all add: body)
    next
      case 2
      with Inr show ?thesis by (intro failed [of MU_STATUS_BAD_DECODINGERROR]) (simp_all add: body)
    next
      case 3
      moreover have "rd_position r + n \<le> rd_length r" using r by linarith
      ultimately show ?thesis using Inr by (intro ok [of v]) (simp_all add: body)
    qed
  qed
qed

lemma decoder_extension_object_body [decoder_intros]:
  assumes "reader_op d"
  shows "decoder (mu_binary_read_extension_object_body n d)"
proof unfold_locales
  fix r1 r2 :: mu_binary_reader
  let ?m = "mu_binary_read_extension_object_body n d"
  assume view: "same_view r1 r2"
  have eqs: "rd_buffer r1 = None \<longleftrightarrow> rd_buffer r2 = None" "rd_length r1 = rd_length r2"
    "rd_position r1 = rd_position r2" "rd_status r1 = rd_status r2"
    using view by (auto simp: same_view_def)
  let ?b = "\<lambda>r. mu_binary_reader_init (map_option (drop (rd_position r)) (rd_buffer r)) n"
  have upd: "same_view (r1\<lparr>rd_status := e\<rparr>) (r2\<lparr>rd_status := e\<rparr>)"
    "same_view (r1\<lparr>rd_position := p\<rparr>) (r2\<lparr>rd_position := p\<rparr>)" for e p
    using view by (auto simp: same_view_def)
  show "fst (?m r1) = fst (?m r2) \<and> same_view (snd (?m r1)) (snd (?m r2))"
  proof (cases "rd_position r1 \<le> rd_length r1 \<and> n \<le> rd_length r1 - rd_position r1")
    case True
    then have "fst (d (?b r1)) = fst (d (?b r2))" "same_view (snd (d (?b r1))) (snd (d (?b r2)))"
      using reader_op.view [OF assms same_view_sub [OF view]] by auto
    then obtain x b1 b2 where "d (?b r1) = (x, b1)" "d (?b r2) = (x, b2)"
      "rd_status b1 = rd_status b2" "rd_position b1 = rd_position b2"
      by (cases "d (?b r1)"; cases "d (?b r2)") (auto simp: same_view_def)
    then show ?thesis
      using view upd by (cases x) (simp_all add: mu_binary_read_extension_object_body_def eqs)
  next
    case False
    then show ?thesis
      using view upd by (auto simp: mu_binary_read_extension_object_body_def eqs)
  qed
next
  fix r
  have e: "fst (d r') \<noteq> Inl MU_STATUS_GOOD" for r'
    by (rule reader_op.error_code [OF assms])
  show "fst (mu_binary_read_extension_object_body n d r) \<noteq> Inl MU_STATUS_GOOD"
    by (rule ext_body_outcome [of n d r]) (use e in auto)
  show "rd_status r \<noteq> MU_STATUS_GOOD \<Longrightarrow> \<exists>e. mu_binary_read_extension_object_body n d r = (Inl e, r)"
    by (rule ext_body_outcome [of n d r]) auto
  show "rd_buffer (snd (mu_binary_read_extension_object_body n d r)) = rd_buffer r"
    "rd_length (snd (mu_binary_read_extension_object_body n d r)) = rd_length r"
    "rd_position r \<le> rd_position (snd (mu_binary_read_extension_object_body n d r))"
    by (rule ext_body_outcome [of n d r]; simp)+
  show "rd_position r \<le> rd_length r \<Longrightarrow>
      rd_position (snd (mu_binary_read_extension_object_body n d r)) \<le> rd_length r"
    by (rule ext_body_outcome [of n d r]) auto
  show "rd_status (snd (mu_binary_read_extension_object_body n d r)) = MU_STATUS_GOOD"
    if "fst (mu_binary_read_extension_object_body n d r) = Inr v" "rd_status r = MU_STATUS_GOOD" for v
    using that by (cases rule: ext_body_outcome [of n d r]) auto
qed

lemma encoder_extension_object_header [encoder_intros]: "encoder (mu_binary_write_extension_object_header t n)"
  unfolding mu_binary_write_extension_object_header_def by (intro encoder_intros)

lemma writer_op_copy_body [encoder_intros]: "writer_op (wr_copy_body n bs)"
proof (unfold_locales, goal_cases)
  case (1 w)
  then show ?case
    using wr_frame_refl [OF 1] by (auto simp: wr_copy_body_def wr_frame_def wf_writer_def split: option.splits)
qed (auto simp: wr_copy_body_def)

lemma encoder_scratch_body [encoder_intros]: "encoder (write_scratch_body i bw)"
  unfolding write_scratch_body_def by (intro encoder_intros) simp_all

lemma encoder_wrapped [encoder_intros]:
  "encoder (mu_binary_write_argument a)" "encoder (mu_binary_write_server_diagnostics_summary d)"
  "encoder (mu_binary_write_server_status s)"
  unfolding mu_binary_write_argument_def mu_binary_write_server_diagnostics_summary_def
    mu_binary_write_server_status_def
  by (rule encoder_scratch_body)+

section \<open>Byte layouts\<close>

definition enc_ext_header :: "mu_nodeid \<Rightarrow> nat \<Rightarrow> bytes" where
  "enc_ext_header t n = enc_nodeid t @ (if n = 0 then [0x00] else [0x01] @ mu_binary_le_put_u32 (of_nat n))"

lemma encodes_ext_header:
  "valid_nodeid t \<Longrightarrow> encodes (mu_binary_write_extension_object_header t n) (enc_ext_header t n)"
  unfolding mu_binary_write_extension_object_header_def enc_ext_header_def
  by (intro encodes_seq encodes_if encodes_nodeid encodes_primitives)

lemma reads_ext_header:
  assumes "valid_nodeid t" "n < 2 ^ 31"
  shows "reads mu_binary_read_extension_object_header (enc_ext_header t n) (t, n)"
proof (cases "n = 0")
  case True
  then show ?thesis
    using assms unfolding mu_binary_read_extension_object_header_def enc_ext_header_def
    by (intro reads_bind [OF reads_nodeid])
      (auto intro!: reads_bind_Nil [OF reads_primitives(3)] reads_return)
next
  case False
  show ?thesis
    using assms False unfolding mu_binary_read_extension_object_header_def enc_ext_header_def
    apply (simp only: if_False)
    apply (intro reads_bind [OF reads_nodeid] reads_bind [OF reads_primitives(3)])
     apply (auto intro!: reads_bind_Nil [OF reads_primitives(6)] reads_return simp: int32_of_nat)
    done
qed

interpretation ext_header_codec: codec "\<lambda>(t, n). mu_binary_write_extension_object_header t n"
  mu_binary_read_extension_object_header "\<lambda>(t, n). enc_ext_header t n" "\<lambda>(t, n). valid_nodeid t \<and> n < 2 ^ 31"
  by unfold_locales (auto simp: encodes_ext_header reads_ext_header)

lemma reads_ext_body:
  assumes "reads d bs v"
  shows "reads (mu_binary_read_extension_object_body (length bs) d) bs v"
  unfolding reads_def
proof (intro allI impI, elim conjE)
  fix r :: mu_binary_reader and b
  assume r: "rd_buffer r = Some b" "rd_status r = MU_STATUS_GOOD" "rd_length r \<le> length b"
    "rd_position r + length bs \<le> rd_length r" "slice (rd_position r) (length bs) b = bs"
  let ?r = "mu_binary_reader_init (Some (drop (rd_position r) b)) (length bs)"
  have "d ?r = (Inr v, ?r\<lparr>rd_position := length bs\<rparr>)"
    using readsD [OF assms, of ?r "drop (rd_position r) b"] r
    by (simp add: mu_binary_reader_init_def slice_def)
  then show "mu_binary_read_extension_object_body (length bs) d r =
      (Inr v, r\<lparr>rd_position := rd_position r + length bs\<rparr>)"
    using r by (simp add: mu_binary_read_extension_object_body_def mu_binary_reader_init_def)
qed

text \<open>The scratch writer of capacity \<open>n\<close> after the bytes \<open>bs\<close>.\<close>

definition scratch :: "nat \<Rightarrow> bytes \<Rightarrow> mu_binary_writer" where
  "scratch n bs = \<lparr>wr_buffer = Some (put_at 0 bs (replicate n 0)), wr_length = n,
     wr_position = length bs, wr_status = MU_STATUS_GOOD\<rparr>"

lemma scratch_init: "mu_binary_writer_init (Some (replicate n 0)) n = scratch n []"
  by (simp add: mu_binary_writer_init_def scratch_def)

lemma scratch_step:
  assumes "encodes m bs" "length as + length bs \<le> n"
  shows "m (scratch n as) = (MU_STATUS_GOOD, scratch n (as @ bs))"
  using encodes_fits [OF assms(1), of "scratch n as" "put_at 0 as (replicate n 0)"] assms(2)
    put_at_append [of 0 as bs "replicate n 0"]
  by (simp add: scratch_def wf_writer_def)

lemma scratch_void:
  "encodes m bs \<Longrightarrow> length as + length bs \<le> n \<Longrightarrow> wr_void m k (scratch n as) = k (scratch n (as @ bs))"
  by (simp add: wr_void_def scratch_step)

lemmas scratch_writes =
  encodes_string [THEN scratch_void] encodes_nodeid [THEN scratch_void]
  encodes_localized_text [THEN scratch_step] encodes_primitives(3) [THEN scratch_step]
  encodes_primitives(6) [THEN scratch_void] encodes_primitives(7) [THEN scratch_void]
  encodes_primitives(7) [THEN scratch_step] encodes_primitives(8) [THEN scratch_void]

lemma encodes_scratch_body:
  assumes "length bs \<le> n"
  shows "encodes (write_scratch_body i (scratch n bs))
    (enc_ext_header \<lparr>namespace_index = 0, ident = NUMERIC i\<rparr> (length bs) @ bs)"
proof -
  have "take (length bs) (put_at 0 bs (replicate n 0)) = bs"
    by (simp add: put_at_def)
  then have "encodes (wr_copy_body (length bs) (put_at 0 bs (replicate n 0))) bs"
    by (auto simp: encodes_def wr_copy_body_def)
  moreover have "encodes (mu_binary_write_extension_object_header \<lparr>namespace_index = 0, ident = NUMERIC i\<rparr> (length bs))
     (enc_ext_header \<lparr>namespace_index = 0, ident = NUMERIC i\<rparr> (length bs))"
    by (rule encodes_ext_header) (simp add: valid_nodeid_def)
  ultimately show ?thesis
    unfolding write_scratch_body_def scratch_def by (simp add: encodes_seq)
qed

definition valid_argument :: "mu_argument \<Rightarrow> bool" where
  "valid_argument a \<longleftrightarrow> valid_string (arg_name a) \<and> valid_nodeid (arg_data_type a) \<and>
     valid_localized_text (arg_description a)"

definition enc_argument :: "mu_argument \<Rightarrow> bytes" where
  "enc_argument a = enc_string (arg_name a) @ enc_nodeid (arg_data_type a) @
     mu_binary_le_put_u32 (arg_value_rank a) @ mu_binary_le_put_u32 (-1) @ enc_localized_text (arg_description a)"

lemma encodes_argument:
  assumes "valid_argument a" "length (enc_argument a) \<le> 256"
  shows "encodes (mu_binary_write_argument a)
    (enc_ext_header \<lparr>namespace_index = 0, ident = NUMERIC 298\<rparr> (length (enc_argument a)) @ enc_argument a)"
proof -
  have "snd (argument_body a (scratch 256 [])) = scratch 256 (enc_argument a)"
    using assms unfolding argument_body_def valid_argument_def enc_argument_def
    by (simp add: scratch_writes)
  then show ?thesis
    unfolding mu_binary_write_argument_def scratch_init
    using encodes_scratch_body [OF assms(2)] by simp
qed

definition enc_diagnostics_summary :: "mu_diagnostics_summary \<Rightarrow> bytes" where
  "enc_diagnostics_summary d = concat (map mu_binary_le_put_u32
     [server_view_count d, current_session_count d, cumulated_session_count d,
      security_rejected_session_count d, rejected_session_count d, session_timeout_count d,
      session_abort_count d, current_subscription_count d, cumulated_subscription_count d,
      publishing_interval_count d, security_rejected_requests_count d, rejected_requests_count d])"

lemma encodes_diagnostics_summary:
  "encodes (mu_binary_write_server_diagnostics_summary d)
    (enc_ext_header \<lparr>namespace_index = 0, ident = NUMERIC 861\<rparr> 48 @ enc_diagnostics_summary d)"
proof -
  have len: "length (enc_diagnostics_summary d) = 48"
    by (simp add: enc_diagnostics_summary_def)
  have "snd (diagnostics_summary_body d (scratch 48 [])) = scratch 48 (enc_diagnostics_summary d)"
    unfolding diagnostics_summary_body_def enc_diagnostics_summary_def
    by (simp add: scratch_writes)
  then show ?thesis
    unfolding mu_binary_write_server_diagnostics_summary_def scratch_init
    using encodes_scratch_body [of "enc_diagnostics_summary d" 48] len by simp
qed

definition valid_server_status :: "mu_server_status \<Rightarrow> bool" where
  "valid_server_status s \<longleftrightarrow> valid_string (product_uri s) \<and> valid_string (manufacturer_name s) \<and>
     valid_string (product_name s) \<and> valid_string (software_version s) \<and> valid_string (build_number s)"

definition enc_server_status :: "mu_server_status \<Rightarrow> bytes" where
  "enc_server_status s =
     mu_binary_le_put_u64 (start_time s) @ mu_binary_le_put_u64 (current_time s) @
     mu_binary_le_put_u32 (srv_state s) @ enc_string (product_uri s) @ enc_string (manufacturer_name s) @
     enc_string (product_name s) @ enc_string (software_version s) @ enc_string (build_number s) @
     mu_binary_le_put_u64 (build_date s) @ mu_binary_le_put_u32 0 @ [0]"

lemma encodes_server_status:
  assumes "valid_server_status s" "length (enc_server_status s) \<le> 256"
  shows "encodes (mu_binary_write_server_status s)
    (enc_ext_header \<lparr>namespace_index = 0, ident = NUMERIC 864\<rparr> (length (enc_server_status s)) @ enc_server_status s)"
proof -
  have "snd (server_status_body s (scratch 256 [])) = scratch 256 (enc_server_status s)"
    using assms unfolding server_status_body_def valid_server_status_def enc_server_status_def
    by (simp add: scratch_writes)
  then show ?thesis
    unfolding mu_binary_write_server_status_def scratch_init
    using encodes_scratch_body [OF assms(2)] by simp
qed

section \<open>A string that does not fit the scratch array\<close>

text \<open>
  \<^verbatim>\<open>mu_binary_write_string\<close> reports a payload that does not fit through its return value only; the
  sticky status stays Good and the length prefix stays written.  The three writers above look at the
  sticky status alone.
\<close>

lemma scratch_void_oversized:
  assumes "length d \<le> MU_MAX_ENCODED_STRING_LENGTH" "length as + 4 \<le> n" "n < length as + 4 + length d"
  shows "wr_void (mu_binary_write_string (mk_string d)) k (scratch n as) =
    k (scratch n (as @ mu_binary_le_put_u32 (of_nat (length d))))"
proof -
  have "d \<noteq> []" using assms by auto
  have "snd (wr_memcpy MU_STATUS_BAD_ENCODINGERROR d (length d) (scratch n bs)) = scratch n bs"
    if "length bs = length as + 4" for bs
    using that assms by (auto simp: wr_memcpy_def mu_checked_memcpy_off_def scratch_def)
  then show ?thesis
    using assms \<open>d \<noteq> []\<close> scratch_step [OF encodes_primitives(6), where as = as and n = n]
    by (simp add: wr_void_def mu_binary_write_string_def mk_string_def str_bytes_def int32_of_nat wr_seq_def)
qed

text \<open>
  C8.  The sticky writer status does not cover a string payload that does not fit.  When the
  product URI exceeds what is left of the 256-byte scratch array, the writer of ServerStatus still
  reports success and emits a body in which the URI's length is announced but its bytes are missing.
  The other four strings of the build information are null here, so nothing else takes up the array.
\<close>

theorem server_status_oversized_string:
  assumes "232 < length d" "length d \<le> MU_MAX_ENCODED_STRING_LENGTH"
    and "product_uri s = mk_string d" "manufacturer_name s = null_string" "product_name s = null_string"
    "software_version s = null_string" "build_number s = null_string"
  shows "encodes (mu_binary_write_server_status s)
    (enc_ext_header \<lparr>namespace_index = 0, ident = NUMERIC 864\<rparr> 53 @
     mu_binary_le_put_u64 (start_time s) @ mu_binary_le_put_u64 (current_time s) @
     mu_binary_le_put_u32 (srv_state s) @ mu_binary_le_put_u32 (of_nat (length d)) @
     mu_binary_le_put_u32 (-1) @ mu_binary_le_put_u32 (-1) @ mu_binary_le_put_u32 (-1) @ mu_binary_le_put_u32 (-1) @
     mu_binary_le_put_u64 (build_date s) @ mu_binary_le_put_u32 0 @ [0])" (is "encodes _ (_ @ ?body)")
proof -
  have "snd (server_status_body s (scratch 256 [])) = scratch 256 ?body"
    using assms(1,2) unfolding server_status_body_def assms(3-)
    by (simp add: scratch_void_oversized scratch_writes)
  moreover have "length ?body = 53" by simp
  ultimately show ?thesis
    unfolding mu_binary_write_server_status_def scratch_init
    using encodes_scratch_body [of ?body 256 864] by simp
qed

definition sample_server_status :: mu_server_status where
  "sample_server_status = \<lparr>start_time = 1, current_time = 2, srv_state = 0, product_uri = mk_string (replicate 233 0x61),
     manufacturer_name = null_string, product_name = null_string, software_version = null_string,
     build_number = null_string, build_date = 3\<rparr>"

theorem server_status_oversized_string_witness:
  "\<exists>bs. length bs = 53 \<and> encodes (mu_binary_write_server_status sample_server_status)
     (enc_ext_header \<lparr>namespace_index = 0, ident = NUMERIC 864\<rparr> 53 @ bs)"
  using server_status_oversized_string [of "replicate 233 0x61" sample_server_status]
  by (simp add: sample_server_status_def) (rule exI, rule conjI [rotated], assumption, simp)

section \<open>Main properties\<close>



end
