(* ===== verification/Mu_Framing.thy ===== *)
theory Mu_Framing
  imports Mu_Extension_Object
begin

unbundle bit_operations_syntax

text \<open>
  The transport and chunk layer below the services: \<^verbatim>\<open>src/core/message_chunk.c\<close> (chunk and
  sequence headers), \<^verbatim>\<open>src/core/sequence.c\<close> (the sequence-number check),
  \<^verbatim>\<open>src/core/uasc.c\<close> (response framing), \<^verbatim>\<open>src/core/tcp_connection.c\<close> (Hello, Acknowledge, Error,
  ReverseHello), \<^verbatim>\<open>src/core/service_message.c\<close> and \<^verbatim>\<open>src/services/service_header.c\<close>.

  A buffer argument is the caller's array, \<^const>\<open>None\<close> for a null pointer; a function that writes to
  it returns it updated.
\<close>

section \<open>Chunk headers\<close>

record mu_message_header =
  mh_message_type :: bytes
  mh_chunk_type :: opcua_byte_t
  mh_message_size :: opcua_uint32_t
  mh_secure_channel_id :: opcua_uint32_t

record mu_sequence_header =
  sh_sequence_number :: opcua_uint32_t
  sh_request_id :: opcua_uint32_t

abbreviation (input) MU_UASC_SYMMETRIC_HEADER_SIZE :: nat where "MU_UASC_SYMMETRIC_HEADER_SIZE \<equiv> 24"
abbreviation (input) MU_UASC_ASYMMETRIC_NONE_HEADER_SIZE :: nat where "MU_UASC_ASYMMETRIC_NONE_HEADER_SIZE \<equiv> 79"

text \<open>The three message-type bytes read as a little-endian number.\<close>

definition HEL :: opcua_uint32_t where "HEL = 0x4C4548"
definition ACK :: opcua_uint32_t where "ACK = 0x4B4341"
definition ERR :: opcua_uint32_t where "ERR = 0x525245"
definition OPN :: opcua_uint32_t where "OPN = 0x4E504F"
definition CLO :: opcua_uint32_t where "CLO = 0x4F4C43"
definition MSG :: opcua_uint32_t where "MSG = 0x47534D"

definition msg_type_of :: "bytes \<Rightarrow> opcua_uint32_t" where
  "msg_type_of t = ucast (t ! 0) OR push_bit 8 (ucast (t ! 1)) OR push_bit 16 (ucast (t ! 2))"

definition mu_parse_message_header :: "bytes option \<Rightarrow> nat \<Rightarrow> opcua_statuscode_t + mu_message_header" where
  "mu_parse_message_header buffer length' =
    (case buffer of
       None \<Rightarrow> Inl MU_STATUS_BAD_INTERNALERROR
     | Some b \<Rightarrow>
       if length' < 8 then Inl MU_STATUS_BAD_TCPINTERNALERROR
       else
         let message_type = take 3 b;
             chunk_type = b ! 3;
             msg_type = msg_type_of message_type;
             message_size = mu_binary_le_get_u32 (slice 4 4 b)
         in
         if msg_type \<noteq> HEL \<and> msg_type \<noteq> ACK \<and> msg_type \<noteq> ERR \<and> msg_type \<noteq> OPN \<and> msg_type \<noteq> CLO \<and> msg_type \<noteq> MSG
         then Inl MU_STATUS_BAD_TCPMESSAGETYPEINVALID
         else if chunk_type \<noteq> 0x43 \<and> chunk_type \<noteq> 0x46 \<and> chunk_type \<noteq> 0x41
         then Inl MU_STATUS_BAD_TCPMESSAGETYPEINVALID
         else if message_size < 8 then Inl MU_STATUS_BAD_TCPINTERNALERROR
         else if unat message_size > length' then Inl MU_STATUS_BAD_TCPMESSAGETOOLARGE
         else if chunk_type = 0x43 \<and> message_type ! 0 \<noteq> 0x4D then Inl MU_STATUS_BAD_TCPINTERNALERROR
         else if msg_type = HEL \<or> msg_type = ACK \<or> msg_type = ERR
         then Inr \<lparr>mh_message_type = message_type, mh_chunk_type = chunk_type,
                   mh_message_size = message_size, mh_secure_channel_id = 0\<rparr>
         else if length' < 12 then Inl MU_STATUS_BAD_TCPINTERNALERROR
         else if message_size < 12 then Inl MU_STATUS_BAD_TCPINTERNALERROR
         else if chunk_type = 0x41 then
           (if message_type ! 0 = 0x4F then Inl MU_STATUS_BAD_TCPINTERNALERROR
            else if unat message_size < MU_UASC_SYMMETRIC_HEADER_SIZE + 4 then Inl MU_STATUS_BAD_TCPINTERNALERROR
            else (case mu_binary_read_statuscode
                    ((mu_binary_reader_init (Some b) length')\<lparr>rd_position := MU_UASC_SYMMETRIC_HEADER_SIZE\<rparr>) of
                    (Inl status, _) \<Rightarrow> Inl status
                  | (Inr abort_status, _) \<Rightarrow>
                      Inl (if abort_status = MU_STATUS_GOOD then MU_STATUS_BAD_TCPINTERNALERROR else abort_status)))
         else Inr \<lparr>mh_message_type = message_type, mh_chunk_type = chunk_type, mh_message_size = message_size,
                   mh_secure_channel_id = mu_binary_le_get_u32 (slice 8 4 b)\<rparr>)"

definition mu_write_message_header :: "bytes option \<Rightarrow> nat \<Rightarrow> mu_message_header \<Rightarrow> opcua_statuscode_t + bytes" where
  "mu_write_message_header buffer length' header =
    (case buffer of
       None \<Rightarrow> Inl MU_STATUS_BAD_INTERNALERROR
     | Some b \<Rightarrow>
       if length' < 12 then Inl MU_STATUS_BAD_INTERNALERROR
       else Inr (put_at 0 (take 3 (mh_message_type header) @ [mh_chunk_type header] @
         mu_binary_le_put_u32 (mh_message_size header) @ mu_binary_le_put_u32 (mh_secure_channel_id header)) b))"

definition mu_parse_sequence_header ::
  "bytes option \<Rightarrow> nat \<Rightarrow> nat \<Rightarrow> opcua_statuscode_t + mu_sequence_header \<times> nat" where
  "mu_parse_sequence_header buffer length' offset =
    (case buffer of
       None \<Rightarrow> Inl MU_STATUS_BAD_INTERNALERROR
     | Some b \<Rightarrow>
       if offset > length' then Inl MU_STATUS_BAD_DECODINGERROR
       else if 4 > length' - offset then Inl MU_STATUS_BAD_DECODINGERROR
       else if 4 > length' - (offset + 4) then Inl MU_STATUS_BAD_DECODINGERROR
       else Inr (\<lparr>sh_sequence_number = mu_binary_le_get_u32 (slice offset 4 b),
                  sh_request_id = mu_binary_le_get_u32 (slice (offset + 4) 4 b)\<rparr>, offset + 8))"

text \<open>A header that does not fit leaves its first half behind when that still fits.\<close>

definition mu_write_sequence_header ::
  "bytes option \<Rightarrow> nat \<Rightarrow> nat \<Rightarrow> mu_sequence_header \<Rightarrow> opcua_statuscode_t \<times> bytes option \<times> nat" where
  "mu_write_sequence_header buffer length' offset header =
    (case buffer of
       None \<Rightarrow> (MU_STATUS_BAD_INTERNALERROR, buffer, offset)
     | Some b \<Rightarrow>
       if offset > length' then (MU_STATUS_BAD_ENCODINGERROR, buffer, offset)
       else if 4 > length' - offset then (MU_STATUS_BAD_ENCODINGERROR, buffer, offset)
       else
         let b1 = put_at offset (mu_binary_le_put_u32 (sh_sequence_number header)) b in
         if 4 > length' - (offset + 4) then (MU_STATUS_BAD_ENCODINGERROR, Some b1, offset)
         else (MU_STATUS_GOOD, Some (put_at (offset + 4) (mu_binary_le_put_u32 (sh_request_id header)) b1), offset + 8))"

section \<open>Chunk assembler\<close>

record mu_chunk_assembler =
  ca_buffer :: bytes
  ca_length :: nat
  ca_secure_channel_id :: opcua_uint32_t
  ca_token_id :: opcua_uint32_t
  ca_is_active :: bool

definition mu_chunk_assembler_init :: "mu_chunk_assembler \<Rightarrow> mu_chunk_assembler" where
  "mu_chunk_assembler_init assembler =
    \<lparr>ca_buffer = replicate (length (ca_buffer assembler)) 0, ca_length = 0, ca_secure_channel_id = 0,
     ca_token_id = 0, ca_is_active = False\<rparr>"

definition mu_chunk_assembler_reset :: "mu_chunk_assembler \<Rightarrow> mu_chunk_assembler" where
  "mu_chunk_assembler_reset assembler = assembler\<lparr>ca_is_active := False, ca_length := 0\<rparr>"

section \<open>Sequence numbers\<close>

record mu_sequence_validator =
  last_sequence_number :: opcua_uint32_t
  is_initialized :: bool

definition mu_sequence_validator_init :: mu_sequence_validator where
  "mu_sequence_validator_init = \<lparr>last_sequence_number = 0, is_initialized = False\<rparr>"

definition mu_sequence_validate ::
  "mu_sequence_validator \<Rightarrow> opcua_uint32_t \<Rightarrow> opcua_statuscode_t \<times> mu_sequence_validator" where
  "mu_sequence_validate validator sequence_number =
    (if \<not> is_initialized validator then
       (MU_STATUS_GOOD, \<lparr>last_sequence_number = sequence_number, is_initialized = True\<rparr>)
     else if sequence_number = last_sequence_number validator + 1 then
       (MU_STATUS_GOOD, validator\<lparr>last_sequence_number := sequence_number\<rparr>)
     else if last_sequence_number validator > 4294966271 \<and> sequence_number < 1024 then
       (MU_STATUS_GOOD, validator\<lparr>last_sequence_number := sequence_number\<rparr>)
     else (MU_STATUS_BAD_SECURITYCHECKSFAILED, validator))"

section \<open>Response framing\<close>

definition mu_uasc_finalize_symmetric ::
  "bytes option \<Rightarrow> nat \<Rightarrow> opcua_uint32_t \<Rightarrow> opcua_uint32_t \<Rightarrow> opcua_uint32_t \<Rightarrow> opcua_uint32_t \<Rightarrow> nat \<Rightarrow>
   opcua_statuscode_t + bytes \<times> nat" where
  "mu_uasc_finalize_symmetric buffer buffer_size secure_channel_id token_id sequence_number request_id body_length =
    (case buffer of
       None \<Rightarrow> Inl MU_STATUS_BAD_INTERNALERROR
     | Some b \<Rightarrow>
       let total = MU_UASC_SYMMETRIC_HEADER_SIZE + body_length in
       if total > buffer_size then Inl MU_STATUS_BAD_RESPONSETOOLARGE
       else Inr (put_at 0 (cstr ''MSGF'' @ mu_binary_le_put_u32 (of_nat total) @
              mu_binary_le_put_u32 secure_channel_id @ mu_binary_le_put_u32 token_id @
              mu_binary_le_put_u32 sequence_number @ mu_binary_le_put_u32 request_id) b, total))"

definition policy_none_uri :: bytes where
  "policy_none_uri = cstr ''http://opcfoundation.org/UA/SecurityPolicy#None''"

definition mu_uasc_finalize_asymmetric_none ::
  "bytes option \<Rightarrow> nat \<Rightarrow> opcua_uint32_t \<Rightarrow> opcua_uint32_t \<Rightarrow> opcua_uint32_t \<Rightarrow> nat \<Rightarrow>
   opcua_statuscode_t + bytes \<times> nat" where
  "mu_uasc_finalize_asymmetric_none buffer buffer_size secure_channel_id sequence_number request_id body_length =
    (case buffer of
       None \<Rightarrow> Inl MU_STATUS_BAD_INTERNALERROR
     | Some b \<Rightarrow>
       let total = MU_UASC_ASYMMETRIC_NONE_HEADER_SIZE + body_length in
       if total > buffer_size then Inl MU_STATUS_BAD_RESPONSETOOLARGE
       else Inr
         (put_at 75 (mu_binary_le_put_u32 request_id)
         (put_at 71 (mu_binary_le_put_u32 sequence_number)
         (put_at 67 (mu_binary_le_put_u32 0xFFFFFFFF)
         (put_at 63 (mu_binary_le_put_u32 0xFFFFFFFF)
         (put_at 16 policy_none_uri
         (put_at 12 (mu_binary_le_put_u32 (of_nat (length policy_none_uri)))
         (put_at 8 (mu_binary_le_put_u32 secure_channel_id)
         (put_at 4 (mu_binary_le_put_u32 (of_nat total))
         (put_at 0 (cstr ''OPNF'') b)))))))), total))"

section \<open>TCP connection protocol\<close>

datatype mu_tcp_state = MU_TCP_STATE_CLOSED | MU_TCP_STATE_CONNECTED | MU_TCP_STATE_ESTABLISHED

record mu_tcp_connection =
  tcp_state :: mu_tcp_state
  receive_buffer_size :: opcua_uint32_t
  send_buffer_size :: opcua_uint32_t
  max_message_size :: opcua_uint32_t
  max_chunk_count :: opcua_uint32_t
  protocol_version :: opcua_uint32_t

text \<open>The configuration fields this layer reads; C strings are their bytes without the terminator.\<close>

record mu_transport_config =
  cfg_endpoint_url :: "bytes option"
  cfg_application_uri :: "bytes option"
  cfg_receive_buffer_size :: nat
  cfg_send_buffer_size :: nat
  cfg_max_chunk_count :: opcua_uint32_t
  cfg_max_message_size :: opcua_uint32_t

definition mu_tcp_connection_init :: mu_tcp_connection where
  "mu_tcp_connection_init =
    \<lparr>tcp_state = MU_TCP_STATE_CLOSED, receive_buffer_size = 0, send_buffer_size = 0, max_message_size = 0,
     max_chunk_count = 0, protocol_version = 0\<rparr>"

text \<open>The fields of a Hello message, read in order behind the message header.\<close>

record mu_hello =
  hel_protocol_version :: opcua_uint32_t
  hel_receive_buffer_size :: opcua_uint32_t
  hel_send_buffer_size :: opcua_uint32_t
  hel_max_message_size :: opcua_uint32_t
  hel_max_chunk_count :: opcua_uint32_t
  hel_endpoint_url :: mu_string

definition read_hello :: "nat \<Rightarrow> mu_hello rd" where
  "read_hello length' =
    rd_bind mu_binary_read_int32 (\<lambda>message_size.
    if sint message_size > sint (of_nat length' :: opcua_int32_t) then rd_error MU_STATUS_BAD_TCPMESSAGETOOLARGE
    else
      rd_bind mu_binary_read_uint32 (\<lambda>pv.
      rd_bind mu_binary_read_uint32 (\<lambda>rb.
      rd_bind mu_binary_read_uint32 (\<lambda>sb.
      rd_bind mu_binary_read_uint32 (\<lambda>mm.
      rd_bind mu_binary_read_uint32 (\<lambda>mc.
      rd_bind mu_binary_read_string (\<lambda>url.
      rd_return \<lparr>hel_protocol_version = pv, hel_receive_buffer_size = rb, hel_send_buffer_size = sb,
        hel_max_message_size = mm, hel_max_chunk_count = mc, hel_endpoint_url = url\<rparr>)))))))"

definition negotiate :: "mu_hello \<Rightarrow> mu_transport_config \<Rightarrow> mu_tcp_connection \<Rightarrow> mu_tcp_connection" where
  "negotiate h config connection =
    (let ack_receive_buffer_size =
           (if hel_send_buffer_size h < of_nat (cfg_receive_buffer_size config) then hel_send_buffer_size h
            else of_nat (cfg_receive_buffer_size config));
         ack_send_buffer_size =
           (if hel_receive_buffer_size h < of_nat (cfg_send_buffer_size config) then hel_receive_buffer_size h
            else of_nat (cfg_send_buffer_size config));
         mms = (if hel_max_message_size h < cfg_max_message_size config then hel_max_message_size h
                else cfg_max_message_size config);
         mcc = (if hel_max_chunk_count h < cfg_max_chunk_count config then hel_max_chunk_count h
                else cfg_max_chunk_count config)
     in connection\<lparr>protocol_version := hel_protocol_version h,
          receive_buffer_size := ack_send_buffer_size, send_buffer_size := ack_receive_buffer_size,
          max_message_size := (if mms = 0 then cfg_max_message_size config else mms),
          max_chunk_count := (if mcc = 0 then cfg_max_chunk_count config else mcc)\<rparr>)"

definition ack_bytes :: "mu_tcp_connection \<Rightarrow> bytes" where
  "ack_bytes connection =
    cstr ''ACKF'' @ mu_binary_le_put_u32 28 @ mu_binary_le_put_u32 0 @
    mu_binary_le_put_u32 (send_buffer_size connection) @ mu_binary_le_put_u32 (receive_buffer_size connection) @
    mu_binary_le_put_u32 (max_message_size connection) @ mu_binary_le_put_u32 (max_chunk_count connection)"

definition mu_tcp_process_hello ::
  "mu_tcp_connection \<Rightarrow> bytes option \<Rightarrow> nat \<Rightarrow> mu_transport_config \<Rightarrow> bytes option \<Rightarrow> nat \<Rightarrow>
   opcua_statuscode_t \<times> mu_tcp_connection \<times> bytes option \<times> nat" where
  "mu_tcp_process_hello connection message length' config ack_message ack_length =
    (case (message, ack_message) of
       (Some msg, Some ack) \<Rightarrow>
         if length' < 8 then (MU_STATUS_BAD_TCPMESSAGETOOLARGE, connection, ack_message, ack_length)
         else if msg ! 0 \<noteq> 0x48 \<or> msg ! 1 \<noteq> 0x45 \<or> msg ! 2 \<noteq> 0x4C \<or> msg ! 3 \<noteq> 0x46
         then (MU_STATUS_BAD_TCPMESSAGETYPEINVALID, connection, ack_message, ack_length)
         else (case read_hello length' ((mu_binary_reader_init (Some msg) length')\<lparr>rd_position := 4\<rparr>) of
           (Inl status, _) \<Rightarrow> (status, connection, ack_message, ack_length)
         | (Inr h, _) \<Rightarrow>
             if sint (str_length (hel_endpoint_url h)) \<ge> 4096
             then (MU_STATUS_BAD_TCPENDPOINTURLINVALID, connection, ack_message, ack_length)
             else if unat (hel_receive_buffer_size h) < MU_MIN_CHUNK_SIZE \<or>
                     unat (hel_send_buffer_size h) < MU_MIN_CHUNK_SIZE
             then (MU_STATUS_BAD_TCPNOTENOUGHRESOURCES, connection, ack_message, ack_length)
             else
               let connection = negotiate h config connection in
               if ack_length < 28 then (MU_STATUS_BAD_INTERNALERROR, connection, ack_message, ack_length)
               else (MU_STATUS_GOOD, connection\<lparr>tcp_state := MU_TCP_STATE_ESTABLISHED\<rparr>,
                     Some (put_at 0 (ack_bytes connection) ack), 28))
     | _ \<Rightarrow> (MU_STATUS_BAD_INTERNALERROR, connection, ack_message, ack_length))"

definition mu_tcp_create_error_message ::
  "opcua_statuscode_t \<Rightarrow> bytes option \<Rightarrow> bytes option \<Rightarrow> nat \<Rightarrow> opcua_statuscode_t \<times> bytes option \<times> nat" where
  "mu_tcp_create_error_message error_code reason err_message err_length =
    (case err_message of
       None \<Rightarrow> (MU_STATUS_BAD_INTERNALERROR, err_message, err_length)
     | Some b \<Rightarrow>
       let reason_len = (case reason of None \<Rightarrow> 0 | Some s \<Rightarrow> length s);
           total_len = 8 + 4 + 4 + reason_len
       in
       if err_length < total_len then (MU_STATUS_BAD_INTERNALERROR, err_message, err_length)
       else
         let b1 = put_at 0 (cstr ''ERRF'' @ mu_binary_le_put_u32 (of_nat total_len) @ mu_binary_le_put_u32 error_code) b
         in (case mu_binary_write_string \<lparr>str_length = of_nat reason_len, str_data = reason\<rparr>
                    ((mu_binary_writer_init (Some b1) err_length)\<lparr>wr_position := 12\<rparr>) of
               (status, writer) \<Rightarrow>
                 if status \<noteq> MU_STATUS_GOOD then (status, wr_buffer writer, err_length)
                 else (MU_STATUS_GOOD, wr_buffer writer, wr_position writer)))"

definition mu_tcp_create_reverse_hello ::
  "mu_transport_config \<Rightarrow> bytes option \<Rightarrow> nat \<Rightarrow> opcua_statuscode_t \<times> bytes option \<times> nat" where
  "mu_tcp_create_reverse_hello config buffer length' =
    (case buffer of
       None \<Rightarrow> (MU_STATUS_BAD_INTERNALERROR, buffer, length')
     | Some b \<Rightarrow>
       let server_uri = (case cfg_application_uri config of None \<Rightarrow> [] | Some s \<Rightarrow> s);
           endpoint = (case cfg_endpoint_url config of None \<Rightarrow> [] | Some s \<Rightarrow> s)
       in
       if length server_uri \<ge> 4096 \<or> length endpoint \<ge> 4096
       then (MU_STATUS_BAD_TCPMESSAGETOOLARGE, buffer, length')
       else
         let total = 8 + 4 + length server_uri + 4 + length endpoint in
         if length' < total then (MU_STATUS_BAD_INTERNALERROR, buffer, length')
         else
           (case wr_seq (mu_binary_write_string (mk_string server_uri)) (mu_binary_write_string (mk_string endpoint))
               ((mu_binary_writer_init (Some (put_at 0 (cstr ''RHEF'' @ mu_binary_le_put_u32 (of_nat total)) b)) length')
                  \<lparr>wr_position := 8\<rparr>) of
              (status, writer) \<Rightarrow>
                if status \<noteq> MU_STATUS_GOOD then (status, wr_buffer writer, length')
                else (MU_STATUS_GOOD, wr_buffer writer, wr_position writer)))"

section \<open>Service prefix and headers\<close>

definition mu_parse_service_prefix :: "bytes option \<Rightarrow> nat \<Rightarrow> nat \<Rightarrow> opcua_statuscode_t + mu_nodeid \<times> nat" where
  "mu_parse_service_prefix buffer length' offset =
    (case buffer of
       None \<Rightarrow> Inl MU_STATUS_BAD_INTERNALERROR
     | Some b \<Rightarrow> (case mu_binary_read_nodeid ((mu_binary_reader_init buffer length')\<lparr>rd_position := offset\<rparr>) of
         (Inl status, _) \<Rightarrow> Inl status
       | (Inr nid, reader) \<Rightarrow> Inr (nid, rd_position reader)))"

definition mu_write_service_prefix ::
  "bytes option \<Rightarrow> nat \<Rightarrow> nat \<Rightarrow> mu_nodeid \<Rightarrow> opcua_statuscode_t \<times> bytes option \<times> nat" where
  "mu_write_service_prefix buffer length' offset nid =
    (case buffer of
       None \<Rightarrow> (MU_STATUS_BAD_INTERNALERROR, buffer, offset)
     | Some b \<Rightarrow> (case mu_binary_write_nodeid nid ((mu_binary_writer_init buffer length')\<lparr>wr_position := offset\<rparr>) of
         (status, writer) \<Rightarrow>
           if status \<noteq> MU_STATUS_GOOD then (status, wr_buffer writer, offset)
           else (MU_STATUS_GOOD, wr_buffer writer, wr_position writer)))"

record mu_request_header =
  authentication_token :: mu_nodeid
  rq_timestamp :: opcua_datetime_t
  rq_request_handle :: opcua_uint32_t
  rq_return_diagnostics :: opcua_uint32_t
  audit_entry_id :: mu_string
  timeout_hint :: opcua_uint32_t

record mu_response_header =
  rs_timestamp :: opcua_datetime_t
  rs_request_handle :: opcua_uint32_t
  service_result :: opcua_statuscode_t
  rs_return_diagnostics :: opcua_uint32_t

definition mu_request_header_decode :: "mu_request_header rd" where
  "mu_request_header_decode =
    rd_bind mu_binary_read_nodeid (\<lambda>tok.
    rd_bind mu_binary_read_int64 (\<lambda>ts.
    rd_bind mu_binary_read_uint32 (\<lambda>rh.
    rd_bind mu_binary_read_uint32 (\<lambda>rd.
    rd_bind mu_binary_read_string (\<lambda>ae.
    rd_bind mu_binary_read_uint32 (\<lambda>th.
    rd_bind mu_binary_skip_extension_object (\<lambda>_.
    rd_return \<lparr>authentication_token = tok, rq_timestamp = ts, rq_request_handle = rh,
      rq_return_diagnostics = rd, audit_entry_id = ae, timeout_hint = th\<rparr>)))))))"

definition mu_response_header_encode :: "mu_response_header \<Rightarrow> wr" where
  "mu_response_header_encode header =
    wr_seq (mu_binary_write_int64 (rs_timestamp header))
    (wr_seq (mu_binary_write_uint32 (rs_request_handle header))
    (wr_seq (mu_binary_write_statuscode (service_result header))
    (wr_seq (if rs_return_diagnostics header AND 0x20 \<noteq> 0
             then wr_seq (mu_binary_write_byte 0x20) (mu_binary_write_statuscode (service_result header))
             else mu_binary_write_byte 0x00)
    (wr_seq (mu_binary_write_int32 (-1))
      (mu_binary_write_extension_object_header \<lparr>namespace_index = 0, ident = NUMERIC 0\<rparr> 0)))))"

section \<open>Properties of chunk headers\<close>

lemmas msg_type_defs = HEL_def ACK_def ERR_def OPN_def CLO_def MSG_def

lemma msg_type_of_literals [simp]:
  "msg_type_of [0x4D, 0x53, 0x47] = MSG" "msg_type_of [0x4F, 0x50, 0x4E] = OPN"
  "msg_type_of [0x43, 0x4C, 0x4F] = CLO" "msg_type_of [0x45, 0x52, 0x52] = ERR"
  by (simp_all add: msg_type_of_def msg_type_defs)

lemma msg_type_distinct [simp]:
  "MSG \<noteq> HEL" "MSG \<noteq> ACK" "MSG \<noteq> ERR" "OPN \<noteq> HEL" "OPN \<noteq> ACK" "OPN \<noteq> ERR" "OPN \<noteq> MSG"
  "CLO \<noteq> HEL" "CLO \<noteq> ACK" "CLO \<noteq> ERR"
  by (simp_all add: msg_type_defs)

lemma cstr_literals [simp]:
  "cstr ''MSGF'' = [0x4D, 0x53, 0x47, 0x46]" "cstr ''OPNF'' = [0x4F, 0x50, 0x4E, 0x46]"
  "cstr ''ACKF'' = [0x41, 0x43, 0x4B, 0x46]" "cstr ''ERRF'' = [0x45, 0x52, 0x52, 0x46]"
  "cstr ''RHEF'' = [0x52, 0x48, 0x45, 0x46]"
  by (simp_all add: cstr_def)

lemma length_policy_none_uri [simp]: "length policy_none_uri = 47"
  by (simp add: policy_none_uri_def cstr_def)

text \<open>A header that parses obeys the protocol's limits and needs nothing beyond the received bytes.\<close>

lemma parse_message_header_Inr:
  assumes "mu_parse_message_header (Some b) n = Inr h"
  obtains ch where "\<lparr>mh_message_type = take 3 b, mh_chunk_type = b ! 3,
      mh_message_size = mu_binary_le_get_u32 (slice 4 4 b), mh_secure_channel_id = ch\<rparr> = h"
    "\<not> n < 8" "\<not> mu_binary_le_get_u32 (slice 4 4 b) < 8" "\<not> n < unat (mu_binary_le_get_u32 (slice 4 4 b))"
    "msg_type_of (take 3 b) \<in> {HEL, ACK, ERR, OPN, CLO, MSG}" "b ! 3 \<in> {0x43, 0x46, 0x41}"
    "b ! 3 = 0x43 \<longrightarrow> b ! 0 = 0x4D"
    "msg_type_of (take 3 b) \<in> {HEL, ACK, ERR} \<or> \<not> mu_binary_le_get_u32 (slice 4 4 b) < 12 \<and> b ! 3 \<noteq> 0x41"
  using assms unfolding mu_parse_message_header_def Let_def option.case case_prod_beta
  apply (simp split: if_split_asm sum.split_asm)
  subgoal premises p by (rule p(1) [OF p(9)]) (use p(2-) in auto)
  done

lemma take_eq_nth: "take n b1 = take n b2 \<Longrightarrow> i < n \<Longrightarrow> b1 ! i = b2 ! i"
  by (metis nth_take)

lemma read_statuscode_local:
  assumes "take n b1 = take n b2"
  shows "fst (mu_binary_read_statuscode ((mu_binary_reader_init (Some b1) n)\<lparr>rd_position := p\<rparr>)) =
    fst (mu_binary_read_statuscode ((mu_binary_reader_init (Some b2) n)\<lparr>rd_position := p\<rparr>))"
  using reader_op.view [OF decoder_reader_op [OF decoder_float(3)],
    of "(mu_binary_reader_init (Some b1) n)\<lparr>rd_position := p\<rparr>"
       "(mu_binary_reader_init (Some b2) n)\<lparr>rd_position := p\<rparr>"] assms
  by (simp add: same_view_def mu_binary_reader_init_def)

lemma case_fst: "(case r of (Inl e, _) \<Rightarrow> f e | (Inr v, _) \<Rightarrow> g v) = (case fst r of Inl e \<Rightarrow> f e | Inr v \<Rightarrow> g v)"
  by (cases r; cases "fst r") simp_all

lemma parse_message_header_local:
  assumes eq: "take n b1 = take n b2"
  shows "mu_parse_message_header (Some b1) n = mu_parse_message_header (Some b2) n"
proof (cases "n < 8")
  case True
  then show ?thesis by (simp add: mu_parse_message_header_def)
next
  case False
  have t: "take 3 b1 = take 3 b2"
    using eq False by (metis le_trans linorder_not_less nat_le_linear numeral_le_iff semiring_norm(69,70,72,73) take_take_le)
  have "b1 ! 3 = b2 ! 3" using take_eq_nth [OF eq, of 3] False by simp
  moreover have "slice 4 4 b1 = slice 4 4 b2" using slice_cong [OF eq, of 4 4] False by simp
  moreover have "12 \<le> n \<Longrightarrow> slice 8 4 b1 = slice 8 4 b2" using slice_cong [OF eq, of 8 4] by simp
  ultimately show ?thesis
    unfolding mu_parse_message_header_def Let_def option.case case_fst read_statuscode_local [OF eq]
    by (simp only: t) (simp cong: if_cong)
qed

lemma sequence_header_roundtrip:
  assumes "offset + 8 \<le> n" "n \<le> length b"
  shows "\<exists>b'. mu_write_sequence_header (Some b) n offset h = (MU_STATUS_GOOD, Some b', offset + 8) \<and>
    length b' = length b \<and> mu_parse_sequence_header (Some b') n offset = Inr (h, offset + 8) \<and>
    take offset b' = take offset b \<and> drop (offset + 8) b' = drop (offset + 8) b"
proof -
  let ?s = "mu_binary_le_put_u32 (sh_sequence_number h)" and ?r = "mu_binary_le_put_u32 (sh_request_id h)"
  have b': "put_at (offset + 4) ?r (put_at offset ?s b) = put_at offset (?s @ ?r) b"
    using put_at_append [of offset ?s ?r b] assms by simp
  have sl: "slice offset 8 (put_at offset (?s @ ?r) b) = ?s @ ?r"
    using slice_put_at [of offset "?s @ ?r" b] assms by simp
  then have "slice offset 4 (put_at offset (?s @ ?r) b) = ?s" "slice (offset + 4) 4 (put_at offset (?s @ ?r) b) = ?r"
    using slice_eq_appendD [of offset ?s ?r "put_at offset (?s @ ?r) b"] by simp_all
  moreover have "\<not> n < offset" "\<not> n - offset < 4" "\<not> n - (offset + 4) < 4" "offset + 8 \<le> length b"
    using assms by linarith+
  ultimately show ?thesis
    using assms by (simp add: mu_write_sequence_header_def mu_parse_sequence_header_def Let_def b')
qed

section \<open>Properties of response framing\<close>

lemma finalize_symmetric_parses:
  assumes fin: "mu_uasc_finalize_symmetric (Some b) sz ch tok seq req n = Inr (b', tot)"
    and "sz \<le> length b" "sz < 2 ^ 32"
  shows "tot = 24 + n" "length b' = length b" "drop 24 b' = drop 24 b"
    and "mu_parse_message_header (Some b') tot =
      Inr \<lparr>mh_message_type = [0x4D, 0x53, 0x47], mh_chunk_type = 0x46, mh_message_size = of_nat tot,
           mh_secure_channel_id = ch\<rparr>"
    and "mu_binary_le_get_u32 (slice 12 4 b') = tok"
    and "mu_parse_sequence_header (Some b') tot 16 =
      Inr (\<lparr>sh_sequence_number = seq, sh_request_id = req\<rparr>, MU_UASC_SYMMETRIC_HEADER_SIZE)"
proof -
  have le: "24 + n \<le> sz" and tot: "tot = 24 + n"
    and b': "b' = [0x4D, 0x53, 0x47, 0x46] @ mu_binary_le_put_u32 (of_nat tot) @ mu_binary_le_put_u32 ch @
       mu_binary_le_put_u32 tok @ mu_binary_le_put_u32 seq @ mu_binary_le_put_u32 req @ drop 24 b"
    using fin by (auto simp: mu_uasc_finalize_symmetric_def Let_def put_at_0 split: if_splits)
  have tl: "24 \<le> tot" "tot < 2 ^ 32" using le assms(3) by (simp_all add: tot)
  have u: "unat (of_nat tot :: 32 word) = tot" and nz: "\<not> (of_nat tot :: 32 word) < 8" "\<not> (of_nat tot :: 32 word) < 12"
    using tl by (simp_all add: unat_of_nat32 word_less_nat_alt)
  show "tot = 24 + n" by (rule tot)
  show "length b' = length b" "drop 24 b' = drop 24 b" using le assms(2) by (simp_all add: b')
  show "mu_parse_message_header (Some b') tot =
      Inr \<lparr>mh_message_type = [0x4D, 0x53, 0x47], mh_chunk_type = 0x46, mh_message_size = of_nat tot,
           mh_secure_channel_id = ch\<rparr>"
    using tl u nz unfolding mu_parse_message_header_def Let_def b' by (simp add: slice_def)
  show "mu_binary_le_get_u32 (slice 12 4 b') = tok" unfolding b' by (simp add: slice_def)
  show "mu_parse_sequence_header (Some b') tot 16 =
      Inr (\<lparr>sh_sequence_number = seq, sh_request_id = req\<rparr>, 24)"
  proof -
    have "\<not> tot < 16" "\<not> tot - 16 < 4" "\<not> tot - 20 < 4" using tl by linarith+
    then show ?thesis unfolding mu_parse_sequence_header_def b' by (simp add: slice_def)
  qed
qed

lemma finalize_asymmetric_none_layout:
  assumes fin: "mu_uasc_finalize_asymmetric_none (Some b) sz ch seq req n = Inr (b', tot)"
    and "sz \<le> length b"
  shows "tot = 79 + n" "79 + n \<le> sz"
    and "b' = [0x4F, 0x50, 0x4E, 0x46] @ mu_binary_le_put_u32 (of_nat tot) @ mu_binary_le_put_u32 ch @
      enc_string (mk_string policy_none_uri) @ enc_string null_string @ enc_string null_string @
      mu_binary_le_put_u32 seq @ mu_binary_le_put_u32 req @ drop 79 b"
proof -
  have le: "79 + n \<le> sz" and tot: "tot = 79 + n"
    and b': "b' = put_at 75 (mu_binary_le_put_u32 req)
         (put_at 71 (mu_binary_le_put_u32 seq)
         (put_at 67 (mu_binary_le_put_u32 0xFFFFFFFF)
         (put_at 63 (mu_binary_le_put_u32 0xFFFFFFFF)
         (put_at 16 policy_none_uri
         (put_at 12 (mu_binary_le_put_u32 47)
         (put_at 8 (mu_binary_le_put_u32 ch)
         (put_at 4 (mu_binary_le_put_u32 (of_nat tot))
         (put_at 0 [0x4F, 0x50, 0x4E, 0x46] b))))))))"
    using fin by (auto simp: mu_uasc_finalize_asymmetric_none_def Let_def split: if_splits)
  show "tot = 79 + n" "79 + n \<le> sz" by (fact tot, fact le)
  have m1: "(0xFFFFFFFF :: 32 word) = -1" by simp
  have "79 \<le> length b" using le assms(2) by linarith
  then show "b' = [0x4F, 0x50, 0x4E, 0x46] @ mu_binary_le_put_u32 (of_nat tot) @ mu_binary_le_put_u32 ch @
      enc_string (mk_string policy_none_uri) @ enc_string null_string @ enc_string null_string @
      mu_binary_le_put_u32 seq @ mu_binary_le_put_u32 req @ drop 79 b"
    unfolding b' enc_string_simps m1 length_policy_none_uri
    by (simp add: put_at_chain) (simp add: put_at_0)
qed

section \<open>Properties of the sequence-number check\<close>

text \<open>The validator run over a stream of received numbers; \<^const>\<open>None\<close> once one is rejected.\<close>

fun validate_all :: "mu_sequence_validator \<Rightarrow> opcua_uint32_t list \<Rightarrow> mu_sequence_validator option" where
  "validate_all v [] = Some v"
| "validate_all v (s # ss) =
    (case mu_sequence_validate v s of
       (st, v') \<Rightarrow> if st = MU_STATUS_GOOD then validate_all v' ss else None)"

lemma validate_step:
  assumes "mu_sequence_validate v s = (MU_STATUS_GOOD, v')" "is_initialized v"
  shows "is_initialized v'" "last_sequence_number v' = s"
    and "unat s = unat (last_sequence_number v) + 1 \<or>
      4294966272 \<le> unat (last_sequence_number v) \<and> unat s < 1024"
proof -
  show "is_initialized v'" "last_sequence_number v' = s"
    using assms by (auto simp: mu_sequence_validate_def split: if_splits)
  have "s = last_sequence_number v + 1 \<or> last_sequence_number v > 4294966271 \<and> s < 1024"
    using assms by (auto simp: mu_sequence_validate_def split: if_splits)
  then show "unat s = unat (last_sequence_number v) + 1 \<or>
      4294966272 \<le> unat (last_sequence_number v) \<and> unat s < 1024"
  proof
    assume s: "s = last_sequence_number v + 1"
    show ?thesis
    proof (cases "unat (last_sequence_number v) + 1 < 2 ^ 32")
      case True
      then show ?thesis using s by (simp add: unat_word_ariths)
    next
      case False
      moreover have "unat (last_sequence_number v) < 2 ^ 32"
        using unsigned_less [of "last_sequence_number v", where ?'a = nat] by simp
      ultimately have "unat (last_sequence_number v) = 2 ^ 32 - 1" by simp
      then show ?thesis using s by (simp add: unat_word_ariths)
    qed
  qed (simp add: word_less_nat_alt)
qed

text \<open>
  The current number, as a function of the start \<open>l\<close> and the number \<open>k\<close> of accepted messages:
  either no wrap happened yet, or one wrap to some \<open>w < 1024\<close> happened \<open>m\<close> messages ago.
\<close>

definition seq_progress :: "nat \<Rightarrow> nat \<Rightarrow> nat \<Rightarrow> bool" where
  "seq_progress l k c \<longleftrightarrow>
     c = l + k \<or> (\<exists>w m. w < 1024 \<and> c = w + m \<and> 4294966272 + m < l + k \<and> m < k)"

lemma seq_progress_step:
  assumes "seq_progress l k c" "k + 1 < 4294965250"
    and "c' = c + 1 \<or> 4294966272 \<le> c \<and> c' < 1024"
  shows "seq_progress l (k + 1) c'"
  using assms(1) unfolding seq_progress_def
proof
  assume c: "c = l + k"
  show "c' = l + (k + 1) \<or> (\<exists>w m. w < 1024 \<and> c' = w + m \<and> 4294966272 + m < l + (k + 1) \<and> m < k + 1)"
  proof (cases "c' = c + 1")
    case False
    then have "c' < 1024" "4294966272 \<le> c" using assms(3) by auto
    with c show ?thesis by (intro disjI2 exI [of _ c'] exI [of _ 0]) simp
  qed (simp add: c)
next
  assume "\<exists>w m. w < 1024 \<and> c = w + m \<and> 4294966272 + m < l + k \<and> m < k"
  then obtain w m where w: "w < 1024" "c = w + m" "4294966272 + m < l + k" "m < k" by blast
  then have "c < 4294966272" using assms(2) by linarith
  then have "c' = c + 1" using assms(3) by linarith
  with w show "c' = l + (k + 1) \<or> (\<exists>w m. w < 1024 \<and> c' = w + m \<and> 4294966272 + m < l + (k + 1) \<and> m < k + 1)"
    by (intro disjI2 exI [of _ w] exI [of _ "m + 1"]) simp
qed

lemma validate_all_progress:
  assumes "validate_all v ss = Some v'" "is_initialized v" "k + length ss < 4294965250"
    and "seq_progress l k (unat (last_sequence_number v))" "s \<in> set ss"
  shows "\<exists>j. k < j \<and> j < 4294965250 \<and> seq_progress l j (unat s)"
  using assms
proof (induction ss arbitrary: v k)
  case (Cons a ss)
  obtain v1 where v1: "mu_sequence_validate v a = (MU_STATUS_GOOD, v1)" "validate_all v1 ss = Some v'"
    using Cons.prems(1) by (auto split: prod.splits if_splits)
  note st = validate_step [OF v1(1) Cons.prems(2)]
  have next_: "seq_progress l (k + 1) (unat a)"
    using seq_progress_step [OF Cons.prems(4) _ st(3)] Cons.prems(3) by simp
  show ?case
  proof (cases "s = a")
    case True
    then show ?thesis using next_ Cons.prems(3) by (intro exI [of _ "k + 1"]) simp
  next
    case False
    then obtain j where "k + 1 < j" "j < 4294965250" "seq_progress l j (unat s)"
      using Cons.IH [OF v1(2) st(1), of "k + 1"] Cons.prems(3,5) next_ st(2) by auto
    then show ?thesis by (intro exI [of _ j]) simp
  qed
qed simp

lemma seq_progress_fresh: "seq_progress l j c \<Longrightarrow> 0 < j \<Longrightarrow> j < 4294965250 \<Longrightarrow> c \<noteq> l"
  by (auto simp: seq_progress_def)

lemma validate_all_distinct:
  "validate_all v ss = Some v' \<Longrightarrow> is_initialized v \<Longrightarrow> length ss < 4294965250 \<Longrightarrow>
   distinct (last_sequence_number v # ss)"
proof (induction ss arbitrary: v)
  case (Cons a ss)
  obtain v1 where v1: "mu_sequence_validate v a = (MU_STATUS_GOOD, v1)" "validate_all v1 ss = Some v'"
    using Cons.prems(1) by (auto split: prod.splits if_splits)
  note st = validate_step [OF v1(1) Cons.prems(2)]
  have "last_sequence_number v \<notin> set (a # ss)"
  proof
    assume "last_sequence_number v \<in> set (a # ss)"
    then obtain j where "0 < j" "j < 4294965250"
      "seq_progress (unat (last_sequence_number v)) j (unat (last_sequence_number v))"
      using validate_all_progress [OF Cons.prems(1,2), of 0 "unat (last_sequence_number v)"] Cons.prems(3)
      by (auto simp: seq_progress_def [of _ 0])
    then show False using seq_progress_fresh by blast
  qed
  moreover have "distinct (a # ss)"
    using Cons.IH [OF v1(2) st(1)] Cons.prems(3) st(2) by simp
  ultimately show ?case by simp
qed simp

section \<open>Properties of the connection protocol\<close>

lemma decoder_hello: "decoder (read_hello n)"
  unfolding read_hello_def by (intro decoder_intros) simp

lemma process_hello_GoodE:
  assumes "mu_tcp_process_hello c message n config ack_message ack_length = (MU_STATUS_GOOD, c', ack', len')"
  obtains msg ack h r where "message = Some msg" "ack_message = Some ack" "28 \<le> ack_length"
    "read_hello n ((mu_binary_reader_init (Some msg) n)\<lparr>rd_position := 4\<rparr>) = (Inr h, r)"
    "8192 \<le> unat (hel_receive_buffer_size h)" "8192 \<le> unat (hel_send_buffer_size h)"
    "sint (str_length (hel_endpoint_url h)) < 4096"
    "c' = (negotiate h config c)\<lparr>tcp_state := MU_TCP_STATE_ESTABLISHED\<rparr>"
    "ack' = Some (put_at 0 (ack_bytes (negotiate h config c)) ack)" "len' = 28"
proof -
  obtain msg ack where ma: "message = Some msg" "ack_message = Some ack"
    using assms by (auto simp: mu_tcp_process_hello_def split: option.splits)
  obtain x r where rh: "read_hello n ((mu_binary_reader_init (Some msg) n)\<lparr>rd_position := 4\<rparr>) = (x, r)"
    by fastforce
  have "x \<noteq> Inl MU_STATUS_GOOD"
    using reader_op.error_code [OF decoder_reader_op [OF decoder_hello],
      of n "(mu_binary_reader_init (Some msg) n)\<lparr>rd_position := 4\<rparr>"] by (simp add: rh)
  then obtain h where x: "x = Inr h"
    using assms by (cases x) (auto simp: mu_tcp_process_hello_def ma rh split: if_splits)
  show ?thesis
    by (rule that [OF ma _ rh [unfolded x]])
      (use assms in \<open>auto simp: mu_tcp_process_hello_def ma rh x Let_def split: if_splits\<close>)
qed

lemma read_hello_value:
  assumes "read_hello n ((mu_binary_reader_init (Some msg) n)\<lparr>rd_position := 4\<rparr>) = (Inr h, r)"
  shows "hel_protocol_version h = mu_binary_le_get_u32 (slice 8 4 msg) \<and>
    hel_receive_buffer_size h = mu_binary_le_get_u32 (slice 12 4 msg) \<and>
    hel_send_buffer_size h = mu_binary_le_get_u32 (slice 16 4 msg) \<and>
    hel_max_message_size h = mu_binary_le_get_u32 (slice 20 4 msg) \<and>
    hel_max_chunk_count h = mu_binary_le_get_u32 (slice 24 4 msg)"
proof -
  let ?r = "(mu_binary_reader_init (Some msg) n)\<lparr>rd_position := 4\<rparr>"
  have i: "rd_buffer ?r = Some msg" "rd_position ?r = 4" by (simp_all add: mu_binary_reader_init_def)
  have e: "mu_binary_read_int32 = mu_binary_read_uint32" by (simp add: mu_binary_read_int32_def mu_binary_read_uint32_def)
  from assms obtain sz r1 where 1: "mu_binary_read_uint32 ?r = (Inr sz, r1)" "\<not> sint sz > sint (of_nat n :: opcua_int32_t)"
    and c1: "rd_bind mu_binary_read_uint32 (\<lambda>pv. rd_bind mu_binary_read_uint32 (\<lambda>rb. rd_bind mu_binary_read_uint32 (\<lambda>sb.
      rd_bind mu_binary_read_uint32 (\<lambda>mm. rd_bind mu_binary_read_uint32 (\<lambda>mc. rd_bind mu_binary_read_string (\<lambda>url.
      rd_return \<lparr>hel_protocol_version = pv, hel_receive_buffer_size = rb, hel_send_buffer_size = sb,
        hel_max_message_size = mm, hel_max_chunk_count = mc, hel_endpoint_url = url\<rparr>)))))) r1 = (Inr h, r)"
    unfolding read_hello_def e by (elim rd_bind_InrE) (auto simp: rd_error_def split: if_splits)
  from c1 obtain pv r2 rb r3 sb r4 mm r5 mc r6 url r7 where 2: "mu_binary_read_uint32 r1 = (Inr pv, r2)"
    "mu_binary_read_uint32 r2 = (Inr rb, r3)" "mu_binary_read_uint32 r3 = (Inr sb, r4)" "mu_binary_read_uint32 r4 = (Inr mm, r5)"
    "mu_binary_read_uint32 r5 = (Inr mc, r6)"
    and h: "h = \<lparr>hel_protocol_version = pv, hel_receive_buffer_size = rb, hel_send_buffer_size = sb,
        hel_max_message_size = mm, hel_max_chunk_count = mc, hel_endpoint_url = url\<rparr>"
    by (elim rd_bind_InrE) (auto simp: rd_return_def)
  note v1 = read_u32_value [OF i(1) 1(1)]
  note v2 = read_u32_value [OF v1(3) 2(1)]
  note v3 = read_u32_value [OF v2(3) 2(2)]
  note v4 = read_u32_value [OF v3(3) 2(3)]
  note v5 = read_u32_value [OF v4(3) 2(4)]
  note v6 = read_u32_value [OF v5(3) 2(5)]
  show ?thesis using i(2) v1 v2 v3 v4 v5 v6 by (simp add: h)
qed

lemma negotiate_bounds:
  assumes "unat (of_nat (cfg_receive_buffer_size config) :: 32 word) = cfg_receive_buffer_size config"
    and "unat (of_nat (cfg_send_buffer_size config) :: 32 word) = cfg_send_buffer_size config"
  shows "unat (send_buffer_size (negotiate h config c)) =
      min (unat (hel_send_buffer_size h)) (cfg_receive_buffer_size config)"
    and "unat (receive_buffer_size (negotiate h config c)) =
      min (unat (hel_receive_buffer_size h)) (cfg_send_buffer_size config)"
    and "cfg_max_message_size config \<noteq> 0 \<Longrightarrow> max_message_size (negotiate h config c) =
      (if hel_max_message_size h = 0 then cfg_max_message_size config
       else min (hel_max_message_size h) (cfg_max_message_size config))"
    and "cfg_max_chunk_count config \<noteq> 0 \<Longrightarrow> max_chunk_count (negotiate h config c) =
      (if hel_max_chunk_count h = 0 then cfg_max_chunk_count config
       else min (hel_max_chunk_count h) (cfg_max_chunk_count config))"
proof -
  show "unat (send_buffer_size (negotiate h config c)) =
      min (unat (hel_send_buffer_size h)) (cfg_receive_buffer_size config)"
    and "unat (receive_buffer_size (negotiate h config c)) =
      min (unat (hel_receive_buffer_size h)) (cfg_send_buffer_size config)"
    using assms by (simp_all add: negotiate_def Let_def word_less_nat_alt min_def)
  show "cfg_max_message_size config \<noteq> 0 \<Longrightarrow> max_message_size (negotiate h config c) =
      (if hel_max_message_size h = 0 then cfg_max_message_size config
       else min (hel_max_message_size h) (cfg_max_message_size config))"
    and "cfg_max_chunk_count config \<noteq> 0 \<Longrightarrow> max_chunk_count (negotiate h config c) =
      (if hel_max_chunk_count h = 0 then cfg_max_chunk_count config
       else min (hel_max_chunk_count h) (cfg_max_chunk_count config))"
    by (auto simp: negotiate_def Let_def min_def not_less)
qed

lemma process_hello_error_keeps_state:
  assumes "mu_tcp_process_hello c message n config ack_message ack_length = (st, c', ack', len')"
    and "st \<noteq> MU_STATUS_GOOD"
  shows "tcp_state c' = tcp_state c \<and> ack' = ack_message \<and> len' = ack_length"
proof (cases "message = None \<or> ack_message = None")
  case True
  then show ?thesis using assms by (auto simp: mu_tcp_process_hello_def split: option.splits)
next
  case False
  then obtain msg ack where ma: "message = Some msg" "ack_message = Some ack" by auto
  obtain x r where rh: "read_hello n ((mu_binary_reader_init (Some msg) n)\<lparr>rd_position := 4\<rparr>) = (x, r)"
    by fastforce
  show ?thesis
    using assms by (cases x) (auto simp: mu_tcp_process_hello_def ma rh Let_def negotiate_def split: if_splits)
qed

lemma create_error_message_layout:
  assumes "length reason \<le> MU_MAX_ENCODED_STRING_LENGTH" "n \<le> length b" "16 + length reason \<le> n"
  shows "mu_tcp_create_error_message code (Some reason) (Some b) n =
    (MU_STATUS_GOOD,
     Some (put_at 0 ([0x45, 0x52, 0x52, 0x46] @ mu_binary_le_put_u32 (of_nat (16 + length reason)) @
       mu_binary_le_put_u32 code @ enc_string (mk_string reason)) b), 16 + length reason)"
proof -
  let ?h = "[0x45, 0x52, 0x52, 0x46] @ mu_binary_le_put_u32 (of_nat (16 + length reason)) @ mu_binary_le_put_u32 code"
  let ?w = "(mu_binary_writer_init (Some (put_at 0 ?h b)) n)\<lparr>wr_position := 12\<rparr>"
  have le: "12 + length (enc_string (mk_string reason)) \<le> n" "12 + length (enc_string (mk_string reason)) \<le> length b"
    "12 \<le> length b"
    using assms by simp_all
  have "mu_binary_write_string (mk_string reason) ?w =
    (MU_STATUS_GOOD, ?w\<lparr>wr_buffer := Some (put_at 12 (enc_string (mk_string reason)) (put_at 0 ?h b)),
      wr_position := 12 + length (enc_string (mk_string reason))\<rparr>)"
    using encodes_fits [OF encodes_string, of "mk_string reason" ?w "put_at 0 ?h b"] assms le
    by (simp add: mu_binary_writer_init_def wf_writer_def)
  moreover have "put_at 12 (enc_string (mk_string reason)) (put_at 0 ?h b) = put_at 0 (?h @ enc_string (mk_string reason)) b"
    using le by (intro put_at_chain) simp_all
  ultimately show ?thesis
    using assms by (simp add: mu_tcp_create_error_message_def Let_def mk_string_def enc_string_def str_bytes_def)
qed

definition enc_hello :: "opcua_int32_t \<Rightarrow> mu_hello \<Rightarrow> bytes" where
  "enc_hello message_size h =
    mu_binary_le_put_u32 message_size @ mu_binary_le_put_u32 (hel_protocol_version h) @
    mu_binary_le_put_u32 (hel_receive_buffer_size h) @ mu_binary_le_put_u32 (hel_send_buffer_size h) @
    mu_binary_le_put_u32 (hel_max_message_size h) @ mu_binary_le_put_u32 (hel_max_chunk_count h) @
    enc_string (hel_endpoint_url h)"

lemma reads_hello:
  assumes "valid_string (hel_endpoint_url h)" "sint message_size \<le> sint (of_nat n :: opcua_int32_t)"
  shows "reads (read_hello n) (enc_hello message_size h) h"
  unfolding read_hello_def enc_hello_def
  apply (rule reads_bind [where x = message_size, OF reads_primitives(6)])
  using assms
  by (simp add: reads_bind [where x = "hel_protocol_version h"] del: append_assoc)
    (intro reads_bind [where x = "hel_protocol_version h"] reads_bind [where x = "hel_receive_buffer_size h"]
       reads_bind [where x = "hel_send_buffer_size h"] reads_bind [where x = "hel_max_message_size h"]
       reads_bind [where x = "hel_max_chunk_count h"] reads_bind_return [where x = "hel_endpoint_url h"]
       reads_primitives reads_string, simp_all)

lemma process_hello_accepts:
  assumes h: "valid_string (hel_endpoint_url h)" "sint (str_length (hel_endpoint_url h)) < 4096"
    "MU_MIN_CHUNK_SIZE \<le> unat (hel_receive_buffer_size h)" "MU_MIN_CHUNK_SIZE \<le> unat (hel_send_buffer_size h)"
    and msg: "msg = [0x48, 0x45, 0x4C, 0x46] @ enc_hello (of_nat (length msg)) h" and "28 \<le> ack_length"
  shows "\<exists>c' ack'. mu_tcp_process_hello c (Some msg) (length msg) config (Some ack) ack_length =
    (MU_STATUS_GOOD, c', ack', 28)"
proof -
  let ?r = "(mu_binary_reader_init (Some msg) (length msg))\<lparr>rd_position := 4\<rparr>"
  let ?e = "enc_hello (of_nat (length msg)) h"
  have len: "length msg = 4 + length ?e" by (subst msg) simp
  have "slice 4 (length ?e) msg = ?e" by (subst msg) (simp add: slice_def)
  then have "read_hello (length msg) ?r = (Inr h, ?r\<lparr>rd_position := 4 + length ?e\<rparr>)"
    using readsD [OF reads_hello [OF h(1), of "of_nat (length msg)" "length msg"], of ?r msg] len
    by (simp add: mu_binary_reader_init_def)
  moreover have "msg ! 0 = 0x48" "msg ! 1 = 0x45" "msg ! 2 = 0x4C" "msg ! 3 = 0x46"
    by (subst msg, simp)+
  moreover have "\<not> length msg < 8" using len by (simp add: enc_hello_def)
  ultimately show ?thesis using assms by (simp add: mu_tcp_process_hello_def Let_def)
qed

section \<open>Properties of the service headers\<close>

lemma decoder_request_header [decoder_intros]: "decoder mu_request_header_decode"
  unfolding mu_request_header_decode_def
  by (intro decoder_intros decoder_reader_op [OF decoder_skip_extension_object])

interpretation request_header_reader: decoder mu_request_header_decode
  by (rule decoder_request_header)

lemma encoder_response_header [encoder_intros]: "encoder (mu_response_header_encode h)"
  unfolding mu_response_header_encode_def
  by (intro encoder_intros encoder_writer_op [OF encoder_extension_object_header])

definition enc_response_header :: "mu_response_header \<Rightarrow> bytes" where
  "enc_response_header h =
    mu_binary_le_put_u64 (rs_timestamp h) @ mu_binary_le_put_u32 (rs_request_handle h) @
    mu_binary_le_put_u32 (service_result h) @
    (if rs_return_diagnostics h AND 0x20 \<noteq> 0 then [0x20] @ mu_binary_le_put_u32 (service_result h) else [0x00]) @
    mu_binary_le_put_u32 (-1) @ [0x00, 0x00, 0x00]"

lemma encodes_response_header: "encodes (mu_response_header_encode h) (enc_response_header h)"
proof -
  have "enc_ext_header \<lparr>namespace_index = 0, ident = NUMERIC 0\<rparr> 0 = [0x00, 0x00, 0x00]"
    by (simp add: enc_ext_header_def enc_nodeid_def nodeid_format_def nodeid_payload_def)
  moreover have "encodes (mu_binary_write_extension_object_header \<lparr>namespace_index = 0, ident = NUMERIC 0\<rparr> 0)
      (enc_ext_header \<lparr>namespace_index = 0, ident = NUMERIC 0\<rparr> 0)"
    by (rule encodes_ext_header) (simp add: valid_nodeid_def)
  ultimately have "encodes (mu_binary_write_extension_object_header \<lparr>namespace_index = 0, ident = NUMERIC 0\<rparr> 0)
      [0x00, 0x00, 0x00]" by simp
  then show ?thesis
    unfolding mu_response_header_encode_def enc_response_header_def
    by (intro encodes_seq encodes_if encodes_primitives)
qed

definition enc_request_header :: "mu_request_header \<Rightarrow> mu_nodeid \<Rightarrow> bytes \<Rightarrow> bytes" where
  "enc_request_header h ext_type ext_body =
    enc_nodeid (authentication_token h) @ mu_binary_le_put_u64 (rq_timestamp h) @
    mu_binary_le_put_u32 (rq_request_handle h) @ mu_binary_le_put_u32 (rq_return_diagnostics h) @
    enc_string (audit_entry_id h) @ mu_binary_le_put_u32 (timeout_hint h) @
    enc_ext_header ext_type (length ext_body) @ ext_body"

lemma reads_skip_extension_object:
  assumes "valid_nodeid t" "length body < 2 ^ 31"
  shows "reads mu_binary_skip_extension_object (enc_ext_header t (length body) @ body) ()"
  unfolding mu_binary_skip_extension_object_def
  by (rule reads_bind [OF reads_ext_header [OF assms]]) (auto simp: reads_def)

lemma reads_request_header:
  assumes "valid_nodeid (authentication_token h)" "valid_string (audit_entry_id h)" "valid_nodeid t"
    "length body < 2 ^ 31"
  shows "reads mu_request_header_decode (enc_request_header h t body) h"
proof -
  note skip = reads_skip_extension_object [OF assms(3,4)]
  show ?thesis
    unfolding mu_request_header_decode_def enc_request_header_def
    using assms(1,2)
    by (intro reads_bind [where x = "authentication_token h"] reads_bind [where x = "rq_timestamp h"]
        reads_bind [where x = "rq_request_handle h"] reads_bind [where x = "rq_return_diagnostics h"]
        reads_bind [where x = "audit_entry_id h"] reads_bind [where x = "timeout_hint h"]
        reads_bind_return [where x = "()"] skip reads_primitives reads_string reads_nodeid) simp_all
qed

section \<open>Main properties\<close>

text \<open>
  C9.  No replay: a run of fewer than 4294965250 sequence numbers accepted by an initialised
  validator contains no number twice and never the number the validator held before, although the
  numbers may wrap around once.
\<close>

theorem sequence_numbers_never_repeat:
  assumes "validate_all v ss = Some v'" "is_initialized v" "length ss < 4294965250"
  shows "distinct (last_sequence_number v # ss)"
  using assms by (rule validate_all_distinct)

theorem sequence_numbers_never_repeat_witness:
  "distinct [4294967295, 7, 8 :: 32 word] \<and>
   validate_all \<lparr>last_sequence_number = 4294967295, is_initialized = True\<rparr> [7, 8] =
     Some \<lparr>last_sequence_number = 8, is_initialized = True\<rparr>"
  using sequence_numbers_never_repeat [of "\<lparr>last_sequence_number = 4294967295, is_initialized = True\<rparr>" "[7, 8]"
    "\<lparr>last_sequence_number = 8, is_initialized = True\<rparr>"]
  by (simp add: mu_sequence_validate_def)

text \<open>
  C10.  Whatever the chunk parser accepts is within the received bytes and obeys the protocol's limits,
  and its verdict depends on nothing beyond them.
\<close>

theorem parse_message_header_sound:
  assumes "mu_parse_message_header (Some b) n = Inr h"
  shows "8 \<le> mh_message_size h \<and> unat (mh_message_size h) \<le> n \<and>
    msg_type_of (mh_message_type h) \<in> {HEL, ACK, ERR, OPN, CLO, MSG} \<and>
    (mh_chunk_type h = 0x43 \<longrightarrow> mh_message_type h ! 0 = 0x4D) \<and>
    (msg_type_of (mh_message_type h) \<in> {OPN, CLO, MSG} \<longrightarrow>
       12 \<le> mh_message_size h \<and> mh_chunk_type h \<in> {0x43, 0x46}) \<and>
    (\<forall>b'. take n b' = take n b \<longrightarrow> mu_parse_message_header (Some b') n = Inr h)"
proof -
  have loc: "\<forall>b'. take n b' = take n b \<longrightarrow> mu_parse_message_header (Some b') n = Inr h"
    using parse_message_header_local assms by metis
  show ?thesis
  proof (rule parse_message_header_Inr [OF assms], goal_cases)
    case (1 ch)
    have d: "msg_type_of (take 3 b) \<in> {OPN, CLO, MSG} \<Longrightarrow> \<not> msg_type_of (take 3 b) \<in> {HEL, ACK, ERR}"
      by (auto simp: msg_type_defs)
    show ?case unfolding 1(1) [symmetric] mu_message_header.simps
      using 1(2-8) loc [folded 1(1)] d by (simp only: not_less nth_take) blast
  qed
qed

theorem parse_message_header_sound_witness:
  "\<exists>h. mu_parse_message_header (Some [0x43, 0x4C, 0x4F, 0x46, 12, 0, 0, 0, 1, 0, 0, 0]) 12 = Inr h \<and>
    12 \<le> mh_message_size h \<and> unat (mh_message_size h) \<le> 12 \<and> mh_chunk_type h \<in> {0x43, 0x46} \<and>
    mu_parse_message_header (Some [0x43, 0x4C, 0x4F, 0x46, 12, 0, 0, 0, 1, 0, 0, 0, 0xFF]) 12 = Inr h"
proof -
  let ?b = "[0x43, 0x4C, 0x4F, 0x46, 12, 0, 0, 0, 1, 0, 0, 0] :: bytes"
  obtain h where h: "mu_parse_message_header (Some ?b) 12 = Inr h" "msg_type_of (mh_message_type h) = CLO"
    by (simp add: mu_parse_message_header_def slice_def mu_binary_le_get_u32_def msg_type_defs)
  have "take 12 (?b @ [0xFF]) = take 12 ?b" by simp
  then show ?thesis using parse_message_header_sound [OF h(1)] h by auto
qed

text \<open>
  C11.  A response framed by \<^const>\<open>mu_uasc_finalize_symmetric\<close> parses back: the chunk parser and the
  sequence-header parser recover the channel, token, sequence number and request id, the declared
  size is the number of bytes to send, and the body behind the 24 header bytes is untouched.
\<close>

theorem symmetric_response_parses:
  assumes "mu_uasc_finalize_symmetric (Some b) sz ch tok seq req n = Inr (b', tot)"
    and "sz \<le> length b" "sz < 2 ^ 32"
  shows "tot = MU_UASC_SYMMETRIC_HEADER_SIZE + n \<and> drop MU_UASC_SYMMETRIC_HEADER_SIZE b' = drop MU_UASC_SYMMETRIC_HEADER_SIZE b \<and>
    mu_parse_message_header (Some b') tot =
      Inr \<lparr>mh_message_type = [0x4D, 0x53, 0x47], mh_chunk_type = 0x46, mh_message_size = of_nat tot,
           mh_secure_channel_id = ch\<rparr> \<and>
    mu_binary_le_get_u32 (slice 12 4 b') = tok \<and>
    mu_parse_sequence_header (Some b') tot 16 =
      Inr (\<lparr>sh_sequence_number = seq, sh_request_id = req\<rparr>, MU_UASC_SYMMETRIC_HEADER_SIZE)"
  using finalize_symmetric_parses [OF assms] by simp

theorem symmetric_response_parses_witness:
  "mu_parse_sequence_header (Some (cstr ''MSGF'' @ mu_binary_le_put_u32 25 @ mu_binary_le_put_u32 1 @
      mu_binary_le_put_u32 2 @ mu_binary_le_put_u32 3 @ mu_binary_le_put_u32 4 @ [9])) 25 16 =
    Inr (\<lparr>sh_sequence_number = 3, sh_request_id = 4\<rparr>, 24)"
  using symmetric_response_parses [of "replicate 24 0 @ [9]" 25 1 2 3 4 1 _ 25]
  by (simp add: mu_uasc_finalize_symmetric_def put_at_def)

text \<open>
  C12.  A Hello that is accepted establishes the connection with exactly the values both sides allow:
  each buffer size is the smaller one of what the client's Hello and the server's configuration offer
  and at least the protocol's minimum chunk size; the message and chunk limits are the smaller ones,
  where a 0 of the client sets no limit; the protocol version is the client's.  The Hello fields are
  the bytes at their offsets in the message, and the Acknowledge carries exactly the negotiated values.
\<close>

theorem hello_negotiation:
  assumes "mu_tcp_process_hello c (Some msg) n config ack_message ack_length = (MU_STATUS_GOOD, c', ack', len')"
    and "MU_MIN_CHUNK_SIZE \<le> cfg_receive_buffer_size config" "cfg_receive_buffer_size config < 2 ^ 32"
    and "MU_MIN_CHUNK_SIZE \<le> cfg_send_buffer_size config" "cfg_send_buffer_size config < 2 ^ 32"
    and "hello = (\<lambda>k. mu_binary_le_get_u32 (slice k 4 msg))"
  shows "tcp_state c' = MU_TCP_STATE_ESTABLISHED \<and> protocol_version c' = hello 8 \<and>
    unat (receive_buffer_size c') = min (unat (hello 12)) (cfg_send_buffer_size config) \<and>
    unat (send_buffer_size c') = min (unat (hello 16)) (cfg_receive_buffer_size config) \<and>
    MU_MIN_CHUNK_SIZE \<le> unat (receive_buffer_size c') \<and> MU_MIN_CHUNK_SIZE \<le> unat (send_buffer_size c') \<and>
    max_message_size c' = (if hello 20 = 0 then cfg_max_message_size config else min (hello 20) (cfg_max_message_size config)) \<and>
    max_chunk_count c' = (if hello 24 = 0 then cfg_max_chunk_count config else min (hello 24) (cfg_max_chunk_count config)) \<and>
    len' = 28 \<and> (\<exists>ack. ack_message = Some ack \<and>
      ack' = Some (put_at 0 (cstr ''ACKF'' @ mu_binary_le_put_u32 28 @ mu_binary_le_put_u32 0 @
        mu_binary_le_put_u32 (send_buffer_size c') @ mu_binary_le_put_u32 (receive_buffer_size c') @
        mu_binary_le_put_u32 (max_message_size c') @ mu_binary_le_put_u32 (max_chunk_count c')) ack))"
proof (rule process_hello_GoodE [OF assms(1)], goal_cases)
  case (1 msg' ack h r)
  have u: "unat (of_nat (cfg_receive_buffer_size config) :: 32 word) = cfg_receive_buffer_size config"
    "unat (of_nat (cfg_send_buffer_size config) :: 32 word) = cfg_send_buffer_size config"
    using assms(3,5) by (simp_all add: unat_of_nat32)
  have h: "hel_protocol_version h = hello 8" "hel_receive_buffer_size h = hello 12" "hel_send_buffer_size h = hello 16"
    "hel_max_message_size h = hello 20" "hel_max_chunk_count h = hello 24"
    using read_hello_value [OF 1(4)] 1(1) by (simp_all add: assms(6))
  have "max_message_size (negotiate h config c) =
      (if hello 20 = 0 then cfg_max_message_size config else min (hello 20) (cfg_max_message_size config))"
    "max_chunk_count (negotiate h config c) =
      (if hello 24 = 0 then cfg_max_chunk_count config else min (hello 24) (cfg_max_chunk_count config))"
    "protocol_version (negotiate h config c) = hello 8"
    using h by (auto simp: negotiate_def Let_def min_def)
  then show ?case
    using 1(2,5,6,8-10) h negotiate_bounds(1,2) [OF u, of h c] assms(2,4) by (simp add: ack_bytes_def)
qed

definition sample_config :: mu_transport_config where
  "sample_config = \<lparr>cfg_endpoint_url = None, cfg_application_uri = None, cfg_receive_buffer_size = 8192,
     cfg_send_buffer_size = 16384, cfg_max_chunk_count = 4, cfg_max_message_size = 65536\<rparr>"

definition sample_hello :: mu_hello where
  "sample_hello = \<lparr>hel_protocol_version = 0, hel_receive_buffer_size = 9000, hel_send_buffer_size = 65536,
     hel_max_message_size = 4096, hel_max_chunk_count = 0, hel_endpoint_url = null_string\<rparr>"

definition sample_hello_message :: bytes where
  "sample_hello_message = [0x48, 0x45, 0x4C, 0x46] @ enc_hello 32 sample_hello"

lemma length_sample_hello_message [simp]: "length sample_hello_message = 32"
  by (simp add: sample_hello_message_def enc_hello_def sample_hello_def)

lemma sample_hello_facts:
  "valid_string (hel_endpoint_url sample_hello)" "sint (str_length (hel_endpoint_url sample_hello)) < 4096"
  "MU_MIN_CHUNK_SIZE \<le> unat (hel_receive_buffer_size sample_hello)"
  "MU_MIN_CHUNK_SIZE \<le> unat (hel_send_buffer_size sample_hello)"
  "sample_hello_message = [0x48, 0x45, 0x4C, 0x46] @ enc_hello (of_nat (length sample_hello_message)) sample_hello"
  by (simp_all add: sample_hello_def) (simp add: sample_hello_message_def sample_hello_def)

lemma sample_hello_accepted:
  "\<exists>c' ack'. mu_tcp_process_hello mu_tcp_connection_init (Some sample_hello_message) 32 sample_config
     (Some (replicate 28 0)) 28 = (MU_STATUS_GOOD, c', ack', 28)"
  using process_hello_accepts [OF sample_hello_facts, of 28] by simp

theorem hello_negotiation_witness:
  "\<exists>c' ack'. mu_tcp_process_hello mu_tcp_connection_init (Some sample_hello_message) 32 sample_config
      (Some (replicate 28 0)) 28 = (MU_STATUS_GOOD, c', ack', 28) \<and> tcp_state c' = MU_TCP_STATE_ESTABLISHED \<and>
    unat (send_buffer_size c') = 8192 \<and> unat (receive_buffer_size c') = 9000 \<and> max_message_size c' = 4096 \<and> max_chunk_count c' = 4"
proof -
  obtain c' ack' where r: "mu_tcp_process_hello mu_tcp_connection_init (Some sample_hello_message) 32 sample_config
      (Some (replicate 28 0)) 28 = (MU_STATUS_GOOD, c', ack', 28)"
    using sample_hello_accepted by blast
  have "mu_binary_le_get_u32 (slice 12 4 sample_hello_message) = 9000" "mu_binary_le_get_u32 (slice 16 4 sample_hello_message) = 65536"
    "mu_binary_le_get_u32 (slice 20 4 sample_hello_message) = 4096" "mu_binary_le_get_u32 (slice 24 4 sample_hello_message) = 0"
    by (simp_all add: sample_hello_message_def sample_hello_def enc_hello_def slice_def mu_binary_le_put_u32_def mu_binary_le_get_u32_def)
  then show ?thesis using hello_negotiation [OF r _ _ _ _ refl] r by (simp add: sample_config_def)
qed

text \<open>
  C13.  Every well-formed Hello whose buffers reach the minimum chunk size is accepted, whatever the
  state of the connection and the limits it announces.
\<close>

theorem hello_accepted:
  assumes "valid_string (hel_endpoint_url h)" "sint (str_length (hel_endpoint_url h)) < 4096"
    "MU_MIN_CHUNK_SIZE \<le> unat (hel_receive_buffer_size h)" "MU_MIN_CHUNK_SIZE \<le> unat (hel_send_buffer_size h)"
    and "msg = [0x48, 0x45, 0x4C, 0x46] @ enc_hello (of_nat (length msg)) h" and "28 \<le> ack_length"
  shows "\<exists>c' ack'. mu_tcp_process_hello c (Some msg) (length msg) config (Some ack) ack_length =
    (MU_STATUS_GOOD, c', ack', 28)"
  using assms by (rule process_hello_accepts)

theorem hello_accepted_witness:
  "fst (mu_tcp_process_hello mu_tcp_connection_init (Some sample_hello_message) 32 sample_config
     (Some (replicate 28 0)) 28) = MU_STATUS_GOOD"
  using hello_accepted [OF sample_hello_facts, of 28 mu_tcp_connection_init sample_config "replicate 28 0"] by auto

end
