(* ===== verification/Mu_Identifiers.thy ===== *)
theory Mu_Identifiers
  imports Mu_Prelude "HOL-Library.Word"
begin

unbundle bit_operations_syntax

text \<open>
  Allocation of 32-bit identifiers.  Session ids, authentication tokens and SecureChannel ids are
  all chosen the same way: a random first candidate, then further candidates until one is not in use.
  This theory states that contract once as a locale; the components interpret it on their own
  candidate sequences.
\<close>

section \<open>The contract\<close>

locale id_candidates =
  fixes cand :: "nat \<Rightarrow> opcua_uint32_t" and bound :: nat
  assumes nonzero: "k \<le> bound \<Longrightarrow> cand k \<noteq> 0"
    and spread: "n \<le> bound \<Longrightarrow> n \<le> card (cand ` {0..n})"
begin

lemma found_fresh:
  assumes "find (\<lambda>c. \<not> used c) (map cand [0..<Suc n]) = Some c" "n \<le> bound"
  shows "\<not> used c" "c \<noteq> 0"
proof -
  from assms(1) obtain i where i: "i < length (map cand [0..<Suc n])" "\<not> used (map cand [0..<Suc n] ! i)"
      "c = map cand [0..<Suc n] ! i"
    unfolding find_Some_iff by blast
  show "\<not> used c" using i(2,3) by simp
  have "i \<le> n" using i(1) by simp
  then have "c = cand i" using i by (simp del: upt_Suc)
  then show "c \<noteq> 0" using nonzero [of i] \<open>i \<le> n\<close> assms(2) by simp
qed

lemma finds_free:
  assumes "finite U" "card U < n" "n \<le> bound"
  shows "\<exists>c. find (\<lambda>c. \<not> c \<in> U) (map cand [0..<Suc n]) = Some c"
proof (rule ccontr)
  assume "\<not> ?thesis"
  then have "\<forall>c \<in> set (map cand [0..<Suc n]). c \<in> U"
    by (metis find_None_iff not_None_eq)
  then have "cand ` {0..n} \<subseteq> U" by (auto simp del: upt_Suc)
  then have "card (cand ` {0..n}) \<le> card U" using assms(1) by (rule card_mono [rotated])
  then show False using spread [OF assms(3)] assms(2) by simp
qed

end

section \<open>Multiples of the step\<close>

text \<open>The step 0x9E3779B9 is odd, so it has an inverse modulo \<open>2 ^ 32\<close>.\<close>

abbreviation (input) id_step :: opcua_uint32_t where "id_step \<equiv> 0x9E3779B9"
abbreviation (input) id_unstep :: opcua_uint32_t where "id_unstep \<equiv> 0x144CBC89"

lemma id_step_inverse: "id_step * id_unstep = 1"
  by simp

lemma times_unstep: "x * id_step * id_unstep = x" for x :: opcua_uint32_t
  unfolding mult.assoc id_step_inverse by simp

lemma of_nat32_inject: "i < 2 ^ 32 \<Longrightarrow> j < 2 ^ 32 \<Longrightarrow> (of_nat i :: opcua_uint32_t) = of_nat j \<longleftrightarrow> i = j"
  by (metis unat_of_nat32)

lemma id_multiples_inject:
  assumes "id_step * of_nat i = (id_step * of_nat j :: opcua_uint32_t)" "i < 2 ^ 32" "j < 2 ^ 32"
  shows "i = j"
proof -
  have "of_nat i * id_step * id_unstep = of_nat j * id_step * id_unstep"
    using assms(1) by (simp only: mult.commute)
  then have "(of_nat i :: opcua_uint32_t) = of_nat j" unfolding times_unstep .
  then show ?thesis using assms(2,3) by (simp add: of_nat32_inject)
qed

text \<open>A sequence that is injective but for one replaced element still spreads.\<close>

lemma spread_but_one:
  fixes f g :: "nat \<Rightarrow> opcua_uint32_t"
  assumes inj: "inj_on f {0..n}" and fg: "\<And>k. k \<le> n \<Longrightarrow> f k \<noteq> 0 \<Longrightarrow> g k = f k"
  shows "n \<le> card (g ` {0..n})"
proof -
  let ?A = "{k \<in> {0..n}. f k \<noteq> 0}"
  have "card {k \<in> {0..n}. f k = 0} \<le> 1"
  proof (rule card_le_Suc0_iff_eq [THEN iffD2, unfolded One_nat_def [symmetric]])
    show "\<forall>a1\<in>{k \<in> {0..n}. f k = 0}. \<forall>a2\<in>{k \<in> {0..n}. f k = 0}. a1 = a2"
      using inj by (auto simp: inj_on_def)
  qed simp
  moreover have "card {0..n} = card ?A + card {k \<in> {0..n}. f k = 0}"
  proof -
    have "{0..n} = ?A \<union> {k \<in> {0..n}. f k = 0}" by auto
    then show ?thesis by (metis (no_types, lifting) card_Un_disjoint disjoint_iff finite_Un finite_atLeastAtMost mem_Collect_eq)
  qed
  ultimately have "n \<le> card ?A" by simp
  also have "card ?A = card (f ` ?A)"
    using inj by (intro card_image [symmetric]) (auto simp: inj_on_def)
  also have "f ` ?A = g ` ?A" using fg by (intro image_cong) auto
  also have "card (g ` ?A) \<le> card (g ` {0..n})" by (intro card_mono) auto
  finally show ?thesis .
qed

section \<open>Repeated addition of the step\<close>

text \<open>The candidates of a SecureChannel id: add the step, and use 1 instead of 0.\<close>

definition skip_zero :: "opcua_uint32_t \<Rightarrow> opcua_uint32_t" where
  "skip_zero c = (if c = 0 then 1 else c)"

fun stepped :: "opcua_uint32_t \<Rightarrow> nat \<Rightarrow> opcua_uint32_t" where
  "stepped c 0 = skip_zero c"
| "stepped c (Suc k) = skip_zero (stepped c k + id_step)"

lemma stepped_nonzero: "stepped c k \<noteq> 0"
  by (cases k) (simp_all add: skip_zero_def)

text \<open>Divided by the step, the candidates count upwards; after the number \<open>2 ^ 32 - 1\<close> they restart at the
  step's inverse, far below.\<close>

definition step_index :: "opcua_uint32_t \<Rightarrow> nat" where
  "step_index c = unat (c * id_unstep)"

lemma step_index_inject: "step_index c = step_index d \<longleftrightarrow> c = d"
proof
  assume "step_index c = step_index d"
  then have "c * id_unstep = d * id_unstep" unfolding step_index_def by (simp only: word_unat_eq_iff [symmetric])
  then have "(c * id_unstep) * id_step = (d * id_unstep) * id_step" by simp
  moreover have "(x * id_unstep) * id_step = x" for x :: opcua_uint32_t
    using times_unstep [of x] by (simp only: mult.assoc mult.commute mult.left_commute)
  ultimately show "c = d" by (simp only:)
qed simp

lemma step_index_next:
  "step_index (skip_zero (c + id_step)) =
    (if step_index c + 1 = 2 ^ 32 then unat id_unstep else step_index c + 1)"
proof -
  have e: "(c + id_step) * id_unstep = c * id_unstep + 1"
    unfolding distrib_right id_step_inverse ..
  have lt: "step_index c < 2 ^ 32" using unsigned_less [of "c * id_unstep", where ?'a = nat] by (simp add: step_index_def)
  have z: "c + id_step = 0 \<longleftrightarrow> step_index c + 1 = 2 ^ 32"
  proof -
    have "c + id_step = 0 \<longleftrightarrow> step_index (c + id_step) = step_index 0"
      by (simp only: step_index_inject)
    also have "\<dots> \<longleftrightarrow> c * id_unstep + 1 = 0"
      unfolding step_index_def e word_unat_eq_iff [symmetric] mult_zero_left ..
    also have "\<dots> \<longleftrightarrow> c * id_unstep = - 1"
      by (simp only: eq_neg_iff_add_eq_0)
    also have "\<dots> \<longleftrightarrow> step_index c = 2 ^ 32 - 1"
      unfolding step_index_def word_unat_eq_iff by (simp add: unsigned_minus_1_eq_mask mask_eq_exp_minus_1)
    finally show ?thesis using lt by auto
  qed
  show ?thesis
  proof (cases "c + id_step = 0")
    case True
    then show ?thesis using z by (simp add: skip_zero_def step_index_def)
  next
    case False
    then have "step_index c + 1 < 2 ^ 32" using z lt by linarith
    then have "unat (c * id_unstep + 1) = step_index c + 1"
      by (simp add: step_index_def unat_word_ariths)
    then have "step_index (c + id_step) = step_index c + 1"
      unfolding step_index_def [of "c + id_step"] e .
    then show ?thesis using False z by (simp add: skip_zero_def)
  qed
qed

lemma step_index_stepped:
  assumes "m \<le> 2 ^ 30"
  shows "step_index (stepped c (k + m)) =
    (if step_index (stepped c k) + m < 2 ^ 32 then step_index (stepped c k) + m
     else unat id_unstep + (step_index (stepped c k) + m - 2 ^ 32))"
  using assms
proof (induction m)
  case 0
  have "step_index (stepped c k) < 2 ^ 32"
    using unsigned_less [of "stepped c k * id_unstep", where ?'a = nat] by (simp add: step_index_def)
  then show ?case by simp
next
  case (Suc m)
  have a: "step_index (stepped c k) < 2 ^ 32"
    using unsigned_less [of "stepped c k * id_unstep", where ?'a = nat] by (simp add: step_index_def)
  have u: "unat id_unstep = 340573321" by simp
  have n: "step_index (stepped c (k + Suc m)) =
      (if step_index (stepped c (k + m)) + 1 = 2 ^ 32 then unat id_unstep else step_index (stepped c (k + m)) + 1)"
    unfolding add_Suc_right stepped.simps step_index_next ..
  show ?case
    using Suc a unfolding n u by (auto split: if_splits)
qed

lemma stepped_inject:
  assumes "i \<le> 2 ^ 30" "j \<le> 2 ^ 30" "stepped c i = stepped c j"
  shows "i = j"
proof -
  have False if "i < j" "j \<le> 2 ^ 30" "stepped c i = stepped c j" for i j
  proof -
    define m where "m = j - i"
    have m: "j = i + m" "0 < m" "m \<le> 2 ^ 30" using that(1,2) by (simp_all add: m_def)
    define a where "a = step_index (stepped c i)"
    have "(if a + m < 2 ^ 32 then a + m else unat id_unstep + (a + m - 2 ^ 32)) = a"
      using step_index_stepped [OF m(3), of c i] that(3) by (simp only: a_def m(1))
    moreover have "unat id_unstep = 340573321" by simp
    ultimately show False using m(2,3) by (auto split: if_splits)
  qed
  then show ?thesis using assms by (metis linorder_neq_iff)
qed

interpretation stepped_ids: id_candidates "stepped c" "2 ^ 30" for c
proof
  fix n :: nat
  assume "n \<le> 2 ^ 30"
  then have "inj_on (stepped c) {0..n}" by (auto simp: inj_on_def intro!: stepped_inject)
  then show "n \<le> card (stepped c ` {0..n})" by (simp add: card_image)
qed (rule stepped_nonzero)

end
