(* ===== verification/Mu_Channel.thy ===== *)
theory Mu_Channel
  imports Mu_Sym_Chunk Mu_Framing Mu_Identifiers
begin

unbundle bit_operations_syntax

text \<open>
  Secure channels: \<^verbatim>\<open>src/services/secure_channel.c\<close>, and from
  \<^verbatim>\<open>src/core/service_dispatch/osc_handler.c\<close> the checks of an OpenSecureChannel request and the choice of a
  SecureChannelId that no other connection uses.

  The entropy adapter is a parameter: \<^const>\<open>None\<close> for a missing adapter, otherwise the outcome of the
  call for a number of bytes.
\<close>

section \<open>The channel\<close>

type_synonym entropy = "(nat \<Rightarrow> opcua_statuscode_t + bytes) option"

record mu_secure_channel =
  channel_id :: opcua_uint32_t
  token_id :: opcua_uint32_t
  created_at :: opcua_uint32_t
  revised_lifetime :: opcua_uint32_t
  sequence :: mu_sequence_validator
  out_sequence_number :: opcua_uint32_t
  in_last_sequence_number :: opcua_uint32_t
  is_open :: bool
  sc_policy :: mu_security_policy_id
  sc_mode :: mu_message_security_mode
  client_keys :: mu_sym_keys
  server_keys :: mu_sym_keys
  keys_valid :: bool

definition requested_policy_id :: "mu_string option \<Rightarrow> mu_security_policy_id" where
  "requested_policy_id security_policy =
    (case security_policy of
       None \<Rightarrow> MU_SECURITY_POLICY_NONE_ID
     | Some s \<Rightarrow>
       if sint (str_length s) \<le> 0 then MU_SECURITY_POLICY_NONE_ID
       else if str_data s = None then MU_SECURITY_POLICY_INVALID_ID
       else mu_security_policy_from_uri (str_data s) (unat (str_length s)))"

definition is_valid_security_mode :: "mu_message_security_mode \<Rightarrow> bool" where
  "is_valid_security_mode security_mode \<longleftrightarrow>
    security_mode = MU_MESSAGE_SECURITY_MODE_NONE \<or> security_mode = MU_MESSAGE_SECURITY_MODE_SIGN \<or>
    security_mode = MU_MESSAGE_SECURITY_MODE_SIGN_AND_ENCRYPT"

definition generate_channel_id :: "entropy \<Rightarrow> opcua_statuscode_t + opcua_uint32_t" where
  "generate_channel_id entropy =
    (case entropy of
       None \<Rightarrow> Inl MU_STATUS_BAD_SECURITYCHECKSFAILED
     | Some generate_random \<Rightarrow> (case generate_random 4 of
         Inl _ \<Rightarrow> Inl MU_STATUS_BAD_SECURITYCHECKSFAILED
       | Inr random \<Rightarrow>
         let candidate = ucast (random ! 0) OR push_bit 8 (ucast (random ! 1)) OR
               push_bit 16 (ucast (random ! 2)) OR push_bit 24 (ucast (random ! 3)) :: opcua_uint32_t
         in Inr (if candidate = 0 then 1 else candidate)))"

definition mu_secure_channel_init :: "mu_secure_channel \<Rightarrow> mu_secure_channel" where
  "mu_secure_channel_init channel = channel\<lparr>
     channel_id := 0, token_id := 0, created_at := 0, revised_lifetime := 0, is_open := False,
     out_sequence_number := 0, sc_policy := MU_SECURITY_POLICY_NONE_ID, sc_mode := MU_MESSAGE_SECURITY_MODE_NONE,
     client_keys := sym_keys_zero, server_keys := sym_keys_zero, keys_valid := False,
     sequence := mu_sequence_validator_init\<rparr>"

definition clamp_lifetime :: "opcua_uint32_t \<Rightarrow> opcua_uint32_t" where
  "clamp_lifetime requested_lifetime =
    (let lifetime = (if requested_lifetime < 10000 then 10000 else requested_lifetime)
     in if lifetime > 3600000 then 3600000 else lifetime)"

definition mu_secure_channel_open ::
  "mu_secure_channel \<Rightarrow> mu_string option \<Rightarrow> mu_message_security_mode \<Rightarrow> opcua_uint32_t \<Rightarrow> entropy \<Rightarrow>
   (opcua_statuscode_t + opcua_uint32_t) \<times> mu_secure_channel" where
  "mu_secure_channel_open channel security_policy security_mode requested_lifetime entropy =
    (let requested_policy = requested_policy_id security_policy in
     if requested_policy = MU_SECURITY_POLICY_INVALID_ID then (Inl MU_STATUS_BAD_SECURITYPOLICYREJECTED, channel)
     else if \<not> is_valid_security_mode security_mode then (Inl MU_STATUS_BAD_SECURITYMODEREJECTED, channel)
     else
       let verdict =
         (if sc_policy channel = MU_SECURITY_POLICY_NONE_ID then
            (if requested_policy \<noteq> MU_SECURITY_POLICY_NONE_ID then MU_STATUS_BAD_SECURITYPOLICYREJECTED
             else if security_mode \<noteq> MU_MESSAGE_SECURITY_MODE_NONE then MU_STATUS_BAD_SECURITYMODEREJECTED
             else MU_STATUS_GOOD)
          else if sc_policy channel = MU_SECURITY_POLICY_BASIC256SHA256_ID \<or>
                  sc_policy channel = MU_SECURITY_POLICY_AES128_SHA256_RSAOAEP_ID \<or>
                  sc_policy channel = MU_SECURITY_POLICY_AES256_SHA256_RSAPSS_ID then
            (if requested_policy \<noteq> sc_policy channel then MU_STATUS_BAD_SECURITYPOLICYREJECTED
             else if security_mode = MU_MESSAGE_SECURITY_MODE_NONE then MU_STATUS_BAD_SECURITYMODEREJECTED
             else MU_STATUS_GOOD)
          else if mu_security_policy_asym_family (sc_policy channel) = MU_ASYM_FAMILY_ECC then
            (if requested_policy \<noteq> sc_policy channel then MU_STATUS_BAD_SECURITYPOLICYREJECTED
             else if security_mode = MU_MESSAGE_SECURITY_MODE_NONE then MU_STATUS_BAD_SECURITYMODEREJECTED
             else MU_STATUS_GOOD)
          else MU_STATUS_BAD_SECURITYPOLICYREJECTED)
       in
       if verdict \<noteq> MU_STATUS_GOOD then (Inl verdict, channel)
       else
         let issued =
           (if \<not> is_open channel then
              (case generate_channel_id entropy of
                 Inl id_status \<Rightarrow> Inl id_status
               | Inr cid \<Rightarrow> Inr (channel\<lparr>channel_id := cid, token_id := 1, is_open := True\<rparr>))
            else Inr (channel\<lparr>token_id := token_id channel + 1\<rparr>))
         in (case issued of
               Inl id_status \<Rightarrow> (Inl id_status, channel)
             | Inr channel \<Rightarrow>
               let lifetime = clamp_lifetime requested_lifetime
               in (Inr lifetime, channel\<lparr>revised_lifetime := lifetime, sc_mode := security_mode\<rparr>)))"

text \<open>The third component lists the cipher contexts handed back to the crypto adapter.\<close>

definition mu_secure_channel_close ::
  "mu_secure_channel \<Rightarrow> opcua_statuscode_t \<times> mu_secure_channel \<times> bytes list" where
  "mu_secure_channel_close channel =
    (if \<not> is_open channel then (MU_STATUS_BAD_TCPSECURECHANNELUNKNOWN, channel, [])
     else
       (case mu_sym_keys_release_cipher (client_keys channel) of (_, freed_client) \<Rightarrow>
       (case mu_sym_keys_release_cipher (server_keys channel) of (_, freed_server) \<Rightarrow>
         (MU_STATUS_GOOD, mu_secure_channel_init channel, freed_client @ freed_server))))"

section \<open>Checks of an OpenSecureChannel request\<close>

definition mu_opn_time_sync_allows :: "opcua_datetime_t \<Rightarrow> opcua_datetime_t \<Rightarrow> opcua_uint64_t \<Rightarrow> bool" where
  "mu_opn_time_sync_allows server_time client_time max_skew_ns =
    (if server_time = 0 \<or> client_time = 0 then True
     else
       let diff = server_time - client_time;
           diff = (if sint diff < 0 then - diff else diff);
           diff_ticks = unat diff
       in if diff_ticks > (2 ^ 64 - 1) div 100 then False
          else diff_ticks * 100 \<le> unat max_skew_ns)"

definition validate_client_nonce :: "mu_bytestring \<Rightarrow> opcua_statuscode_t" where
  "validate_client_nonce client_nonce =
    (if sint (str_length client_nonce) > 0 \<and> (sint (str_length client_nonce) < 32 \<or> sint (str_length client_nonce) > 128)
     then MU_STATUS_BAD_NONCEINVALID else MU_STATUS_GOOD)"

section \<open>Channel ids across connections\<close>

text \<open>
  A connection slot; the handle is any non-null pointer.  The pointer to the active connection is its
  index in the array.
\<close>

record mu_connection =
  client_handle :: "nat option"
  rx_len :: nat
  rx_read_pos :: nat
  last_activity_ms :: opcua_uint64_t
  tcp_conn :: mu_tcp_connection
  secure_channel :: mu_secure_channel
  rx_buffer :: bytes

definition secure_channel_id_used_by_other_connection ::
  "mu_connection list \<Rightarrow> nat \<Rightarrow> opcua_uint32_t \<Rightarrow> bool" where
  "secure_channel_id_used_by_other_connection conns active cid =
    (if cid = 0 then False
     else list_ex (\<lambda>i. i \<noteq> active \<and> client_handle (conns ! i) \<noteq> None \<and> is_open (secure_channel (conns ! i)) \<and>
            channel_id (secure_channel (conns ! i)) = cid) [0..<length conns])"

text \<open>The loop over the salts; the number of remaining candidates is the fuel it really has.\<close>

fun unique_id_loop :: "mu_connection list \<Rightarrow> nat \<Rightarrow> opcua_uint32_t \<Rightarrow> nat \<Rightarrow> opcua_uint32_t option" where
  "unique_id_loop conns active candidate 0 = None"
| "unique_id_loop conns active candidate (Suc n) =
    (let candidate = (if candidate = 0 then 1 else candidate) in
     if \<not> secure_channel_id_used_by_other_connection conns active candidate then Some candidate
     else unique_id_loop conns active (candidate + 0x9E3779B9) n)"

definition ensure_unique_secure_channel_id ::
  "mu_connection list \<Rightarrow> nat \<Rightarrow> opcua_statuscode_t \<times> mu_connection list" where
  "ensure_unique_secure_channel_id conns active =
    (case unique_id_loop conns active (channel_id (secure_channel (conns ! active))) (Suc (length conns)) of
       Some candidate \<Rightarrow>
         (MU_STATUS_GOOD, conns[active := (conns ! active)\<lparr>secure_channel :=
            (secure_channel (conns ! active))\<lparr>channel_id := candidate\<rparr>\<rparr>])
     | None \<Rightarrow> (MU_STATUS_BAD_SECURITYCHECKSFAILED, conns))"

section \<open>Opening a channel\<close>

lemma clamp_lifetime_bounds: "10000 \<le> clamp_lifetime l \<and> clamp_lifetime l \<le> 3600000"
  by (auto simp: clamp_lifetime_def Let_def not_less)

lemma generate_channel_id_nonzero: "generate_channel_id e = Inr c \<Longrightarrow> c \<noteq> 0"
  by (auto simp: generate_channel_id_def Let_def split: option.splits sum.splits if_splits)

lemma open_error_unchanged:
  "mu_secure_channel_open c p m l e = (Inl st, c') \<Longrightarrow> c' = c"
  by (auto simp: mu_secure_channel_open_def Let_def split: if_splits sum.splits)

lemma open_Inr:
  assumes "mu_secure_channel_open c p m l e = (Inr r, c')"
  obtains (issue) cid where "\<not> is_open c" "generate_channel_id e = Inr cid"
      "c' = c\<lparr>channel_id := cid, token_id := 1, is_open := True, revised_lifetime := clamp_lifetime l, sc_mode := m\<rparr>"
    | (renew) "is_open c"
      "c' = c\<lparr>token_id := token_id c + 1, revised_lifetime := clamp_lifetime l, sc_mode := m\<rparr>"
  using assms by (auto simp: mu_secure_channel_open_def Let_def split: if_splits sum.splits)

lemma open_policy:
  assumes "mu_secure_channel_open c p m l e = (Inr r, c')"
  shows "r = clamp_lifetime l" "requested_policy_id p = sc_policy c" "sc_policy c \<noteq> MU_SECURITY_POLICY_INVALID_ID"
    "if sc_policy c = MU_SECURITY_POLICY_NONE_ID then m = MU_MESSAGE_SECURITY_MODE_NONE
     else m = MU_MESSAGE_SECURITY_MODE_SIGN \<or> m = MU_MESSAGE_SECURITY_MODE_SIGN_AND_ENCRYPT"
  using assms by (auto simp: mu_secure_channel_open_def is_valid_security_mode_def Let_def split: if_splits sum.splits)

section \<open>Unique channel ids\<close>

definition other_channel_ids :: "mu_connection list \<Rightarrow> nat \<Rightarrow> opcua_uint32_t set" where
  "other_channel_ids conns active = {channel_id (secure_channel (conns ! i)) | i.
     i < length conns \<and> i \<noteq> active \<and> client_handle (conns ! i) \<noteq> None \<and> is_open (secure_channel (conns ! i))}"

lemma used_by_other_iff:
  "cid \<noteq> 0 \<Longrightarrow> secure_channel_id_used_by_other_connection conns active cid \<longleftrightarrow> cid \<in> other_channel_ids conns active"
  by (auto simp: secure_channel_id_used_by_other_connection_def other_channel_ids_def list_ex_iff)

lemma other_channel_ids_card:
  assumes "active < length conns"
  shows "finite (other_channel_ids conns active)" "card (other_channel_ids conns active) < length conns"
proof -
  have sub: "other_channel_ids conns active \<subseteq> (\<lambda>i. channel_id (secure_channel (conns ! i))) ` ({0..<length conns} - {active})"
    by (auto simp: other_channel_ids_def)
  then show "finite (other_channel_ids conns active)" by (rule finite_subset) simp
  have "card (other_channel_ids conns active) \<le> card ({0..<length conns} - {active})"
    using sub by (meson card_image_le card_mono finite_Diff finite_atLeastLessThan finite_imageI order_trans)
  also have "\<dots> < length conns" using assms by simp
  finally show "card (other_channel_ids conns active) < length conns" .
qed

lemma unique_id_loop_find:
  "unique_id_loop conns active (stepped c k + id_step) n =
   find (\<lambda>x. \<not> x \<in> other_channel_ids conns active) (map (stepped c) [Suc k..<Suc k + n])"
proof (induction n arbitrary: k)
  case (Suc n)
  have n: "(if stepped c k + id_step = 0 then 1 else stepped c k + id_step) = stepped c (Suc k)"
    by (simp add: skip_zero_def)
  have "[Suc k..<Suc k + Suc n] = Suc k # [Suc (Suc k)..<Suc (Suc k) + n]" by (simp add: upt_conv_Cons)
  then show ?case
    unfolding unique_id_loop.simps Let_def n
    using Suc.IH [of "Suc k"] used_by_other_iff [OF stepped_nonzero [of c "Suc k"], of conns active]
    by (simp del: stepped.simps)
qed simp

lemma unique_id_loop_start:
  "unique_id_loop conns active c (Suc n) =
   find (\<lambda>x. \<not> x \<in> other_channel_ids conns active) (map (stepped c) [0..<Suc n])"
proof -
  have n: "(if c = 0 then 1 else c) = stepped c 0" by (simp add: skip_zero_def)
  have "[0..<Suc n] = 0 # [Suc 0..<Suc 0 + n]" by (simp add: upt_conv_Cons)
  then show ?thesis
    unfolding unique_id_loop.simps Let_def n
    using unique_id_loop_find [of conns active c 0 n] used_by_other_iff [OF stepped_nonzero [of c 0], of conns active]
    by (simp del: stepped.simps)
qed

section \<open>Histories of a channel\<close>

text \<open>
  What the server does with a channel between its initialisation and its reuse: open or renew, close,
  record the policy of a received OPN, accept a sequence number, number a response, replace the id by
  an unused one, and install derived keys on an open channel.
\<close>

inductive channel_step :: "mu_secure_channel \<Rightarrow> mu_secure_channel \<Rightarrow> bool" where
  opened: "mu_secure_channel_open c p m l e = (r, c') \<Longrightarrow> channel_step c c'"
| closed: "mu_secure_channel_close c = (st, c', freed) \<Longrightarrow> channel_step c c'"
| classified: "channel_step c (c\<lparr>sc_policy := p\<rparr>)"
| received: "mu_sequence_validate (sequence c) s = (MU_STATUS_GOOD, v) \<Longrightarrow>
    channel_step c (c\<lparr>sequence := v, in_last_sequence_number := s\<rparr>)"
| sent: "channel_step c (c\<lparr>out_sequence_number := out_sequence_number c + 1\<rparr>)"
| renamed: "is_open c \<Longrightarrow> cid \<noteq> 0 \<Longrightarrow> channel_step c (c\<lparr>channel_id := cid\<rparr>)"
| keyed: "is_open c \<Longrightarrow> channel_step c (c\<lparr>client_keys := ck, server_keys := sk, keys_valid := True\<rparr>)"

inductive channel_reachable :: "mu_secure_channel \<Rightarrow> bool" where
  init: "channel_reachable (mu_secure_channel_init c)"
| step: "channel_reachable c \<Longrightarrow> channel_step c c' \<Longrightarrow> channel_reachable c'"

definition channel_inv :: "mu_secure_channel \<Rightarrow> bool" where
  "channel_inv c \<longleftrightarrow>
    (if is_open c then channel_id c \<noteq> 0 \<and> 10000 \<le> revised_lifetime c \<and> revised_lifetime c \<le> 3600000
     else channel_id c = 0 \<and> token_id c = 0 \<and> \<not> keys_valid c \<and> client_keys c = sym_keys_zero \<and>
       server_keys c = sym_keys_zero \<and> sc_mode c = MU_MESSAGE_SECURITY_MODE_NONE)"

inductive_cases channel_stepE: "channel_step c c'"

lemma channel_inv_init: "channel_inv (mu_secure_channel_init c)"
  by (simp add: channel_inv_def mu_secure_channel_init_def)

lemma channel_inv_open:
  assumes "mu_secure_channel_open c p m l e = (r, c')" "channel_inv c"
  shows "channel_inv c'"
proof (cases r)
  case (Inl st)
  then show ?thesis using open_error_unchanged [of c p m l e st c'] assms by simp
next
  case (Inr x)
  from assms(1) [unfolded Inr] show ?thesis
    by (cases rule: open_Inr)
      (use assms(2) clamp_lifetime_bounds [of l] generate_channel_id_nonzero [of e] in \<open>auto simp: channel_inv_def\<close>)
qed

lemma channel_inv_step: "channel_step c c' \<Longrightarrow> channel_inv c \<Longrightarrow> channel_inv c'"
proof (induction rule: channel_step.induct)
  case (opened c p m l e r c')
  then show ?case by (rule channel_inv_open)
next
  case (closed c st c' freed)
  then show ?case
    by (auto simp: mu_secure_channel_close_def channel_inv_init split: if_splits prod.splits)
qed (auto simp: channel_inv_def)

lemma channel_reachable_inv: "channel_reachable c \<Longrightarrow> channel_inv c"
  by (induction rule: channel_reachable.induct) (auto intro: channel_inv_init channel_inv_step)

lemma sint64_neg: "sint (x :: 64 word) < 0 \<longleftrightarrow> 2 ^ 63 \<le> unat x"
  using sint_neg_iff [of x] by simp

lemma abs_diff_words:
  fixes a b :: "64 word"
  assumes "unat a < 2 ^ 63" "unat b < 2 ^ 63"
  shows "unat (if sint (a - b) < 0 then - (a - b) else a - b) = (if unat b \<le> unat a then unat a - unat b else unat b - unat a)"
proof (cases "unat b \<le> unat a")
  case True
  then have d: "unat (a - b) = unat a - unat b" by (simp add: unat_sub word_le_nat_alt)
  then have "\<not> 2 ^ 63 \<le> unat (a - b)" using assms(1) by linarith
  then show ?thesis unfolding sint64_neg using d True by simp
next
  case False
  then have d: "unat (b - a) = unat b - unat a" by (simp add: unat_sub word_le_nat_alt)
  have "unat (a - b) = unat a + 2 ^ 64 - unat b" using False by (simp add: unat_sub_if_size word_size)
  then have "2 ^ 63 \<le> unat (a - b)" using assms by simp
  then show ?thesis unfolding sint64_neg using d False by simp
qed


lemma nat_abs_diff: "int (if b \<le> a then a - b else b - a) = \<bar>int a - int b\<bar>"
  by simp

section \<open>Properties\<close>

text \<open>
  Opening and renewing a SecureChannel.  A rejected request leaves the channel exactly as it was.
  An accepted one leaves an open channel whose lifetime lies between 10 seconds and one hour and is
  the lifetime reported to the client; a new channel gets a nonzero id and token 1, a renewed one
  keeps its id and gets the next token; and the request named the channel's own policy, with a mode
  that signs unless the policy is None.
\<close>

lemma channel_open_sound:
  assumes "mu_secure_channel_open c p m l e = (r, c')"
  shows "case r of
      Inl st \<Rightarrow> c' = c
    | Inr lifetime \<Rightarrow>
        is_open c' \<and> revised_lifetime c' = lifetime \<and> 10000 \<le> lifetime \<and> lifetime \<le> 3600000 \<and>
        (10000 \<le> l \<and> l \<le> 3600000 \<longrightarrow> lifetime = l) \<and>
        (if is_open c then channel_id c' = channel_id c \<and> token_id c' = token_id c + 1
         else channel_id c' \<noteq> 0 \<and> token_id c' = 1) \<and>
        sc_policy c' = requested_policy_id p \<and> sc_policy c' = sc_policy c \<and>
        sc_policy c' \<noteq> MU_SECURITY_POLICY_INVALID_ID \<and> sc_mode c' = m \<and>
        (sc_policy c' = MU_SECURITY_POLICY_NONE_ID \<longleftrightarrow> m = MU_MESSAGE_SECURITY_MODE_NONE) \<and>
        sequence c' = sequence c \<and> client_keys c' = client_keys c \<and> server_keys c' = server_keys c"
proof (cases r)
  case (Inl st)
  then show ?thesis using assms by (simp add: open_error_unchanged)
next
  case (Inr lifetime)
  note ok = assms [unfolded Inr]
  have mode: "sc_policy c = MU_SECURITY_POLICY_NONE_ID \<longleftrightarrow> m = MU_MESSAGE_SECURITY_MODE_NONE"
    using open_policy(4) [OF ok] by (auto split: if_splits)
  have same: "10000 \<le> l \<and> l \<le> 3600000 \<longrightarrow> clamp_lifetime l = l" by (auto simp: clamp_lifetime_def)
  from ok show ?thesis
    by (cases rule: open_Inr)
      (use Inr open_policy(1-3) [OF ok] mode same clamp_lifetime_bounds [of l] generate_channel_id_nonzero [of e] in simp_all)
qed

definition sample_channel :: mu_secure_channel where
  "sample_channel = \<lparr>channel_id = 0, token_id = 0, created_at = 0, revised_lifetime = 0,
     sequence = mu_sequence_validator_init, out_sequence_number = 0, in_last_sequence_number = 0, is_open = False,
     sc_policy = MU_SECURITY_POLICY_NONE_ID, sc_mode = MU_MESSAGE_SECURITY_MODE_NONE,
     client_keys = sym_keys_zero, server_keys = sym_keys_zero, keys_valid = False\<rparr>"

definition sample_random :: "nat \<Rightarrow> opcua_statuscode_t + bytes" where
  "sample_random n = Inr (take n (map of_nat [1..<65]))"

lemma sample_random_4: "sample_random 4 = Inr [1, 2, 3, 4]"
  by (simp add: sample_random_def upt_conv_Cons)

lemma sample_channel_opens:
  "mu_secure_channel_open sample_channel None MU_MESSAGE_SECURITY_MODE_NONE 5 (Some sample_random) =
    (Inr 10000, sample_channel\<lparr>channel_id := 0x04030201, token_id := 1, is_open := True, revised_lifetime := 10000,
       sc_mode := MU_MESSAGE_SECURITY_MODE_NONE\<rparr>)"
  by (simp add: mu_secure_channel_open_def sample_channel_def requested_policy_id_def is_valid_security_mode_def
      generate_channel_id_def clamp_lifetime_def sample_random_4 Let_def)

text \<open>
  C20.  Every state a channel can reach from its initialisation by opening, renewing, closing, receiving,
  sending, being classified by an OPN header, being given another id and being keyed keeps the channel
  invariant: an open channel has a nonzero id and a lifetime between 10 seconds and one hour, and a
  closed one holds no id, no token and no key material.
\<close>

theorem channel_invariant:
  assumes "channel_reachable c"
  shows "if is_open c then channel_id c \<noteq> 0 \<and> 10000 \<le> revised_lifetime c \<and> revised_lifetime c \<le> 3600000
    else channel_id c = 0 \<and> token_id c = 0 \<and> \<not> keys_valid c \<and> client_keys c = sym_keys_zero \<and>
      server_keys c = sym_keys_zero \<and> sc_mode c = MU_MESSAGE_SECURITY_MODE_NONE"
  using channel_reachable_inv [OF assms] by (simp add: channel_inv_def)

theorem channel_invariant_witness:
  "10000 \<le> revised_lifetime (snd (mu_secure_channel_open (mu_secure_channel_init sample_channel) None
     MU_MESSAGE_SECURITY_MODE_NONE 5 (Some sample_random)))"
proof -
  have i: "mu_secure_channel_init sample_channel = sample_channel"
    by (simp add: mu_secure_channel_init_def sample_channel_def)
  have "channel_reachable (snd (mu_secure_channel_open (mu_secure_channel_init sample_channel) None
      MU_MESSAGE_SECURITY_MODE_NONE 5 (Some sample_random)))"
    by (rule channel_reachable.step [OF channel_reachable.init channel_step.opened]) (rule surjective_pairing)
  from channel_invariant [OF this] show ?thesis by (simp add: i sample_channel_opens)
qed

text \<open>
  C21.  The SecureChannelId given to a new channel.  Whatever ids the other connections use, the search
  succeeds within the code's bound of one candidate more than there are connection slots: it stores a
  nonzero id that no other open channel has, changes nothing else, and keeps the randomly drawn id when
  that one is already unique.
\<close>

theorem unique_channel_id:
  assumes "active < length conns" "length conns \<le> 2 ^ 30"
  shows "\<exists>cid. ensure_unique_secure_channel_id conns active =
      (MU_STATUS_GOOD, conns[active := (conns ! active)\<lparr>secure_channel :=
         (secure_channel (conns ! active))\<lparr>channel_id := cid\<rparr>\<rparr>]) \<and>
    cid \<noteq> 0 \<and>
    (\<forall>i < length conns. i \<noteq> active \<and> client_handle (conns ! i) \<noteq> None \<and> is_open (secure_channel (conns ! i)) \<longrightarrow>
       channel_id (secure_channel (conns ! i)) \<noteq> cid) \<and>
    (channel_id (secure_channel (conns ! active)) \<notin> insert 0 (other_channel_ids conns active) \<longrightarrow>
       cid = channel_id (secure_channel (conns ! active)))"
proof -
  define c where "c = channel_id (secure_channel (conns ! active))"
  have "\<exists>cid. find (\<lambda>x. \<not> x \<in> other_channel_ids conns active) (map (stepped c) [0..<Suc (length conns)]) = Some cid"
    using stepped_ids.finds_free other_channel_ids_card [OF assms(1)] assms(2) by blast
  then obtain cid where f: "find (\<lambda>x. \<not> x \<in> other_channel_ids conns active) (map (stepped c) [0..<Suc (length conns)]) = Some cid" ..
  note fresh = stepped_ids.found_fresh [OF f assms(2)]
  have keep: "cid = c" if "c \<notin> insert 0 (other_channel_ids conns active)"
  proof -
    have "map (stepped c) [0..<Suc (length conns)] = c # map (stepped c) [Suc 0..<Suc (length conns)]"
      using that by (simp add: upt_conv_Cons skip_zero_def del: upt_Suc)
    then show ?thesis using f that by simp
  qed
  have e: "ensure_unique_secure_channel_id conns active =
      (MU_STATUS_GOOD, conns[active := (conns ! active)\<lparr>secure_channel :=
         (secure_channel (conns ! active))\<lparr>channel_id := cid\<rparr>\<rparr>])"
    unfolding ensure_unique_secure_channel_id_def c_def [symmetric] unique_id_loop_start f by simp
  have o: "\<forall>i < length conns. i \<noteq> active \<and> client_handle (conns ! i) \<noteq> None \<and> is_open (secure_channel (conns ! i)) \<longrightarrow>
       channel_id (secure_channel (conns ! i)) \<noteq> cid"
    using fresh(1) unfolding other_channel_ids_def by blast
  show ?thesis
    by (rule exI [of _ cid]) (intro conjI e o fresh(2) impI keep [unfolded c_def])
qed

definition sample_connection :: mu_connection where
  "sample_connection = \<lparr>client_handle = Some 1, rx_len = 0, rx_read_pos = 0, last_activity_ms = 0,
     tcp_conn = mu_tcp_connection_init,
     secure_channel = sample_channel\<lparr>channel_id := 5, is_open := True\<rparr>, rx_buffer = []\<rparr>"

theorem unique_channel_id_witness:
  "\<exists>cid. ensure_unique_secure_channel_id [sample_connection, sample_connection] 1 =
      (MU_STATUS_GOOD, [sample_connection, sample_connection\<lparr>secure_channel :=
         (secure_channel sample_connection)\<lparr>channel_id := cid\<rparr>\<rparr>]) \<and> cid \<noteq> 5"
proof -
  obtain cid where "ensure_unique_secure_channel_id [sample_connection, sample_connection] 1 =
      (MU_STATUS_GOOD, [sample_connection, sample_connection][1 := ([sample_connection, sample_connection] ! 1)\<lparr>secure_channel :=
         (secure_channel ([sample_connection, sample_connection] ! 1))\<lparr>channel_id := cid\<rparr>\<rparr>])"
    "\<forall>i < length [sample_connection, sample_connection]. i \<noteq> 1 \<and> client_handle ([sample_connection, sample_connection] ! i) \<noteq> None \<and>
       is_open (secure_channel ([sample_connection, sample_connection] ! i)) \<longrightarrow>
       channel_id (secure_channel ([sample_connection, sample_connection] ! i)) \<noteq> cid"
    using unique_channel_id [of 1 "[sample_connection, sample_connection]"] by auto
  then show ?thesis
    by (intro exI [of _ cid]) (auto simp: sample_connection_def dest: spec [of _ 0])
qed

text \<open>
  The clock check of an OpenSecureChannel request.  For timestamps that are set and representable
  as positive DateTimes, the request passes exactly when the two clocks differ by at most the allowed
  skew, computed without overflow in 100 ns ticks.
\<close>

lemma opn_time_sync_exact:
  assumes "0 < unat s" "unat s < 2 ^ 63" "0 < unat c" "unat c < 2 ^ 63"
  shows "mu_opn_time_sync_allows s c skew \<longleftrightarrow> \<bar>int (unat s) - int (unat c)\<bar> * 100 \<le> int (unat skew)"
proof -
  define d where "d = (if unat c \<le> unat s then unat s - unat c else unat c - unat s)"
  have d: "int d = \<bar>int (unat s) - int (unat c)\<bar>" unfolding d_def by (rule nat_abs_diff)
  have nz: "\<not> (s = 0 \<or> c = 0)" using assms(1,3) by (metis less_irrefl unat_0)
  have lim: "unat skew < 2 ^ 64" using unsigned_less [of skew, where ?'a = nat] by simp
  have "mu_opn_time_sync_allows s c skew \<longleftrightarrow> d * 100 \<le> unat skew"
    using lim unfolding mu_opn_time_sync_allows_def Let_def if_not_P [OF nz] abs_diff_words [OF assms(2,4)] d_def [symmetric]
    by auto
  also have "\<dots> \<longleftrightarrow> int d * 100 \<le> int (unat skew)" by linarith
  finally show ?thesis unfolding d .
qed

end
