(* ===== verification/Mu_Session.thy ===== *)
theory Mu_Session
  imports Mu_Channel Complex_Main
begin

unbundle bit_operations_syntax

text \<open>
  Sessions: \<^verbatim>\<open>src/services/session.c\<close>.  The table of sessions is a list of slots; a pointer to a
  session is its index.  SessionIds and authentication tokens are chosen from entropy; an operation
  that draws twice takes the outcomes of both draws.  The lemmas show that live sessions never share
  an id or a token, that a free slot can always be filled, and that the table implements a map from
  tokens to sessions.
\<close>

section \<open>The session record\<close>

datatype mu_session_state = MU_SESSION_STATE_CLOSED | MU_SESSION_STATE_CREATED | MU_SESSION_STATE_ACTIVATED

record mu_session =
  ss_state :: mu_session_state
  session_id :: opcua_uint32_t
  auth_token :: opcua_uint32_t
  revised_session_timeout_ms :: opcua_uint32_t
  ss_last_activity_ms :: opcua_uint64_t
  server_nonce :: bytes
  ss_secure_channel_id :: opcua_uint32_t
  user_identity_kind :: opcua_byte_t
  user_identity_len :: opcua_byte_t
  user_identity :: bytes
  session_roles :: "opcua_uint32_t list"
  session_role_count :: opcua_byte_t

abbreviation (input) MU_SERVER_NONCE_LENGTH :: nat where "MU_SERVER_NONCE_LENGTH \<equiv> 32"
abbreviation (input) MU_USER_IDENTITY_SIZE :: nat where "MU_USER_IDENTITY_SIZE \<equiv> 64"

section \<open>Timeouts as IEEE-754 bit patterns\<close>

abbreviation (input) MU_SESSION_TIMEOUT_MIN_BITS :: opcua_uint64_t where
  "MU_SESSION_TIMEOUT_MIN_BITS \<equiv> 0x40c3880000000000"
abbreviation (input) MU_SESSION_TIMEOUT_MAX_BITS :: opcua_uint64_t where
  "MU_SESSION_TIMEOUT_MAX_BITS \<equiv> 0x414b774000000000"
abbreviation (input) MU_DOUBLE_SIGN_BIT :: opcua_uint64_t where
  "MU_DOUBLE_SIGN_BIT \<equiv> 0x8000000000000000"

definition clamp_timeout_bits :: "opcua_uint64_t \<Rightarrow> opcua_uint64_t" where
  "clamp_timeout_bits bits =
    (if bits AND MU_DOUBLE_SIGN_BIT \<noteq> 0 then MU_SESSION_TIMEOUT_MIN_BITS
     else if bits < MU_SESSION_TIMEOUT_MIN_BITS then MU_SESSION_TIMEOUT_MIN_BITS
     else if bits > MU_SESSION_TIMEOUT_MAX_BITS then MU_SESSION_TIMEOUT_MAX_BITS
     else bits)"

definition duration_bits_to_ms :: "opcua_uint64_t \<Rightarrow> opcua_uint32_t" where
  "duration_bits_to_ms bits =
    (let exponent = ucast (drop_bit 52 bits AND 0x7FF) :: opcua_uint32_t;
         fraction = bits AND 0x000FFFFFFFFFFFFF;
         mantissa = push_bit 52 1 OR fraction;
         unbiased = exponent - 1023
     in if unbiased \<ge> 52 then ucast (push_bit (unat (unbiased - 52)) mantissa)
        else ucast (drop_bit (unat (52 - unbiased)) mantissa))"

section \<open>Operations on one session\<close>

definition mu_session_init :: "mu_session \<Rightarrow> mu_session" where
  "mu_session_init session = session\<lparr>
     ss_state := MU_SESSION_STATE_CLOSED, session_id := 0, auth_token := 0, revised_session_timeout_ms := 0,
     ss_last_activity_ms := 0, server_nonce := replicate MU_SERVER_NONCE_LENGTH 0, ss_secure_channel_id := 0,
     user_identity_kind := 0, user_identity_len := 0, user_identity := replicate MU_USER_IDENTITY_SIZE 0\<rparr>"

definition mu_session_same_user :: "mu_session \<Rightarrow> mu_session \<Rightarrow> bool" where
  "mu_session_same_user a b =
    (if user_identity_kind a \<noteq> user_identity_kind b \<or> user_identity_len a \<noteq> user_identity_len b then False
     else take (unat (user_identity_len a)) (user_identity a) = take (unat (user_identity_len a)) (user_identity b))"

definition mu_session_generate_server_nonce :: "entropy \<Rightarrow> nat \<Rightarrow> opcua_statuscode_t + bytes" where
  "mu_session_generate_server_nonce entropy server_nonce_len =
    (case entropy of
       None \<Rightarrow> Inl MU_STATUS_BAD_SECURITYCHECKSFAILED
     | Some generate_random \<Rightarrow>
       if server_nonce_len = 0 then Inl MU_STATUS_BAD_SECURITYCHECKSFAILED
       else (case generate_random server_nonce_len of
               Inl _ \<Rightarrow> Inl MU_STATUS_BAD_SECURITYCHECKSFAILED
             | Inr nonce \<Rightarrow> Inr nonce))"

definition mu_session_create_with_identifiers ::
  "mu_session \<Rightarrow> opcua_uint64_t \<Rightarrow> opcua_uint32_t \<Rightarrow> opcua_uint32_t \<Rightarrow> opcua_uint32_t \<Rightarrow>
   opcua_statuscode_t + opcua_uint64_t \<times> mu_session" where
  "mu_session_create_with_identifiers session requested_timeout_bits assigned_session_id assigned_auth_token
      creating_secure_channel_id =
    (if ss_state session \<noteq> MU_SESSION_STATE_CLOSED then Inl MU_STATUS_BAD_INTERNALERROR
     else
       let revised = clamp_timeout_bits requested_timeout_bits
       in Inr (revised, session\<lparr>session_id := assigned_session_id, auth_token := assigned_auth_token,
            ss_secure_channel_id := creating_secure_channel_id,
            revised_session_timeout_ms := duration_bits_to_ms revised, ss_state := MU_SESSION_STATE_CREATED\<rparr>))"

definition mu_session_create :: "mu_session \<Rightarrow> opcua_uint64_t \<Rightarrow> opcua_statuscode_t + opcua_uint64_t \<times> mu_session" where
  "mu_session_create session requested_timeout_bits =
    mu_session_create_with_identifiers session requested_timeout_bits 1 12345 0"

definition mu_session_validate_secure_channel :: "mu_session \<Rightarrow> opcua_uint32_t \<Rightarrow> opcua_statuscode_t" where
  "mu_session_validate_secure_channel session active_secure_channel_id =
    (if ss_secure_channel_id session \<noteq> active_secure_channel_id then MU_STATUS_BAD_SECURECHANNELIDINVALID
     else MU_STATUS_GOOD)"

definition mu_session_activate ::
  "mu_session \<Rightarrow> opcua_uint32_t \<Rightarrow> opcua_uint32_t \<Rightarrow> opcua_statuscode_t \<times> mu_session" where
  "mu_session_activate session token identity_token_encoding_id =
    (if ss_state session \<noteq> MU_SESSION_STATE_CREATED \<and> ss_state session \<noteq> MU_SESSION_STATE_ACTIVATED then
       (MU_STATUS_BAD_SESSIONIDINVALID, session)
     else if auth_token session \<noteq> token then (MU_STATUS_BAD_SESSIONIDINVALID, session)
     else if identity_token_encoding_id \<noteq> 321 \<and> identity_token_encoding_id \<noteq> 324 \<and>
             identity_token_encoding_id \<noteq> 327 \<and> identity_token_encoding_id \<noteq> 940 then
       (MU_STATUS_BAD_IDENTITYTOKENINVALID, session)
     else (MU_STATUS_GOOD, session\<lparr>ss_state := MU_SESSION_STATE_ACTIVATED\<rparr>))"

definition mu_session_close :: "mu_session \<Rightarrow> opcua_uint32_t \<Rightarrow> opcua_statuscode_t \<times> mu_session" where
  "mu_session_close session token =
    (if ss_state session = MU_SESSION_STATE_CLOSED then (MU_STATUS_BAD_SESSIONIDINVALID, session)
     else if auth_token session \<noteq> token then (MU_STATUS_BAD_SESSIONIDINVALID, session)
     else (MU_STATUS_GOOD, session\<lparr>ss_state := MU_SESSION_STATE_CLOSED,
             server_nonce := replicate MU_SERVER_NONCE_LENGTH 0\<rparr>))"

definition mu_session_close_timeout :: "mu_session \<Rightarrow> mu_session" where
  "mu_session_close_timeout session =
    (if ss_state session = MU_SESSION_STATE_CLOSED then session
     else session\<lparr>ss_state := MU_SESSION_STATE_CLOSED, server_nonce := replicate MU_SERVER_NONCE_LENGTH 0\<rparr>)"

section \<open>Operations on the table\<close>

definition mu_session_find_by_token :: "mu_session list \<Rightarrow> opcua_uint32_t \<Rightarrow> nat option" where
  "mu_session_find_by_token sessions token =
    find (\<lambda>i. ss_state (sessions ! i) \<noteq> MU_SESSION_STATE_CLOSED \<and> auth_token (sessions ! i) = token)
      [0..<length sessions]"

definition mu_session_find_closed_by_token :: "mu_session list \<Rightarrow> opcua_uint32_t \<Rightarrow> nat option" where
  "mu_session_find_closed_by_token sessions token =
    find (\<lambda>i. ss_state (sessions ! i) = MU_SESSION_STATE_CLOSED \<and> auth_token (sessions ! i) = token)
      [0..<length sessions]"

definition mu_session_find_free :: "mu_session list \<Rightarrow> nat option" where
  "mu_session_find_free sessions =
    find (\<lambda>i. ss_state (sessions ! i) = MU_SESSION_STATE_CLOSED) [0..<length sessions]"

definition session_id_active :: "mu_session list \<Rightarrow> opcua_uint32_t \<Rightarrow> bool" where
  "session_id_active sessions sid =
    list_ex (\<lambda>s. ss_state s \<noteq> MU_SESSION_STATE_CLOSED \<and> session_id s = sid) sessions"

definition authentication_token_active :: "mu_session list \<Rightarrow> opcua_uint32_t \<Rightarrow> bool" where
  "authentication_token_active sessions token =
    list_ex (\<lambda>s. ss_state s \<noteq> MU_SESSION_STATE_CLOSED \<and> auth_token s = token) sessions"

text \<open>The four random bytes as a little-endian number, and the candidates the two loops try in turn.\<close>

definition random_base :: "bytes \<Rightarrow> opcua_uint32_t" where
  "random_base random =
    ucast (random ! 0) OR push_bit 8 (ucast (random ! 1)) OR push_bit 16 (ucast (random ! 2)) OR
    push_bit 24 (ucast (random ! 3))"

definition session_id_candidate :: "opcua_uint32_t \<Rightarrow> nat \<Rightarrow> opcua_uint32_t" where
  "session_id_candidate base salt =
    (let candidate = base XOR (0x9E3779B9 * of_nat salt)
     in if candidate = 0 then 0x85EBCA6B XOR of_nat salt else candidate)"

definition authentication_token_candidate :: "opcua_uint32_t \<Rightarrow> nat \<Rightarrow> opcua_uint32_t" where
  "authentication_token_candidate base salt =
    (let candidate = (base XOR 0xA5A5A5A5) + 0x9E3779B9 * of_nat salt
     in if candidate = 0 then 0xC2B2AE35 XOR of_nat salt else candidate)"

definition mu_session_generate_session_id :: "mu_session list \<Rightarrow> entropy \<Rightarrow> opcua_statuscode_t + opcua_uint32_t" where
  "mu_session_generate_session_id sessions entropy =
    (case entropy of
       None \<Rightarrow> Inl MU_STATUS_BAD_SECURITYCHECKSFAILED
     | Some generate_random \<Rightarrow> (case generate_random 4 of
         Inl _ \<Rightarrow> Inl MU_STATUS_BAD_SECURITYCHECKSFAILED
       | Inr random \<Rightarrow>
         (case find (\<lambda>candidate. \<not> session_id_active sessions candidate)
                 (map (session_id_candidate (random_base random)) [0..<Suc (length sessions)]) of
            Some candidate \<Rightarrow> Inr candidate
          | None \<Rightarrow> Inl MU_STATUS_BAD_SECURITYCHECKSFAILED)))"

definition mu_session_generate_authentication_token ::
  "mu_session list \<Rightarrow> entropy \<Rightarrow> opcua_statuscode_t + opcua_uint32_t" where
  "mu_session_generate_authentication_token sessions entropy =
    (case entropy of
       None \<Rightarrow> Inl MU_STATUS_BAD_SECURITYCHECKSFAILED
     | Some generate_random \<Rightarrow> (case generate_random 4 of
         Inl _ \<Rightarrow> Inl MU_STATUS_BAD_SECURITYCHECKSFAILED
       | Inr random \<Rightarrow>
         (case find (\<lambda>candidate. \<not> authentication_token_active sessions candidate)
                 (map (authentication_token_candidate (random_base random)) [0..<Suc (length sessions)]) of
            Some candidate \<Rightarrow> Inr candidate
          | None \<Rightarrow> Inl MU_STATUS_BAD_SECURITYCHECKSFAILED)))"

section \<open>The timeout\<close>

text \<open>The value of a positive normal double, given by its bits.\<close>

definition double_value :: "opcua_uint64_t \<Rightarrow> real" where
  "double_value bits = (2 ^ 52 + real (unat bits mod 2 ^ 52)) * 2 ^ (unat bits div 2 ^ 52) / 2 ^ 1075"

lemma clamp_timeout_range:
  "MU_SESSION_TIMEOUT_MIN_BITS \<le> clamp_timeout_bits b \<and> clamp_timeout_bits b \<le> MU_SESSION_TIMEOUT_MAX_BITS"
  by (auto simp: clamp_timeout_bits_def not_less)

lemma clamp_timeout_same:
  assumes "MU_SESSION_TIMEOUT_MIN_BITS \<le> b" "b \<le> MU_SESSION_TIMEOUT_MAX_BITS"
  shows "clamp_timeout_bits b = b"
proof -
  have "\<not> bit b 63"
  proof
    assume "bit b 63"
    then have "sint b < 0" using bit_last_iff [of b] by simp
    then have "2 ^ 63 \<le> unat b" by (simp add: sint64_neg)
    moreover have "unat b \<le> unat MU_SESSION_TIMEOUT_MAX_BITS" using assms(2) by (simp only: word_le_nat_alt)
    ultimately show False by simp
  qed
  then have "b AND 2 ^ 63 = 0"
    by (intro bit_eqI) (unfold bit_and_iff bit_exp_iff bit_0_eq, auto)
  then show ?thesis using assms by (simp add: clamp_timeout_bits_def leD)
qed

lemma unat_mantissa:
  "unat (push_bit 52 1 OR (b AND 0x000FFFFFFFFFFFFF) :: opcua_uint64_t) = 2 ^ 52 + unat b mod 2 ^ 52"
proof -
  have m: "b AND 0x000FFFFFFFFFFFFF = take_bit 52 b"
    by (simp add: take_bit_eq_mask mask_eq_exp_minus_1)
  have p: "push_bit 52 1 = (2 ^ 52 :: opcua_uint64_t)" by simp
  have "2 ^ 52 OR take_bit 52 b = 2 ^ 52 + take_bit 52 b"
    by (intro disjunctive_add [symmetric]) (unfold bit_take_bit_iff bit_exp_iff, blast)
  moreover have "unat (take_bit 52 b) = unat b mod 2 ^ 52"
    unfolding unsigned_take_bit_eq by (simp add: take_bit_eq_mod)
  moreover have "unat b mod 2 ^ 52 < 2 ^ 52" by simp
  ultimately show ?thesis unfolding m p by (simp add: unat_word_ariths)
qed

lemma timeout_exponent:
  assumes "MU_SESSION_TIMEOUT_MIN_BITS \<le> b" "b \<le> MU_SESSION_TIMEOUT_MAX_BITS"
  shows "1036 \<le> unat b div 2 ^ 52" "unat b div 2 ^ 52 \<le> 1044"
proof -
  have "unat MU_SESSION_TIMEOUT_MIN_BITS \<le> unat b" "unat b \<le> unat MU_SESSION_TIMEOUT_MAX_BITS"
    using assms by (simp_all only: word_le_nat_alt)
  then have "4666723172467343360 \<le> unat b" "unat b \<le> 4704985352480227328" by simp_all
  then show "1036 \<le> unat b div 2 ^ 52" "unat b div 2 ^ 52 \<le> 1044" by simp_all
qed

lemma unat_exponent:
  "unat b div 2 ^ 52 < 2048 \<Longrightarrow> ucast (drop_bit 52 b AND 0x7FF) = (of_nat (unat b div 2 ^ 52) :: opcua_uint32_t)"
  for b :: opcua_uint64_t
proof -
  assume lt: "unat b div 2 ^ 52 < 2048"
  have m: "drop_bit 52 b AND 0x7FF = take_bit 11 (drop_bit 52 b)"
    by (simp add: take_bit_eq_mask mask_eq_exp_minus_1)
  have u: "unat (take_bit 11 (drop_bit 52 b)) = unat b div 2 ^ 52"
    using lt unfolding unsigned_take_bit_eq unsigned_drop_bit_eq by (simp add: take_bit_eq_mod drop_bit_eq_div)
  have "unat (ucast (take_bit 11 (drop_bit 52 b)) :: opcua_uint32_t) = unat (of_nat (unat b div 2 ^ 52) :: opcua_uint32_t)"
    using lt unfolding unsigned_ucast_eq u by (simp add: take_bit_eq_mod unat_of_nat)
  then show ?thesis unfolding m by (simp only: word_unat_eq_iff)
qed

lemma bits_to_ms:
  assumes "1023 \<le> unat b div 2 ^ 52" "unat b div 2 ^ 52 \<le> 1053"
  shows "unat (duration_bits_to_ms b) = (2 ^ 52 + unat b mod 2 ^ 52) div 2 ^ (1075 - unat b div 2 ^ 52)"
proof -
  define e where "e = unat b div 2 ^ 52"
  define m where "m = push_bit 52 1 OR (b AND 0x000FFFFFFFFFFFFF)"
  have m: "unat m = 2 ^ 52 + unat b mod 2 ^ 52" unfolding m_def by (rule unat_mantissa)
  have e: "1023 \<le> e" "e \<le> 1053" using assms unfolding e_def .
  define k where "k = 1075 - e"
  have k: "22 \<le> k" "k \<le> 52" "e - 1023 = 52 - k" using e unfolding k_def by simp_all
  have un: "of_nat e - 1023 = (of_nat (52 - k) :: opcua_uint32_t)"
    using of_nat_diff [of 1023 e, where ?'a = "32 word"] e k(3) by simp
  have small: "unat (of_nat (52 - k) :: opcua_uint32_t) = 52 - k" by (intro unat_of_nat32) simp
  have ge: "\<not> (52 :: opcua_uint32_t) \<le> of_nat (52 - k)" unfolding word_le_nat_alt small using k by simp
  have "of_nat (52 - k) \<le> (52 :: opcua_uint32_t)" unfolding word_le_nat_alt small by simp
  then have sh: "unat (52 - of_nat (52 - k) :: opcua_uint32_t) = k" using k small by (subst unat_sub) simp_all
  have x: "ucast (drop_bit 52 b AND 0x7FF) = (of_nat e :: opcua_uint32_t)"
    using unat_exponent [of b] e(2) unfolding e_def by simp
  have "duration_bits_to_ms b = ucast (drop_bit k m)"
    unfolding duration_bits_to_ms_def Let_def m_def [symmetric] x un if_not_P [OF ge] sh ..
  moreover have "take_bit 64 (unat m) = unat m"
    using unsigned_less [where ?'a = nat and w = m] by (intro take_bit_nat_eq_self) simp
  ultimately have "unat (duration_bits_to_ms b) = take_bit 32 (drop_bit k (unat m))"
    by (simp only: unsigned_ucast_eq unsigned_drop_bit_eq) simp
  also have "\<dots> = unat m div 2 ^ k mod 2 ^ 32" by (simp only: take_bit_eq_mod drop_bit_eq_div)
  also have "\<dots> = unat m div 2 ^ k"
  proof (rule mod_less)
    have "unat m < 2 ^ 32 * 2 ^ 22" using m mod_less_divisor [of "2 ^ 52" "unat b"] by simp
    also have "\<dots> \<le> 2 ^ 32 * 2 ^ k" using k(1) by (intro mult_le_mono power_increasing) simp_all
    finally show "unat m div 2 ^ k < 2 ^ 32" by (rule less_mult_imp_div_less)
  qed
  finally show ?thesis unfolding m k_def e_def .
qed

lemma duration_ms:
  assumes "MU_SESSION_TIMEOUT_MIN_BITS \<le> b" "b \<le> MU_SESSION_TIMEOUT_MAX_BITS"
  shows "unat (duration_bits_to_ms b) = (2 ^ 52 + unat b mod 2 ^ 52) div 2 ^ (1075 - unat b div 2 ^ 52)"
  using timeout_exponent [OF assms] by (intro bits_to_ms) simp_all

lemma timeout_floor:
  assumes "MU_SESSION_TIMEOUT_MIN_BITS \<le> b" "b \<le> MU_SESSION_TIMEOUT_MAX_BITS"
  shows "int (unat (duration_bits_to_ms b)) = \<lfloor>double_value b\<rfloor>"
proof -
  define e where "e = unat b div 2 ^ 52"
  define M where "M = 2 ^ 52 + unat b mod 2 ^ 52"
  have e: "1036 \<le> e" "e \<le> 1044" using timeout_exponent [OF assms] unfolding e_def .
  have "e + (1075 - e) = 1075" using e by linarith
  then have p: "(2 :: real) ^ 1075 = 2 ^ e * 2 ^ (1075 - e)" by (metis power_add)
  have "double_value b = (2 ^ e * real M) / (2 ^ e * 2 ^ (1075 - e))"
    unfolding double_value_def e_def [symmetric] M_def p by (simp only: of_nat_add of_nat_power of_nat_numeral mult.commute)
  also have "\<dots> = real M / 2 ^ (1075 - e)" by (rule mult_divide_mult_cancel_left) simp
  also have "\<dots> = real M / real (2 ^ (1075 - e))" by (simp only: of_nat_power of_nat_numeral)
  finally have "\<lfloor>double_value b\<rfloor> = int (M div 2 ^ (1075 - e))"
    by (simp only: floor_divide_of_nat_eq)
  then show ?thesis using duration_ms [OF assms] unfolding e_def M_def by simp
qed

lemma duration_ms_bounds:
  assumes "MU_SESSION_TIMEOUT_MIN_BITS \<le> b" "b \<le> MU_SESSION_TIMEOUT_MAX_BITS"
  shows "10000 \<le> unat (duration_bits_to_ms b)" "unat (duration_bits_to_ms b) \<le> 3600000"
proof -
  define e where "e = unat b div 2 ^ 52"
  define f where "f = unat b mod 2 ^ 52"
  have n: "unat b = e * 2 ^ 52 + f" unfolding e_def f_def by simp
  have f: "f < 2 ^ 52" unfolding f_def by simp
  have e: "1036 \<le> e" "e \<le> 1044" using timeout_exponent [OF assms] unfolding e_def .
  have r: "4666723172467343360 \<le> unat b" "unat b \<le> 4704985352480227328"
    using assms by (simp_all add: word_le_nat_alt)
  have d: "unat (duration_bits_to_ms b) = (2 ^ 52 + f) div 2 ^ (1075 - e)"
    using duration_ms [OF assms] unfolding e_def f_def .
  consider "e = 1036" | "e = 1037" | "e = 1038" | "e = 1039" | "e = 1040" | "e = 1041" | "e = 1042" | "e = 1043" | "e = 1044"
    using e by linarith
  then have "10000 \<le> unat (duration_bits_to_ms b) \<and> unat (duration_bits_to_ms b) < 3600001"
    unfolding d using n f r by cases (simp_all add: less_eq_div_iff_mult_less_eq div_less_iff_less_mult)
  then show "10000 \<le> unat (duration_bits_to_ms b)" "unat (duration_bits_to_ms b) \<le> 3600000" by simp_all
qed

section \<open>Fresh identifiers\<close>

lemma xor_eq_iff: "(a :: 'a::len word) XOR b = a XOR c \<longleftrightarrow> b = c"
  by (metis xor.assoc xor.left_neutral xor_self_eq)

lemma high_xor_nonzero: "k < 2 ^ 31 \<Longrightarrow> 2 ^ 31 \<le> unat h \<Longrightarrow> h XOR of_nat k \<noteq> 0" for h :: opcua_uint32_t
proof
  assume k: "k < 2 ^ 31" "2 ^ 31 \<le> unat h" and "h XOR of_nat k = 0"
  then have "h XOR of_nat k = h XOR h" by (simp only: xor_self_eq)
  then have "of_nat k = h" by (simp only: xor_eq_iff)
  moreover have "unat (of_nat k :: opcua_uint32_t) = k" using k(1) by (intro unat_of_nat32) simp
  ultimately have "k = unat h" by (simp only:)
  then show False using k by linarith
qed

lemma session_id_base_inj: "n \<le> 2 ^ 30 \<Longrightarrow> inj_on (\<lambda>k. base XOR (0x9E3779B9 * of_nat k :: opcua_uint32_t)) {0..n}"
  by (rule inj_onI) (auto simp: xor_eq_iff intro: id_multiples_inject)

lemma token_base_inj: "n \<le> 2 ^ 30 \<Longrightarrow> inj_on (\<lambda>k. base + (0x9E3779B9 * of_nat k :: opcua_uint32_t)) {0..n}"
  by (rule inj_onI) (auto intro: id_multiples_inject)

interpretation session_ids: id_candidates "session_id_candidate base" "2 ^ 30" for base
proof
  fix k :: nat
  assume "k \<le> 2 ^ 30"
  then show "session_id_candidate base k \<noteq> 0"
    using high_xor_nonzero [of k "0x85EBCA6B"] by (simp add: session_id_candidate_def Let_def)
next
  fix n :: nat
  assume "n \<le> 2 ^ 30"
  from session_id_base_inj [OF this, of base] show "n \<le> card (session_id_candidate base ` {0..n})"
    by (rule spread_but_one) (simp add: session_id_candidate_def Let_def)
qed

interpretation tokens: id_candidates "authentication_token_candidate base" "2 ^ 30" for base
proof
  fix k :: nat
  assume "k \<le> 2 ^ 30"
  then show "authentication_token_candidate base k \<noteq> 0"
    using high_xor_nonzero [of k "0xC2B2AE35"] by (simp add: authentication_token_candidate_def Let_def)
next
  fix n :: nat
  assume "n \<le> 2 ^ 30"
  from token_base_inj [OF this, of "base XOR 0xA5A5A5A5"]
  show "n \<le> card (authentication_token_candidate base ` {0..n})"
    by (rule spread_but_one) (simp add: authentication_token_candidate_def Let_def)
qed

text \<open>The live sessions and the identifiers they use.\<close>

abbreviation live :: "mu_session \<Rightarrow> bool" where
  "live s \<equiv> ss_state s \<noteq> MU_SESSION_STATE_CLOSED"

lemma find_index:
  "find P [0..<n] = Some i \<Longrightarrow> i < n \<and> P i"
  "find P [0..<n] = None \<longleftrightarrow> (\<forall>i < n. \<not> P i)"
  by (auto simp: find_Some_iff find_None_iff)

lemma live_ids_card:
  assumes "mu_session_find_free ss = Some i"
  shows "card (f ` {s \<in> set ss. live s}) < length ss"
proof -
  have i: "i < length ss" "\<not> live (ss ! i)"
    using find_index(1) [OF assms [unfolded mu_session_find_free_def]] by simp_all
  have "f ` {s \<in> set ss. live s} \<subseteq> (\<lambda>j. f (ss ! j)) ` ({0..<length ss} - {i})"
    using i by (force simp: in_set_conv_nth)
  then have "card (f ` {s \<in> set ss. live s}) \<le> card ({0..<length ss} - {i})"
    by (meson card_image_le card_mono finite_Diff finite_atLeastLessThan finite_imageI order_trans)
  then show ?thesis using i(1) by simp
qed

lemma active_iff:
  "session_id_active ss x \<longleftrightarrow> x \<in> session_id ` {s \<in> set ss. live s}"
  "authentication_token_active ss x \<longleftrightarrow> x \<in> auth_token ` {s \<in> set ss. live s}"
  by (auto simp: session_id_active_def authentication_token_active_def list_ex_iff)

lemma generate_session_id_fresh:
  assumes "mu_session_generate_session_id ss e = Inr sid" "length ss \<le> 2 ^ 30"
  shows "sid \<noteq> 0" "\<forall>s \<in> set ss. live s \<longrightarrow> session_id s \<noteq> sid"
  using assms(1) session_ids.found_fresh [of "session_id_active ss", OF _ assms(2)]
  by (auto simp: mu_session_generate_session_id_def active_iff split: option.splits sum.splits simp del: upt_Suc)

lemma generate_token_fresh:
  assumes "mu_session_generate_authentication_token ss e = Inr tok" "length ss \<le> 2 ^ 30"
  shows "tok \<noteq> 0" "\<forall>s \<in> set ss. live s \<longrightarrow> auth_token s \<noteq> tok"
  using assms(1) tokens.found_fresh [of "authentication_token_active ss", OF _ assms(2)]
  by (auto simp: mu_session_generate_authentication_token_def active_iff split: option.splits sum.splits simp del: upt_Suc)

lemma generate_ids_succeed:
  assumes "mu_session_find_free ss = Some i" "length ss \<le> 2 ^ 30" "generate_random 4 = Inr bs"
  shows "\<exists>sid. mu_session_generate_session_id ss (Some generate_random) = Inr sid"
    "\<exists>tok. mu_session_generate_authentication_token ss (Some generate_random) = Inr tok"
proof -
  have fin: "finite (f ` {s \<in> set ss. live s})" for f :: "mu_session \<Rightarrow> opcua_uint32_t" by simp
  show "\<exists>sid. mu_session_generate_session_id ss (Some generate_random) = Inr sid"
    using session_ids.finds_free [OF fin live_ids_card [OF assms(1)] assms(2), of session_id "random_base bs"] assms(3)
    by (auto simp: mu_session_generate_session_id_def active_iff simp del: upt_Suc)
  show "\<exists>tok. mu_session_generate_authentication_token ss (Some generate_random) = Inr tok"
    using tokens.finds_free [OF fin live_ids_card [OF assms(1)] assms(2), of auth_token "random_base bs"] assms(3)
    by (auto simp: mu_session_generate_authentication_token_def active_iff simp del: upt_Suc)
qed

section \<open>The table as a map from tokens\<close>

definition session_inv :: "mu_session list \<Rightarrow> bool" where
  "session_inv ss \<longleftrightarrow> (\<forall>i < length ss. live (ss ! i) \<longrightarrow>
     session_id (ss ! i) \<noteq> 0 \<and> auth_token (ss ! i) \<noteq> 0 \<and>
     10000 \<le> revised_session_timeout_ms (ss ! i) \<and> revised_session_timeout_ms (ss ! i) \<le> 3600000 \<and>
     (\<forall>j < length ss. j \<noteq> i \<and> live (ss ! j) \<longrightarrow>
        session_id (ss ! j) \<noteq> session_id (ss ! i) \<and> auth_token (ss ! j) \<noteq> auth_token (ss ! i)))"

definition session_map :: "mu_session list \<Rightarrow> opcua_uint32_t \<Rightarrow> mu_session option" where
  "session_map ss token = map_option ((!) ss) (mu_session_find_by_token ss token)"

lemma find_by_token_Some:
  "mu_session_find_by_token ss t = Some i \<Longrightarrow> i < length ss \<and> live (ss ! i) \<and> auth_token (ss ! i) = t"
  unfolding mu_session_find_by_token_def by (drule find_index(1)) simp

lemma session_map_Some:
  assumes "session_inv ss"
  shows "session_map ss t = Some s \<longleftrightarrow> (\<exists>i < length ss. ss ! i = s \<and> live s \<and> auth_token s = t)" (is "?L \<longleftrightarrow> ?R")
proof
  assume ?L
  then show ?R using find_by_token_Some by (fastforce simp: session_map_def)
next
  assume ?R
  then obtain i where i: "i < length ss" "ss ! i = s" "live s" "auth_token s = t" by blast
  obtain j where j: "mu_session_find_by_token ss t = Some j"
    using i find_index(2) [of _ "length ss"] unfolding mu_session_find_by_token_def by fastforce
  have "j = i"
    using find_by_token_Some [OF j] i assms unfolding session_inv_def by metis
  then show ?L using j i(2) by (simp add: session_map_def)
qed

lemma session_inv_update_same:
  assumes "session_inv ss" "i < length ss"
    and "live s' \<Longrightarrow> live (ss ! i) \<and> session_id s' = session_id (ss ! i) \<and> auth_token s' = auth_token (ss ! i) \<and>
      revised_session_timeout_ms s' = revised_session_timeout_ms (ss ! i)"
  shows "session_inv (ss[i := s'])"
  using assms unfolding session_inv_def by (auto simp: nth_list_update)

lemma session_inv_update_fresh:
  assumes "session_inv ss" "i < length ss" "session_id s' \<noteq> 0" "auth_token s' \<noteq> 0"
    and "10000 \<le> revised_session_timeout_ms s'" "revised_session_timeout_ms s' \<le> 3600000"
    and "\<forall>s \<in> set ss. live s \<longrightarrow> session_id s \<noteq> session_id s'" "\<forall>s \<in> set ss. live s \<longrightarrow> auth_token s \<noteq> auth_token s'"
  shows "session_inv (ss[i := s'])"
proof -
  have o: "session_id (ss ! j) \<noteq> session_id s' \<and> auth_token (ss ! j) \<noteq> auth_token s'" if "j < length ss" "live (ss ! j)" for j
    using assms(7,8) that by (metis nth_mem)
  then have o': "session_id s' \<noteq> session_id (ss ! j) \<and> auth_token s' \<noteq> auth_token (ss ! j)" if "j < length ss" "live (ss ! j)" for j
    using that by metis
  show ?thesis
    using assms(1-6) o o' unfolding session_inv_def by (auto simp: nth_list_update)
qed

lemma session_map_update:
  assumes "session_inv ss" "session_inv (ss[i := s'])" "i < length ss"
  shows "session_map (ss[i := s']) =
    (\<lambda>t. if live s' \<and> t = auth_token s' then Some s'
         else if live (ss ! i) \<and> t = auth_token (ss ! i) then None else session_map ss t)"
proof
  fix t
  have "session_map (ss[i := s']) t = Some s \<longleftrightarrow>
    (if live s' \<and> t = auth_token s' then s = s'
     else if live (ss ! i) \<and> t = auth_token (ss ! i) then False else session_map ss t = Some s)" for s
    unfolding session_map_Some [OF assms(1)] session_map_Some [OF assms(2)]
    using assms unfolding session_inv_def by (auto simp: nth_list_update)
  then show "session_map (ss[i := s']) t =
    (if live s' \<and> t = auth_token s' then Some s'
         else if live (ss ! i) \<and> t = auth_token (ss ! i) then None else session_map ss t)"
    by (metis (full_types) not_None_eq option.inject)
qed

section \<open>Histories of the table\<close>

lemma create_Inr:
  assumes "mu_session_create_with_identifiers s bits sid tok ch = Inr (revised, s')"
  shows "\<not> live s" "live s'" "session_id s' = sid" "auth_token s' = tok" "ss_secure_channel_id s' = ch"
    "revised = clamp_timeout_bits bits" "revised_session_timeout_ms s' = duration_bits_to_ms revised" "ss_state s' = MU_SESSION_STATE_CREATED"
  using assms by (auto simp: mu_session_create_with_identifiers_def Let_def split: if_splits)

lemma create_timeout:
  assumes "mu_session_create_with_identifiers s bits sid tok ch = Inr (revised, s')"
  shows "10000 \<le> revised_session_timeout_ms s'" "revised_session_timeout_ms s' \<le> 3600000"
  using duration_ms_bounds [of revised] clamp_timeout_range [of bits] create_Inr(6,7) [OF assms]
  by (simp_all add: word_le_nat_alt)

lemma activate_GOOD:
  assumes "mu_session_activate s tok enc = (MU_STATUS_GOOD, s')"
  shows "live s" "auth_token s = tok" "s' = s\<lparr>ss_state := MU_SESSION_STATE_ACTIVATED\<rparr>"
  using assms by (auto simp: mu_session_activate_def split: if_splits)

lemma close_GOOD:
  assumes "mu_session_close s tok = (MU_STATUS_GOOD, s')"
  shows "live s" "auth_token s = tok" "\<not> live s'"
  using assms by (auto simp: mu_session_close_def split: if_splits)

text \<open>
  What the server does to its table: create a session in the first free slot with fresh identifiers,
  activate it, close it by request or by timeout, and update the bookkeeping fields of a slot.
\<close>

inductive session_step :: "mu_session list \<Rightarrow> mu_session list \<Rightarrow> bool" where
  created: "mu_session_find_free ss = Some i \<Longrightarrow> mu_session_generate_session_id ss e = Inr sid \<Longrightarrow>
    mu_session_generate_authentication_token ss e' = Inr tok \<Longrightarrow>
    mu_session_create_with_identifiers (ss ! i) bits sid tok ch = Inr (revised, s') \<Longrightarrow> session_step ss (ss[i := s'])"
| activated: "i < length ss \<Longrightarrow> mu_session_activate (ss ! i) tok enc = (st, s') \<Longrightarrow> session_step ss (ss[i := s'])"
| closed: "i < length ss \<Longrightarrow> mu_session_close (ss ! i) tok = (st, s') \<Longrightarrow> session_step ss (ss[i := s'])"
| timed_out: "i < length ss \<Longrightarrow> session_step ss (ss[i := mu_session_close_timeout (ss ! i)])"
| touched: "i < length ss \<Longrightarrow> session_step ss (ss[i := (ss ! i)\<lparr>ss_last_activity_ms := now, server_nonce := n\<rparr>])"
| identified: "i < length ss \<Longrightarrow> session_step ss (ss[i := (ss ! i)\<lparr>user_identity_kind := k, user_identity_len := l,
     user_identity := u, session_roles := r, session_role_count := c\<rparr>])"

inductive session_reachable :: "mu_session list \<Rightarrow> bool" where
  start: "length ss \<le> 2 ^ 30 \<Longrightarrow> session_reachable (map mu_session_init ss)"
| step: "session_reachable ss \<Longrightarrow> session_step ss ss' \<Longrightarrow> session_reachable ss'"

lemma session_step_length: "session_step ss ss' \<Longrightarrow> length ss' = length ss"
  by (induction rule: session_step.induct) simp_all

lemma find_free_Some: "mu_session_find_free ss = Some i \<Longrightarrow> i < length ss \<and> \<not> live (ss ! i)"
  unfolding mu_session_find_free_def by (drule find_index(1)) simp

lemma session_inv_created:
  assumes "session_inv ss" "length ss \<le> 2 ^ 30" "mu_session_find_free ss = Some i"
    and "mu_session_generate_session_id ss e = Inr sid" "mu_session_generate_authentication_token ss e' = Inr tok"
    and "mu_session_create_with_identifiers (ss ! i) bits sid tok ch = Inr (revised, s')"
  shows "session_inv (ss[i := s'])"
  using session_inv_update_fresh [OF assms(1), of i s'] find_free_Some [OF assms(3)] create_Inr [OF assms(6)]
    create_timeout [OF assms(6)] generate_session_id_fresh [OF assms(4,2)] generate_token_fresh [OF assms(5,2)] by simp

lemma session_inv_step:
  "session_step ss ss' \<Longrightarrow> session_inv ss \<Longrightarrow> length ss \<le> 2 ^ 30 \<Longrightarrow> session_inv ss'"
proof (induction rule: session_step.induct)
  case (created ss i e sid e' tok bits ch revised s')
  then show ?case by (intro session_inv_created)
next
  case (activated i ss tok enc st s')
  then show ?case
    by (intro session_inv_update_same) (auto simp: mu_session_activate_def split: if_splits)
next
  case (closed i ss tok st s')
  then show ?case
    by (intro session_inv_update_same) (auto simp: mu_session_close_def split: if_splits)
next
  case (timed_out i ss)
  then show ?case by (intro session_inv_update_same) (auto simp: mu_session_close_timeout_def split: if_splits)
qed (intro session_inv_update_same; simp)+

lemma session_inv_start: "session_inv (map mu_session_init ss)"
  by (simp add: session_inv_def mu_session_init_def)

lemma session_reachable_inv: "session_reachable ss \<Longrightarrow> session_inv ss \<and> length ss \<le> 2 ^ 30"
  by (induction rule: session_reachable.induct) (auto simp: session_inv_start session_step_length intro: session_inv_step)

section \<open>Properties\<close>

text \<open>
  C22.  In every table reachable from an initialised one by creating, activating, closing, timing out and
  updating sessions, any two live sessions have different nonzero SessionIds and different nonzero
  authentication tokens, and every live session has a timeout between 10 seconds and one hour.
\<close>

theorem session_identifiers_unique:
  assumes "session_reachable ss" "i < length ss" "live (ss ! i)"
  shows "session_id (ss ! i) \<noteq> 0 \<and> auth_token (ss ! i) \<noteq> 0 \<and>
    10000 \<le> revised_session_timeout_ms (ss ! i) \<and> revised_session_timeout_ms (ss ! i) \<le> 3600000 \<and>
    (\<forall>j < length ss. j \<noteq> i \<and> live (ss ! j) \<longrightarrow>
       session_id (ss ! j) \<noteq> session_id (ss ! i) \<and> auth_token (ss ! j) \<noteq> auth_token (ss ! i))"
  using session_reachable_inv [OF assms(1)] assms(2,3) unfolding session_inv_def by blast

definition sample_session :: mu_session where
  "sample_session = mu_session_init \<lparr>ss_state = MU_SESSION_STATE_CLOSED, session_id = 0, auth_token = 0,
     revised_session_timeout_ms = 0, ss_last_activity_ms = 0, server_nonce = [], ss_secure_channel_id = 0,
     user_identity_kind = 0, user_identity_len = 0, user_identity = [], session_roles = [], session_role_count = 0\<rparr>"

lemma sample_session_state: "ss_state sample_session = MU_SESSION_STATE_CLOSED"
  by (simp add: sample_session_def mu_session_init_def)

lemma sample_session_ids:
  "mu_session_generate_session_id [sample_session] (Some sample_random) = Inr 0x04030201"
  "mu_session_generate_authentication_token [sample_session] (Some sample_random) = Inr 0xA1A6A7A4"
  by (simp_all add: mu_session_generate_session_id_def mu_session_generate_authentication_token_def
      sample_random_4 session_id_candidate_def authentication_token_candidate_def random_base_def
      session_id_active_def authentication_token_active_def sample_session_state Let_def upt_conv_Cons)

lemma sample_session_free: "mu_session_find_free [sample_session] = Some 0"
  by (simp add: mu_session_find_free_def sample_session_state)

lemma sample_session_created:
  "\<exists>revised s'. mu_session_create_with_identifiers sample_session 0 sid tok ch = Inr (revised, s') \<and> live s' \<and> auth_token s' = tok"
  by (simp add: mu_session_create_with_identifiers_def sample_session_state Let_def)

theorem session_identifiers_unique_witness:
  "\<exists>s'. session_reachable [s'] \<and> live s' \<and> session_id s' \<noteq> 0"
proof -
  obtain revised s' where c: "mu_session_create_with_identifiers ([sample_session] ! 0) 0 0x04030201 0xA1A6A7A4 9 = Inr (revised, s')"
    and l: "live s'" using sample_session_created [of "0x04030201" "0xA1A6A7A4" 9] by auto
  have i: "mu_session_init sample_session = sample_session" by (simp add: sample_session_def mu_session_init_def)
  have "session_reachable [sample_session]" using session_reachable.start [of "[sample_session]"] by (simp add: i)
  then have r: "session_reachable ([sample_session][0 := s'])"
    by (rule session_reachable.step) (rule session_step.created [OF sample_session_free sample_session_ids c])
  from session_identifiers_unique [OF r, of 0] l r show ?thesis by (intro exI [of _ s']) simp
qed

text \<open>
  C23.  A free slot can always be used.  When the table has one and the entropy source delivers, both
  identifiers are found within the code's bound of one candidate more than there are slots, the
  session is created in that slot, and nothing but that slot changes.
\<close>

theorem session_creation_succeeds:
  assumes "mu_session_find_free ss = Some i" "length ss \<le> 2 ^ 30" "r1 4 = Inr b1" "r2 4 = Inr b2"
  shows "\<exists>sid tok s'. mu_session_generate_session_id ss (Some r1) = Inr sid \<and>
    mu_session_generate_authentication_token ss (Some r2) = Inr tok \<and>
    mu_session_create_with_identifiers (ss ! i) bits sid tok ch = Inr (clamp_timeout_bits bits, s') \<and>
    sid \<noteq> 0 \<and> tok \<noteq> 0 \<and> \<not> session_id_active ss sid \<and> \<not> authentication_token_active ss tok \<and>
    session_map (ss[i := s']) tok = Some s' \<and> session_id s' = sid \<and> ss_secure_channel_id s' = ch \<and>
    ss_state s' = MU_SESSION_STATE_CREATED"
proof -
  obtain sid where sid: "mu_session_generate_session_id ss (Some r1) = Inr sid"
    using generate_ids_succeed(1) [of ss i r1 b1] assms by blast
  obtain tok where tok: "mu_session_generate_authentication_token ss (Some r2) = Inr tok"
    using generate_ids_succeed(2) [of ss i r2 b2] assms by blast
  have i: "i < length ss" "\<not> live (ss ! i)" using find_free_Some [OF assms(1)] by simp_all
  obtain s' where s': "mu_session_create_with_identifiers (ss ! i) bits sid tok ch = Inr (clamp_timeout_bits bits, s')"
    using i(2) by (simp add: mu_session_create_with_identifiers_def Let_def)
  note c = create_Inr [OF s'] and f = generate_session_id_fresh [OF sid assms(2)] generate_token_fresh [OF tok assms(2)]
  have "find (\<lambda>j. live (ss[i := s'] ! j) \<and> auth_token (ss[i := s'] ! j) = tok) [0..<length ss] = Some i"
    unfolding find_Some_iff using i c f(4) by (intro exI [of _ i]) (auto simp: nth_list_update)
  then have "session_map (ss[i := s']) tok = Some s'"
    using i(1) by (simp add: session_map_def mu_session_find_by_token_def)
  then show ?thesis using sid tok s' c f by (auto simp: active_iff)
qed

theorem session_creation_succeeds_witness:
  "\<exists>sid. mu_session_generate_session_id [sample_session] (Some sample_random) = Inr sid \<and> sid \<noteq> 0"
  using session_creation_succeeds [of "[sample_session]" 0 sample_random "[1, 2, 3, 4]" sample_random "[1, 2, 3, 4]"]
    sample_session_free sample_random_4 by auto

text \<open>
  C24.  The table of sessions implements a map from authentication tokens to sessions.  In a well-formed
  table, creating a session adds a binding for a token that had none, activating a session rebinds its
  token to the activated session, and closing a session, by request or by timeout, removes exactly its
  binding; looking a token up in the table is looking it up in the map.
\<close>

theorem session_table_refines_map:
  assumes "session_inv ss" "length ss \<le> 2 ^ 30"
  shows "(mu_session_find_free ss = Some i \<and> mu_session_generate_session_id ss e = Inr sid \<and>
      mu_session_generate_authentication_token ss e' = Inr tok \<and>
      mu_session_create_with_identifiers (ss ! i) bits sid tok ch = Inr (revised, s') \<longrightarrow>
      session_inv (ss[i := s']) \<and> session_map ss tok = None \<and> session_map (ss[i := s']) = (session_map ss)(tok \<mapsto> s')) \<and>
    (mu_session_find_by_token ss tok = Some i \<and> mu_session_activate (ss ! i) tok enc = (MU_STATUS_GOOD, s') \<longrightarrow>
      session_inv (ss[i := s']) \<and> session_map (ss[i := s']) = (session_map ss)(tok \<mapsto> s')) \<and>
    (mu_session_find_by_token ss tok = Some i \<and> mu_session_close (ss ! i) tok = (MU_STATUS_GOOD, s') \<longrightarrow>
      session_inv (ss[i := s']) \<and> session_map (ss[i := s']) = (session_map ss)(tok := None)) \<and>
    (mu_session_find_by_token ss tok = Some i \<longrightarrow>
      session_inv (ss[i := mu_session_close_timeout (ss ! i)]) \<and>
      session_map (ss[i := mu_session_close_timeout (ss ! i)]) = (session_map ss)(tok := None))"
    (is "(?C1 \<longrightarrow> ?D1) \<and> (?C2 \<longrightarrow> ?D2) \<and> (?C3 \<longrightarrow> ?D3) \<and> (?C4 \<longrightarrow> ?D4)")
proof (intro conjI)
  note inv = session_inv_step [OF _ assms]
  show "?C1 \<longrightarrow> ?D1"
  proof
    assume c: ?C1
    have i: "i < length ss" "\<not> live (ss ! i)" using c find_free_Some by auto
    have inv': "session_inv (ss[i := s'])" using c by (intro inv) (blast intro: session_step.created)
    have s': "live s'" "auth_token s' = tok" using c create_Inr by auto
    have "session_map ss tok = None"
      using c generate_token_fresh(2) [of ss e' tok] assms(2) session_map_Some [OF assms(1), of tok]
      by (metis not_None_eq nth_mem)
    then show ?D1 using inv' s' session_map_update [OF assms(1) inv' i(1)] i(2) by auto
  qed
  show "?C2 \<longrightarrow> ?D2"
  proof
    assume c: ?C2
    have i: "i < length ss" "live (ss ! i)" "auth_token (ss ! i) = tok" using c find_by_token_Some by auto
    have inv': "session_inv (ss[i := s'])" using c i(1) by (intro inv) (blast intro: session_step.activated)
    show ?D2 using inv' session_map_update [OF assms(1) inv' i(1)] i activate_GOOD [of "ss ! i" tok enc s'] c by auto
  qed
  show "?C3 \<longrightarrow> ?D3"
  proof
    assume c: ?C3
    have i: "i < length ss" "live (ss ! i)" "auth_token (ss ! i) = tok" using c find_by_token_Some by auto
    have inv': "session_inv (ss[i := s'])" using c i(1) by (intro inv) (blast intro: session_step.closed)
    show ?D3 using inv' session_map_update [OF assms(1) inv' i(1)] i close_GOOD [of "ss ! i" tok s'] c by auto
  qed
  show "?C4 \<longrightarrow> ?D4"
  proof
    assume c: ?C4
    have i: "i < length ss" "live (ss ! i)" "auth_token (ss ! i) = tok" using c find_by_token_Some by auto
    have inv': "session_inv (ss[i := mu_session_close_timeout (ss ! i)])"
      using i(1) by (intro inv) (blast intro: session_step.timed_out)
    show ?D4 using inv' session_map_update [OF assms(1) inv' i(1)] i by (auto simp: mu_session_close_timeout_def)
  qed
qed

theorem session_table_refines_map_witness:
  "session_map [sample_session] 0xA1A6A7A4 = None \<and> session_inv [sample_session] \<and>
   (\<exists>s'. session_map [s'] = (session_map [sample_session])(0xA1A6A7A4 \<mapsto> s'))"
proof -
  obtain revised s' where c: "mu_session_create_with_identifiers ([sample_session] ! 0) 0 0x04030201 0xA1A6A7A4 9 = Inr (revised, s')"
    using sample_session_created [of "0x04030201" "0xA1A6A7A4" 9] by auto
  have inv: "session_inv [sample_session]"
    by (simp add: session_inv_def sample_session_state)
  show ?thesis
    using session_table_refines_map [of "[sample_session]" 0 "Some sample_random" "0x04030201" "Some sample_random" "0xA1A6A7A4" 0 9 revised s']
      inv c sample_session_free sample_session_ids by auto
qed

text \<open>
  C25.  The session timeout.  Whatever 64 bits the client sends as the requested Duration (negative,
  infinite or not a number included), the revised Duration returned is a double between 10000.0 and
  3600000.0, the milliseconds kept by the server are its integer part, computed without floating-point
  arithmetic, and a request that is already in the range is granted unchanged.
\<close>

theorem session_timeout_revised:
  "MU_SESSION_TIMEOUT_MIN_BITS \<le> clamp_timeout_bits b \<and> clamp_timeout_bits b \<le> MU_SESSION_TIMEOUT_MAX_BITS \<and>
   int (unat (duration_bits_to_ms (clamp_timeout_bits b))) = \<lfloor>double_value (clamp_timeout_bits b)\<rfloor> \<and>
   10000 \<le> unat (duration_bits_to_ms (clamp_timeout_bits b)) \<and> unat (duration_bits_to_ms (clamp_timeout_bits b)) \<le> 3600000 \<and>
   (clamp_timeout_bits b = b \<longleftrightarrow> b \<in> {MU_SESSION_TIMEOUT_MIN_BITS..MU_SESSION_TIMEOUT_MAX_BITS})"
proof -
  note r = clamp_timeout_range [of b]
  have "clamp_timeout_bits b = b \<longleftrightarrow> b \<in> {MU_SESSION_TIMEOUT_MIN_BITS..MU_SESSION_TIMEOUT_MAX_BITS}"
    using clamp_timeout_same [of b] r by (metis atLeastAtMost_iff)
  then show ?thesis using r timeout_floor [of "clamp_timeout_bits b"] duration_ms_bounds [of "clamp_timeout_bits b"] by blast
qed

end
