(* ===== verification/Mu_Poll.thy ===== *)
theory Mu_Poll
  imports Mu_Session
begin

unbundle bit_operations_syntax

text \<open>
  The receive side of the poll loop: \<^verbatim>\<open>src/core/server/poll.c\<close>.  A connection slot keeps a window of
  received bytes; messages are cut out of it by their size field, the window slides through the
  buffer and is moved to the front only when the buffer is nearly full.

  The handler of one message is a parameter: it maps the rest of the server's state and the bytes of
  the message to the new state, the bytes it leaves in place of the message (chunks are decrypted in
  place) and whether the connection is still open.  The clock and the TCP adapter are the values
  they return.  The lemmas show that cutting messages out of the sliding window does not depend on how
  TCP segments the stream, that the loop ends, and that the window never runs full.
\<close>

section \<open>Closing, idle timeout\<close>

abbreviation (input) MU_CONNECT_TIMEOUT_MS :: opcua_uint64_t where "MU_CONNECT_TIMEOUT_MS \<equiv> 30000"

definition poll_close_connection :: "mu_connection \<Rightarrow> mu_connection" where
  "poll_close_connection conn =
    (if client_handle conn \<noteq> None then conn\<lparr>client_handle := None, rx_len := 0, rx_read_pos := 0\<rparr> else conn)"

definition poll_check_idle_timeout :: "opcua_uint64_t \<Rightarrow> mu_connection \<Rightarrow> bool \<times> mu_connection" where
  "poll_check_idle_timeout now conn =
    (let limit = (if is_open (secure_channel conn) then ucast (revised_lifetime (secure_channel conn))
                  else MU_CONNECT_TIMEOUT_MS)
     in if now > last_activity_ms conn \<and> now - last_activity_ms conn > limit then (True, poll_close_connection conn)
        else (False, conn))"

section \<open>Cutting messages out of the window\<close>

definition poll_msg_size :: "bytes \<Rightarrow> nat \<Rightarrow> nat" where
  "poll_msg_size buffer offset =
    (let b = drop offset buffer
     in unat (b ! 4) OR push_bit 8 (unat (b ! 5)) OR push_bit 16 (unat (b ! 6)) OR push_bit 24 (unat (b ! 7)))"

type_synonym 's msg_handler = "'s \<Rightarrow> bytes \<Rightarrow> 's \<times> bytes \<times> bool"

datatype loop_end =
    Violation          \<comment> \<open>impossible size field\<close>
  | Dropped            \<comment> \<open>the handler closed the connection\<close>
  | Consumed nat       \<comment> \<open>no complete message left; number of bytes consumed\<close>

function poll_loop ::
  "'s msg_handler \<Rightarrow> nat \<Rightarrow> nat \<Rightarrow> 's \<Rightarrow> bytes \<Rightarrow> nat \<Rightarrow> 's \<times> bytes \<times> loop_end" where
  "poll_loop process_message read_pos len s buffer consumed =
    (if len - consumed \<ge> 8 then
       let msg_size = poll_msg_size buffer (read_pos + consumed) in
       if msg_size < 8 \<or> msg_size > length buffer then (s, buffer, Violation)
       else if msg_size > len - consumed then (s, buffer, Consumed consumed)
       else
         (case process_message s (slice (read_pos + consumed) msg_size buffer) of
            (s', msg', alive) \<Rightarrow>
              let buffer' = put_at (read_pos + consumed) (take msg_size msg') buffer in
              if \<not> alive then (s', buffer', Dropped)
              else poll_loop process_message read_pos len s' buffer' (consumed + msg_size))
     else (s, buffer, Consumed consumed))"
  by pat_completeness auto
termination
  by (relation "measure (\<lambda>(process_message, read_pos, len, s, buffer, consumed). len - consumed)") auto

declare poll_loop.simps [simp del]

definition poll_process_buffer :: "'s msg_handler \<Rightarrow> 's \<Rightarrow> mu_connection \<Rightarrow> 's \<times> mu_connection" where
  "poll_process_buffer process_message s conn =
    (case (if client_handle conn = None then (s, rx_buffer conn, Consumed 0)
           else poll_loop process_message (rx_read_pos conn) (rx_len conn) s (rx_buffer conn) 0) of
       (s', buffer, Violation) \<Rightarrow> (s', poll_close_connection (conn\<lparr>rx_buffer := buffer\<rparr>))
     | (s', buffer, Dropped) \<Rightarrow> (s', conn\<lparr>rx_buffer := buffer, client_handle := None, rx_len := 0, rx_read_pos := 0\<rparr>)
     | (s', buffer, Consumed consumed) \<Rightarrow>
            let len = rx_len conn - consumed; read_pos = rx_read_pos conn + consumed
            in if len = 0 then (s', conn\<lparr>rx_buffer := buffer, rx_len := len, rx_read_pos := 0\<rparr>)
               else if read_pos + len + 64 > length buffer then
                 (s', conn\<lparr>rx_buffer := put_at 0 (slice read_pos len buffer) buffer, rx_len := len, rx_read_pos := 0\<rparr>)
               else (s', conn\<lparr>rx_buffer := buffer, rx_len := len, rx_read_pos := read_pos\<rparr>))"

text \<open>
  One read from the TCP adapter: its status, or the bytes it stored behind the window (at most as many
  as there is room for).
\<close>

definition poll_read_data :: "(opcua_statuscode_t + bytes) \<Rightarrow> opcua_uint64_t \<Rightarrow> mu_connection \<Rightarrow> mu_connection" where
  "poll_read_data tcp_read tick conn =
    (let write_pos = rx_read_pos conn + rx_len conn in
     if write_pos \<ge> length (rx_buffer conn) then conn
     else (case tcp_read of
             Inl _ \<Rightarrow> poll_close_connection conn
           | Inr data \<Rightarrow>
             if length data > 0 then
               conn\<lparr>rx_buffer := put_at write_pos data (rx_buffer conn), rx_len := rx_len conn + length data,
                    last_activity_ms := tick\<rparr>
             else conn))"

definition poll_conn_read_and_process ::
  "'s msg_handler \<Rightarrow> (opcua_statuscode_t + bytes) \<Rightarrow> opcua_uint64_t \<Rightarrow> 's \<Rightarrow> mu_connection \<Rightarrow> 's \<times> mu_connection" where
  "poll_conn_read_and_process process_message tcp_read tick s conn =
    poll_process_buffer process_message s (poll_read_data tcp_read tick conn)"

section \<open>Accepting connections\<close>

text \<open>
  The handle is \<^const>\<open>None\<close> when the adapter has no new connection.  The boolean says that a connection
  was accepted or turned away; a handle that is turned away is returned to be answered and closed.
\<close>

definition poll_try_accept_multi ::
  "nat option \<Rightarrow> opcua_uint64_t \<Rightarrow> mu_connection list \<Rightarrow> bool \<times> mu_connection list \<times> nat option" where
  "poll_try_accept_multi new_handle tick conns =
    (case new_handle of
       None \<Rightarrow> (False, conns, None)
     | Some h \<Rightarrow>
       (case find (\<lambda>i. client_handle (conns ! i) = None) [0..<length conns] of
          Some free_slot \<Rightarrow>
            (True, conns[free_slot := (conns ! free_slot)\<lparr>client_handle := Some h, rx_len := 0, rx_read_pos := 0,
               last_activity_ms := tick, tcp_conn := mu_tcp_connection_init,
               secure_channel := mu_secure_channel_init (secure_channel (conns ! free_slot))\<rparr>], None)
        | None \<Rightarrow> (True, conns, Some h)))"

section \<open>The stream a connection receives\<close>

text \<open>
  The reference semantics: the bytes received so far as one list, from which messages are cut at the
  front.  The second component is what is left, or \<^const>\<open>None\<close> when the connection is closed.
\<close>

function stream_run :: "'s msg_handler \<Rightarrow> nat \<Rightarrow> 's \<Rightarrow> bytes \<Rightarrow> 's \<times> bytes option" where
  "stream_run h n s bs =
    (if length bs \<ge> 8 then
       let m = poll_msg_size bs 0 in
       if m < 8 \<or> m > n then (s, None)
       else if m > length bs then (s, Some bs)
       else (case h s (take m bs) of (s', msg', alive) \<Rightarrow>
               if alive then stream_run h n s' (drop m bs) else (s', None))
     else (s, Some bs))"
  by pat_completeness auto
termination
  by (relation "measure (\<lambda>(h, n, s, bs). length bs)") auto

declare stream_run.simps [simp del]

lemma poll_msg_size_drop: "poll_msg_size b p = poll_msg_size (drop p b) 0"
  by (simp add: poll_msg_size_def)

lemma poll_msg_size_cong:
  assumes "8 \<le> length xs" "take 8 xs = take 8 ys"
  shows "poll_msg_size xs 0 = poll_msg_size ys 0"
proof -
  have "xs ! i = ys ! i" if "i < 8" for i
    using assms that by (metis nth_take)
  then show ?thesis by (simp add: poll_msg_size_def)
qed

lemma stream_run_append:
  "stream_run h n s (xs @ ys) =
    (case stream_run h n s xs of (s', Some r) \<Rightarrow> stream_run h n s' (r @ ys) | (s', None) \<Rightarrow> (s', None))"
proof (induction h n s xs rule: stream_run.induct)
  case (1 h n s xs)
  show ?case
  proof (cases "8 \<le> length xs \<and> 8 \<le> poll_msg_size xs 0 \<and> poll_msg_size xs 0 \<le> n \<and> poll_msg_size xs 0 \<le> length xs")
    case True
    define m where "m = poll_msg_size xs 0"
    have m: "poll_msg_size (xs @ ys) 0 = m" unfolding m_def using True by (intro poll_msg_size_cong) simp_all
    obtain s' msg' alive where h: "h s (take m xs) = (s', msg', alive)" by (cases "h s (take m xs)") auto
    have ih: "stream_run h n s' (drop m xs @ ys) =
      (case stream_run h n s' (drop m xs) of (s', Some r) \<Rightarrow> stream_run h n s' (r @ ys) | (s', None) \<Rightarrow> (s', None))"
      if alive
      using 1 [OF _ m_def _ _ h [symmetric] refl] True that unfolding m_def by simp
    have x: "stream_run h n s xs = (if alive then stream_run h n s' (drop m xs) else (s', None))"
      using True h by (subst stream_run.simps) (simp add: m_def [symmetric] Let_def)
    have "stream_run h n s (xs @ ys) = (if alive then stream_run h n s' (drop m xs @ ys) else (s', None))"
      using True h m by (subst stream_run.simps) (simp add: m_def [symmetric] Let_def)
    then show ?thesis using x ih by simp
  next
    case False
    then consider "length xs < 8" | "8 \<le> length xs" "poll_msg_size xs 0 < 8 \<or> poll_msg_size xs 0 > n"
      | "8 \<le> length xs" "\<not> (poll_msg_size xs 0 < 8 \<or> poll_msg_size xs 0 > n)" "poll_msg_size xs 0 > length xs"
      by linarith
    then show ?thesis
    proof cases
      case 2
      then have "poll_msg_size (xs @ ys) 0 = poll_msg_size xs 0" by (intro poll_msg_size_cong) simp_all
      then have "stream_run h n s (xs @ ys) = (s, None)" "stream_run h n s xs = (s, None)"
        using 2 by (subst stream_run.simps; simp add: Let_def)+
      then show ?thesis by simp
    next
      case 3
      then have "stream_run h n s xs = (s, Some xs)" by (subst stream_run.simps) (simp add: Let_def)
      then show ?thesis by simp
    qed (subst (2) stream_run.simps, simp)
  qed
qed

section \<open>The window follows the stream\<close>

definition window :: "mu_connection \<Rightarrow> bytes" where
  "window conn = slice (rx_read_pos conn) (rx_len conn) (rx_buffer conn)"

definition window_ok :: "mu_connection \<Rightarrow> bool" where
  "window_ok conn \<longleftrightarrow> rx_read_pos conn + rx_len conn < length (rx_buffer conn)"

lemma slice_drop: "m \<le> n \<Longrightarrow> drop m (slice p n b) = slice (p + m) (n - m) b"
  by (simp add: slice_def drop_take add.commute)

lemma slice_put_behind: "p + length src \<le> q \<Longrightarrow> q \<le> length b \<Longrightarrow> slice q n (put_at p src b) = slice q n b"
  by (simp add: slice_def)

lemma poll_loop_stream:
  assumes "p + len \<le> length b" "c \<le> len" "poll_loop h p len s b c = (s', b', e)"
  shows "length b' = length b \<and>
    (case e of
       Consumed c' \<Rightarrow> c \<le> c' \<and> c' \<le> len \<and> (len - c' < 8 \<or> len - c' < length b) \<and>
         slice (p + c') (len - c') b' = slice (p + c') (len - c') b \<and>
         stream_run h (length b) s (slice (p + c) (len - c) b) = (s', Some (slice (p + c') (len - c') b))
     | _ \<Rightarrow> stream_run h (length b) s (slice (p + c) (len - c) b) = (s', None))"
  using assms
proof (induction h p len s b c arbitrary: s' b' e rule: poll_loop.induct)
  case (1 h p len s b c)
  define w where "w = slice (p + c) (len - c) b"
  define m where "m = poll_msg_size b (p + c)"
  have lw: "length w = len - c" using "1.prems" by (simp add: w_def)
  show ?case
  proof (cases "8 \<le> len - c")
    case False
    have "stream_run h (length b) s w = (s, Some w)" using False lw by (subst stream_run.simps) simp
    moreover have "poll_loop h p len s b c = (s, b, Consumed c)" using False by (subst poll_loop.simps) simp
    ultimately show ?thesis using "1.prems" False unfolding w_def by auto
  next
    case big: True
    have m: "poll_msg_size w 0 = m"
    proof -
      have "take 8 w = take 8 (drop (p + c) b)" using big by (simp add: w_def slice_def)
      then show ?thesis unfolding m_def using lw big by (subst poll_msg_size_drop) (intro poll_msg_size_cong, simp_all)
    qed
    show ?thesis
    proof (cases "m < 8 \<or> m > length b \<or> m > len - c")
      case True
      have "stream_run h (length b) s w = (if m < 8 \<or> m > length b then (s, None) else (s, Some w))"
        using True big lw m by (subst stream_run.simps) (auto simp: Let_def)
      moreover have "poll_loop h p len s b c = (if m < 8 \<or> m > length b then (s, b, Violation) else (s, b, Consumed c))"
        using True big by (subst poll_loop.simps) (auto simp: Let_def m_def)
      ultimately show ?thesis using "1.prems" True unfolding w_def by (auto split: if_splits)
    next
      case False
      obtain s1 msg' alive where h: "h s (slice (p + c) m b) = (s1, msg', alive)" by (cases "h s (slice (p + c) m b)") auto
      define b1 where "b1 = put_at (p + c) (take m msg') b"
      have pos: "p + c + m \<le> length b" using False "1.prems"(1,2) by linarith
      have lb: "length b1 = length b" using pos by (simp add: b1_def)
      have tw: "take m w = slice (p + c) m b" using False by (simp add: w_def slice_def)
      have dw: "drop m w = slice (p + (c + m)) (len - (c + m)) b"
        using False by (simp add: w_def slice_drop add.assoc)
      have keep: "slice q n b1 = slice q n b" if "p + c + m \<le> q" "q \<le> length b" for q n
        unfolding b1_def using that by (intro slice_put_behind) auto
      have step: "stream_run h (length b) s w = (if alive then stream_run h (length b) s1 (drop m w) else (s1, None))"
        using h False big lw m tw by (subst stream_run.simps) (simp add: Let_def)
      have loop: "poll_loop h p len s b c = (if alive then poll_loop h p len s1 b1 (c + m) else (s1, b1, Dropped))"
        using h False big by (subst poll_loop.simps) (simp add: m_def [symmetric] b1_def Let_def)
      show ?thesis
      proof (cases alive)
        case True
        have cm: "c + m \<le> len" using False "1.prems"(2) by linarith
        have lp: "poll_loop h p len s1 b1 (c + m) = (s', b', e)" using loop "1.prems"(3) True by simp
        note ih = "1.IH" [OF big m_def _ _ h [symmetric] refl b1_def, simplified True, OF _ _ _ _ _ lp]
        have d1: "slice (p + (c + m)) (len - (c + m)) b1 = slice (p + (c + m)) (len - (c + m)) b"
          using False "1.prems"(1,2) by (intro keep) linarith+
        have "length b' = length b1 \<and>
          (case e of
             Consumed c' \<Rightarrow> c + m \<le> c' \<and> c' \<le> len \<and> (len - c' < 8 \<or> len - c' < length b1) \<and>
               slice (p + c') (len - c') b' = slice (p + c') (len - c') b1 \<and>
               stream_run h (length b1) s1 (slice (p + (c + m)) (len - (c + m)) b1) = (s', Some (slice (p + c') (len - c') b1))
           | _ \<Rightarrow> stream_run h (length b1) s1 (slice (p + (c + m)) (len - (c + m)) b1) = (s', None))"
          using ih cm False "1.prems"(1,2) lb by simp
        then show ?thesis
          using step True dw d1 lb keep "1.prems"(1,2) False
          by (auto simp: w_def [symmetric] split: loop_end.splits)
      next
        case False
        then show ?thesis using step loop "1.prems"(3) lb by (auto simp: w_def)
      qed
    qed
  qed
qed


lemma process_buffer_stream:
  assumes "client_handle conn \<noteq> None" "rx_read_pos conn + rx_len conn \<le> length (rx_buffer conn)"
    and "8 \<le> length (rx_buffer conn)" "poll_process_buffer h s conn = (s', conn')"
  shows "length (rx_buffer conn') = length (rx_buffer conn)" "window_ok conn'"
    "stream_run h (length (rx_buffer conn)) s (window conn) =
      (s', if client_handle conn' = None then None else Some (window conn'))"
proof -
  obtain s1 b e where l: "poll_loop h (rx_read_pos conn) (rx_len conn) s (rx_buffer conn) 0 = (s1, b, e)"
    by (cases "poll_loop h (rx_read_pos conn) (rx_len conn) s (rx_buffer conn) 0") auto
  note ps = poll_loop_stream [OF assms(2) _ l, simplified]
  have w: "slice (rx_read_pos conn) (rx_len conn) (rx_buffer conn) = window conn" by (simp add: window_def)
  have "length (rx_buffer conn') = length (rx_buffer conn) \<and> window_ok conn' \<and>
    stream_run h (length (rx_buffer conn)) s (window conn) =
      (s', if client_handle conn' = None then None else Some (window conn'))"
  proof (cases e)
    case (Consumed c)
    define n where "n = rx_len conn - c"
    define q where "q = rx_read_pos conn + c"
    have f: "length b = length (rx_buffer conn)" "c \<le> rx_len conn" "n < 8 \<or> n < length b"
      "slice q n b = slice q n (rx_buffer conn)" "s1 = s'"
      "stream_run h (length (rx_buffer conn)) s (window conn) = (s', Some (slice q n b))"
      using ps assms(1,4) l unfolding Consumed n_def q_def
      by (auto simp: poll_process_buffer_def window_def Let_def split: if_splits)
    have qn: "q + n \<le> length b" using assms(2) f(1,2) unfolding q_def n_def by linarith
    have c': "conn' = (if n = 0 then conn\<lparr>rx_buffer := b, rx_len := n, rx_read_pos := 0\<rparr>
       else if q + n + 64 > length b then conn\<lparr>rx_buffer := put_at 0 (slice q n b) b, rx_len := n, rx_read_pos := 0\<rparr>
       else conn\<lparr>rx_buffer := b, rx_len := n, rx_read_pos := q\<rparr>)"
      using assms(1,4) l unfolding Consumed n_def q_def by (auto simp: poll_process_buffer_def Let_def)
    have "length (rx_buffer conn') = length b" using c' qn by (simp add: put_at_0)
    moreover have "window_ok conn'" using c' assms(3) f(1,3) qn by (auto simp: window_ok_def put_at_0)
    moreover have "window conn' = slice q n b" using c' qn by (auto simp: window_def put_at_0 slice_def [of q 0])
    moreover have "client_handle conn' \<noteq> None" using c' assms(1) by simp
    ultimately show ?thesis using f by auto
  qed (use ps assms(1,3,4) l w in \<open>auto simp: poll_process_buffer_def poll_close_connection_def window_ok_def\<close>)
  then show "length (rx_buffer conn') = length (rx_buffer conn)" "window_ok conn'"
    "stream_run h (length (rx_buffer conn)) s (window conn) =
      (s', if client_handle conn' = None then None else Some (window conn'))" by blast+
qed

lemma window_read:
  assumes "window_ok conn" "length d \<le> length (rx_buffer conn) - (rx_read_pos conn + rx_len conn)"
  shows "window (poll_read_data (Inr d) t conn) = window conn @ d"
    "client_handle (poll_read_data (Inr d) t conn) = client_handle conn"
    "length (rx_buffer (poll_read_data (Inr d) t conn)) = length (rx_buffer conn)"
    "rx_read_pos (poll_read_data (Inr d) t conn) + rx_len (poll_read_data (Inr d) t conn) \<le> length (rx_buffer conn)"
  using assms by (auto simp: poll_read_data_def window_def window_ok_def Let_def put_at_def slice_def min_def drop_take)

text \<open>A run of the poll loop on one connection: each read delivers at most as many bytes as there is room for.\<close>

inductive poll_run ::
  "'s msg_handler \<Rightarrow> 's \<Rightarrow> mu_connection \<Rightarrow> bytes list \<Rightarrow> 's \<Rightarrow> mu_connection \<Rightarrow> bool" for h where
  idle: "poll_run h s conn [] s conn"
| read: "client_handle conn \<noteq> None \<Longrightarrow>
    length d \<le> length (rx_buffer conn) - (rx_read_pos conn + rx_len conn) \<Longrightarrow>
    poll_conn_read_and_process h (Inr d) t s conn = (s1, conn1) \<Longrightarrow> poll_run h s1 conn1 ds s' conn' \<Longrightarrow>
    poll_run h s conn (d # ds) s' conn'"

lemma poll_run_stream:
  assumes "poll_run h s conn ds s' conn'" "client_handle conn \<noteq> None" "window_ok conn" "8 \<le> length (rx_buffer conn)"
    and "window conn = w" "stream_run h (length (rx_buffer conn)) s w = (s, Some w)"
  shows "window_ok conn' \<and> stream_run h (length (rx_buffer conn)) s (w @ concat ds) =
    (s', if client_handle conn' = None then None else Some (window conn'))"
  using assms
proof (induction arbitrary: w rule: poll_run.induct)
  case (read conn d t s s1 conn1 ds s' conn')
  note wr = window_read [OF read.prems(2) read.hyps(2), of t]
  have pb: "poll_process_buffer h s (poll_read_data (Inr d) t conn) = (s1, conn1)"
    using read.hyps(3) by (simp add: poll_conn_read_and_process_def)
  note ps = process_buffer_stream [OF _ _ _ pb, unfolded wr, OF read.hyps(1) wr(4) read.prems(3)]
  have N: "length (rx_buffer conn1) = length (rx_buffer conn)" "window_ok conn1"
    and st: "stream_run h (length (rx_buffer conn)) s (w @ d) =
      (s1, if client_handle conn1 = None then None else Some (window conn1))"
    using ps read.prems(4) by simp_all
  show ?case
  proof (cases "client_handle conn1 = None")
    case True
    then have "ds = [] \<and> s' = s1 \<and> conn' = conn1" using read.hyps(4) by (auto elim: poll_run.cases)
    then show ?thesis using st True N by simp
  next
    case False
    have again: "stream_run h (length (rx_buffer conn)) s1 (window conn1) = (s1, Some (window conn1))"
      using stream_run_append [of h "length (rx_buffer conn)" s "w @ d" "[]"] st False by simp
    have "stream_run h (length (rx_buffer conn)) s (w @ concat (d # ds)) =
        stream_run h (length (rx_buffer conn)) s1 (window conn1 @ concat ds)"
      using stream_run_append [of h "length (rx_buffer conn)" s "w @ d" "concat ds"] st False by simp
    then show ?thesis using read.IH [OF False N(2) _ refl] read.prems(3) N again by simp
  qed
qed simp

lemma stream_run_rest:
  "stream_run h n s bs = (s', Some r) \<Longrightarrow>
    (\<exists>p. bs = p @ r) \<and> (8 \<le> length r \<longrightarrow> length r < poll_msg_size r 0 \<and> poll_msg_size r 0 \<le> n)"
proof (induction h n s bs rule: stream_run.induct)
  case (1 h n s bs)
  show ?case
  proof (cases "8 \<le> length bs \<and> 8 \<le> poll_msg_size bs 0 \<and> poll_msg_size bs 0 \<le> n \<and> poll_msg_size bs 0 \<le> length bs")
    case True
    define m where "m = poll_msg_size bs 0"
    obtain s1 msg' alive where h: "h s (take m bs) = (s1, msg', alive)" by (cases "h s (take m bs)") auto
    have x: "stream_run h n s bs = (if alive then stream_run h n s1 (drop m bs) else (s1, None))"
      using True h by (subst stream_run.simps) (simp add: m_def [symmetric] Let_def)
    then have a: alive "stream_run h n s1 (drop m bs) = (s', Some r)" using "1.prems" by (auto split: if_splits)
    have "(\<exists>p. drop m bs = p @ r) \<and> (8 \<le> length r \<longrightarrow> length r < poll_msg_size r 0 \<and> poll_msg_size r 0 \<le> n)"
      using "1.IH" [OF _ m_def _ _ h [symmetric] refl a(1)] True a unfolding m_def by simp
    then show ?thesis by (metis append.assoc append_take_drop_id)
  next
    case False
    then have "bs = r \<and> (8 \<le> length r \<longrightarrow> length r < poll_msg_size r 0 \<and> poll_msg_size r 0 \<le> n)"
      using "1.prems" by (subst (asm) stream_run.simps) (auto simp: Let_def split: if_splits)
    then show ?thesis by blast
  qed
qed

text \<open>A message as its size field says.\<close>

definition sized :: "nat \<Rightarrow> bytes \<Rightarrow> bool" where
  "sized n m \<longleftrightarrow> 8 \<le> length m \<and> length m \<le> n \<and> poll_msg_size m 0 = length m"

lemma stream_run_messages:
  "stream_run h n s bs = (s', Some r) \<Longrightarrow>
   \<exists>ms. bs = concat ms @ r \<and> list_all (sized n) ms \<and> s' = fold (\<lambda>m s. fst (h s m)) ms s"
proof (induction h n s bs arbitrary: s' r rule: stream_run.induct)
  case (1 h n s bs)
  define m where "m = poll_msg_size bs 0"
  show ?case
  proof (cases "8 \<le> length bs \<and> 8 \<le> m \<and> m \<le> n \<and> m \<le> length bs")
    case True
    obtain s1 msg' alive where h: "h s (take m bs) = (s1, msg', alive)" by (cases "h s (take m bs)") auto
    have run: "stream_run h n s bs = (if alive then stream_run h n s1 (drop m bs) else (s1, None))"
      using True h by (subst stream_run.simps) (simp add: m_def [symmetric] Let_def)
    then have a: alive "stream_run h n s1 (drop m bs) = (s', Some r)" using "1.prems" by (auto split: if_splits)
    obtain ms where ms: "drop m bs = concat ms @ r" "list_all (sized n) ms" "s' = fold (\<lambda>m s. fst (h s m)) ms s1"
      using "1.IH" [OF _ m_def _ _ h [symmetric] refl a] True unfolding m_def by auto
    have "poll_msg_size (take m bs) 0 = m" unfolding m_def using True [unfolded m_def] by (intro poll_msg_size_cong) (simp_all add: min_def)
    then have "sized n (take m bs)" using True by (simp add: sized_def)
    moreover have "bs = concat (take m bs # ms) @ r" using ms(1) append_take_drop_id [of m bs] by simp
    ultimately show ?thesis using ms(2,3) h by (intro exI [of _ "take m bs # ms"]) simp
  next
    case False
    then have "s' = s \<and> r = bs"
      using "1.prems" by (subst (asm) stream_run.simps) (auto simp: m_def [symmetric] Let_def split: if_splits)
    then show ?thesis by (intro exI [of _ "[]"]) simp
  qed
qed

section \<open>Properties\<close>

text \<open>
  C26.  Reassembly does not depend on segmentation.  However TCP cuts the byte stream into reads, and
  wherever the window slides or is moved in the receive buffer, the server handles exactly the
  messages of the stream, in order: its state is that of cutting messages off the front of the whole
  stream, the window holds exactly the bytes not yet consumed, and the connection is closed exactly
  when the stream contains an impossible size or a message closes it.
\<close>

theorem stream_reassembly:
  assumes "poll_run h s conn ds s' conn'" "client_handle conn \<noteq> None" "rx_len conn = 0" "rx_read_pos conn = 0"
    and "8 \<le> length (rx_buffer conn)"
  shows "stream_run h (length (rx_buffer conn)) s (concat ds) =
    (s', if client_handle conn' = None then None else Some (window conn'))"
proof -
  have "stream_run h (length (rx_buffer conn)) s [] = (s, Some [])" by (simp add: stream_run.simps)
  moreover have "window conn = []" "window_ok conn" using assms(3-5) by (auto simp: window_def window_ok_def slice_def)
  ultimately show ?thesis using poll_run_stream [OF assms(1,2) _ assms(5), of "[]"] by simp
qed

definition sample_message :: bytes where
  "sample_message = [1, 2, 3, 4, 9, 0, 0, 0, 7]"

definition count_messages :: "nat msg_handler" where
  "count_messages n msg = (Suc n, msg, True)"

definition sample_receiver :: mu_connection where
  "sample_receiver = sample_connection\<lparr>rx_buffer := replicate 16 0\<rparr>"

lemma sample_receiver_parts:
  "client_handle sample_receiver = Some 1" "rx_len sample_receiver = 0" "rx_read_pos sample_receiver = 0"
  "length (rx_buffer sample_receiver) = 16"
  by (simp_all add: sample_receiver_def sample_connection_def)

theorem stream_reassembly_witness:
  "\<exists>n conn'. poll_run count_messages 0 sample_receiver [take 3 sample_message, drop 3 sample_message] n conn' \<and>
     client_handle conn' \<noteq> None \<and> stream_run count_messages 16 0 sample_message = (n, Some (window conn'))"
proof -
  obtain s1 c1 where r1: "poll_conn_read_and_process count_messages (Inr (take 3 sample_message)) 0 0 sample_receiver = (s1, c1)"
    by fastforce
  have c1: "s1 = 0 \<and> client_handle c1 = Some 1 \<and> rx_len c1 = 3 \<and> rx_read_pos c1 = 0 \<and> length (rx_buffer c1) = 16 \<and>
      rx_buffer c1 = [1, 2, 3] @ replicate 13 0"
    using r1 by (auto simp: poll_conn_read_and_process_def poll_read_data_def poll_process_buffer_def poll_loop.simps
        sample_receiver_def sample_connection_def sample_message_def put_at_def numeral_eq_Suc slice_def)
  obtain s2 c2 where r2: "poll_conn_read_and_process count_messages (Inr (drop 3 sample_message)) 0 s1 c1 = (s2, c2)"
    by fastforce
  have run: "poll_run count_messages 0 sample_receiver [take 3 sample_message, drop 3 sample_message] s2 c2"
    using r1 r2 c1 sample_receiver_parts
    by (intro poll_run.read [OF _ _ r1] poll_run.read [OF _ _ r2] poll_run.idle) (simp_all add: sample_message_def)
  note st = stream_reassembly [OF run, unfolded sample_receiver_parts, simplified]
  have "snd (stream_run count_messages 16 0 sample_message) \<noteq> None"
    by (simp add: stream_run.simps sample_message_def count_messages_def poll_msg_size_def)
  then show ?thesis using st run by (auto split: if_splits)
qed

text \<open>
  C27.  The receive loop always ends and never wedges.  After every poll of an open connection there is
  room for at least one more byte behind the window, so a message that fits the buffer can always be
  completed.  As long as the connection stays open, the bytes that were in the window and the bytes read
  are a sequence of whole messages, each as long as its size field says, followed by the new window;
  each of these messages has been handled, in order; and what is left is no whole message.
\<close>

theorem receive_window_never_full:
  assumes "client_handle conn \<noteq> None" "window_ok conn" "8 \<le> length (rx_buffer conn)"
    and "length d \<le> length (rx_buffer conn) - (rx_read_pos conn + rx_len conn)"
    and "poll_conn_read_and_process h (Inr d) t s conn = (s', conn')"
  shows "rx_read_pos conn' + rx_len conn' < length (rx_buffer conn') \<and>
    length (rx_buffer conn') = length (rx_buffer conn) \<and>
    (client_handle conn' \<noteq> None \<longrightarrow>
       (\<exists>ms. window conn @ d = concat ms @ window conn' \<and>
          (\<forall>m \<in> set ms. 8 \<le> length m \<and> length m \<le> length (rx_buffer conn) \<and> poll_msg_size m 0 = length m) \<and>
          s' = fold (\<lambda>m s. fst (h s m)) ms s) \<and>
       (rx_len conn' \<ge> 8 \<longrightarrow> rx_len conn' < poll_msg_size (window conn') 0 \<and> poll_msg_size (window conn') 0 \<le> length (rx_buffer conn')))"
proof -
  note wr = window_read [OF assms(2,4), of t]
  have pb: "poll_process_buffer h s (poll_read_data (Inr d) t conn) = (s', conn')"
    using assms(5) by (simp add: poll_conn_read_and_process_def)
  note ps = process_buffer_stream [OF _ _ _ pb, unfolded wr, OF assms(1) wr(4) assms(3)]
  have len: "length (window conn') = rx_len conn'" using ps(2) by (simp add: window_def window_ok_def)
  have "\<exists>ms. window conn @ d = concat ms @ window conn' \<and> list_all (sized (length (rx_buffer conn))) ms \<and>
      s' = fold (\<lambda>m s. fst (h s m)) ms s" if "client_handle conn' \<noteq> None"
    using ps that by (intro stream_run_messages) simp
  then show ?thesis
    using ps stream_run_rest [of h "length (rx_buffer conn)" s "window conn @ d" s' "window conn'"] len
    by (auto simp: window_ok_def list_all_iff sized_def)
qed

theorem receive_window_never_full_witness:
  "\<exists>s' conn' ms. poll_conn_read_and_process count_messages (Inr sample_message) 0 0 sample_receiver = (s', conn') \<and>
    client_handle conn' \<noteq> None \<and> rx_read_pos conn' + rx_len conn' < 16 \<and>
    sample_message = concat ms @ window conn' \<and> s' = fold (\<lambda>m s. fst (count_messages s m)) ms 0"
proof -
  obtain s' conn' where r: "poll_conn_read_and_process count_messages (Inr sample_message) 0 0 sample_receiver = (s', conn')"
    by fastforce
  have "client_handle conn' = Some 1"
    using r by (auto simp: poll_conn_read_and_process_def poll_read_data_def poll_process_buffer_def poll_loop.simps poll_msg_size_def
        count_messages_def sample_receiver_def sample_connection_def sample_message_def put_at_def slice_def)
  moreover have "window_ok sample_receiver" "window sample_receiver = []" by (simp_all add: window_ok_def window_def slice_def sample_receiver_parts)
  ultimately show ?thesis
    using receive_window_never_full [OF _ _ _ _ r] r sample_receiver_parts by (simp add: sample_message_def) blast
qed

text \<open>
  Idle connections.  A connection is closed by the idle check exactly when nothing was received for
  longer than its limit: the revised lifetime of an open channel, otherwise 30 seconds.  In particular
  an open channel of a reachable state is never closed before 10 seconds of silence, a clock that runs
  backwards closes nothing, and closing resets the receive window.
\<close>

lemma idle_timeout_exact:
  assumes "client_handle conn \<noteq> None" "channel_reachable (secure_channel conn)"
    and "poll_check_idle_timeout now conn = (expired, conn')"
  shows "(expired \<longleftrightarrow> unat (last_activity_ms conn) +
        (if is_open (secure_channel conn) then unat (revised_lifetime (secure_channel conn)) else 30000) < unat now) \<and>
    (expired \<longrightarrow> unat (last_activity_ms conn) + 10000 \<le> unat now \<and> client_handle conn' = None \<and> rx_len conn' = 0 \<and>
       rx_read_pos conn' = 0) \<and>
    (\<not> expired \<longrightarrow> conn' = conn)"
proof -
  define l where "l = (if is_open (secure_channel conn) then ucast (revised_lifetime (secure_channel conn))
      else MU_CONNECT_TIMEOUT_MS)"
  define n where "n = (if is_open (secure_channel conn) then unat (revised_lifetime (secure_channel conn)) else 30000)"
  have l: "unat l = n"
    using unsigned_less [where ?'a = nat and w = "revised_lifetime (secure_channel conn)"]
    by (simp add: l_def n_def unsigned_ucast_eq take_bit_nat_eq_self)
  have lo: "10000 \<le> n"
    using channel_reachable_inv [OF assms(2)] by (auto simp: n_def channel_inv_def word_le_nat_alt)
  have "now > last_activity_ms conn \<and> now - last_activity_ms conn > l \<longleftrightarrow> unat (last_activity_ms conn) + n < unat now"
  proof (cases "unat (last_activity_ms conn) < unat now")
    case True
    then have "unat (now - last_activity_ms conn) = unat now - unat (last_activity_ms conn)"
      by (intro unat_sub) (simp add: word_le_nat_alt)
    then show ?thesis using True l by (auto simp: word_less_nat_alt)
  qed (auto simp: word_less_nat_alt)
  then show ?thesis
    using assms(1,3) lo unfolding poll_check_idle_timeout_def Let_def l_def [symmetric] n_def [symmetric]
    by (auto simp: poll_close_connection_def split: if_splits)
qed

end
