(* ===== verification/Mu_Dispatch.thy ===== *)
theory Mu_Dispatch
  imports Mu_Poll
begin

unbundle bit_operations_syntax

text \<open>
  The server's state and the dispatch of service requests:
  \<^verbatim>\<open>src/core/service_dispatch/dispatch_core.c\<close>, the counters of
  \<^verbatim>\<open>src/cu/core_2022_server/diagnostics/diagnostics.c\<close> and the response prefix of
  \<^verbatim>\<open>src/core/service_dispatch/response_encode.c\<close>.

  The table of services is that of the full profile.  The service functions it names are a parameter;
  each maps the server, the request body, the response buffer and its capacity to a status, the
  response length, the buffer and the server.  The part of the server's state that dispatching does not
  touch (address space, subscriptions, registered methods) is a type parameter.
\<close>

section \<open>The server\<close>

text \<open>
  Pointers into the arrays of connections and sessions are indices.  The buffer responses are built in
  belongs to the configuration in the source and is kept with the state here, since handling a message
  writes it; the calls of the TCP adapter are recorded in their order.
\<close>

datatype tcp_call = Tcp_write "nat option" bytes | Tcp_close "nat option"

record 'a mu_server =
  conns :: "mu_connection list"
  active_conn :: "nat option"
  sv_secure_channel :: mu_secure_channel
  sv_tcp_conn :: mu_tcp_connection
  sv_client_handle :: "nat option"
  chunk_assembly :: mu_chunk_assembler
  opn_pending_security_policy :: mu_string
  opn_pending_client_cert :: mu_bytestring
  channel_client_cert :: bytes
  channel_client_cert_len :: nat
  sessions :: "mu_session list"
  active_session :: "nat option"
  return_diagnostics :: opcua_uint32_t
  current_request_id :: opcua_uint32_t
  send_buffer :: bytes
  tcp_calls :: "tcp_call list"
  diag :: mu_diagnostics_summary
  sv_rest :: 'a

definition server_secure_channel :: "'a mu_server \<Rightarrow> mu_secure_channel" where
  "server_secure_channel server =
    (case active_conn server of Some i \<Rightarrow> secure_channel (conns server ! i) | None \<Rightarrow> sv_secure_channel server)"

definition set_secure_channel :: "mu_secure_channel \<Rightarrow> 'a mu_server \<Rightarrow> 'a mu_server" where
  "set_secure_channel c server =
    (case active_conn server of
       Some i \<Rightarrow> server\<lparr>conns := (conns server)[i := (conns server ! i)\<lparr>secure_channel := c\<rparr>]\<rparr>
     | None \<Rightarrow> server\<lparr>sv_secure_channel := c\<rparr>)"

section \<open>Diagnostics counters\<close>

definition mu_diagnostics_session_created :: "'a mu_server \<Rightarrow> 'a mu_server" where
  "mu_diagnostics_session_created server = server\<lparr>diag := (diag server)\<lparr>
     cumulated_session_count := cumulated_session_count (diag server) + 1,
     current_session_count := current_session_count (diag server) + 1\<rparr>\<rparr>"

definition mu_diagnostics_session_closed :: "'a mu_server \<Rightarrow> 'a mu_server" where
  "mu_diagnostics_session_closed server =
    (if current_session_count (diag server) > 0
     then server\<lparr>diag := (diag server)\<lparr>current_session_count := current_session_count (diag server) - 1\<rparr>\<rparr>
     else server)"

definition mu_diagnostics_session_timeout :: "'a mu_server \<Rightarrow> 'a mu_server" where
  "mu_diagnostics_session_timeout server =
    server\<lparr>diag := (diag server)\<lparr>session_timeout_count := session_timeout_count (diag server) + 1\<rparr>\<rparr>"

definition mu_diagnostics_session_rejected :: "'a mu_server \<Rightarrow> 'a mu_server" where
  "mu_diagnostics_session_rejected server =
    server\<lparr>diag := (diag server)\<lparr>rejected_session_count := rejected_session_count (diag server) + 1\<rparr>\<rparr>"

definition mu_diagnostics_session_security_rejected :: "'a mu_server \<Rightarrow> 'a mu_server" where
  "mu_diagnostics_session_security_rejected server = server\<lparr>diag := (diag server)\<lparr>
     security_rejected_session_count := security_rejected_session_count (diag server) + 1,
     rejected_session_count := rejected_session_count (diag server) + 1\<rparr>\<rparr>"

definition mu_diagnostics_request_rejected :: "bool \<Rightarrow> 'a mu_server \<Rightarrow> 'a mu_server" where
  "mu_diagnostics_request_rejected security server = server\<lparr>diag := (diag server)\<lparr>
     rejected_requests_count := rejected_requests_count (diag server) + 1,
     security_rejected_requests_count :=
       (if security then security_rejected_requests_count (diag server) + 1
        else security_rejected_requests_count (diag server))\<rparr>\<rparr>"

definition mu_diagnostics_subscription_created :: "'a mu_server \<Rightarrow> 'a mu_server" where
  "mu_diagnostics_subscription_created server = server\<lparr>diag := (diag server)\<lparr>
     cumulated_subscription_count := cumulated_subscription_count (diag server) + 1,
     current_subscription_count := current_subscription_count (diag server) + 1\<rparr>\<rparr>"

definition mu_diagnostics_subscription_closed :: "'a mu_server \<Rightarrow> 'a mu_server" where
  "mu_diagnostics_subscription_closed server =
    (if current_subscription_count (diag server) > 0
     then server\<lparr>diag := (diag server)\<lparr>current_subscription_count := current_subscription_count (diag server) - 1\<rparr>\<rparr>
     else server)"

section \<open>Response prefix and service fault\<close>

text \<open>The clock adapter's time is a parameter, 0 when there is no adapter.\<close>

abbreviation (input) MU_ID_SERVICEFAULT :: opcua_uint32_t where "MU_ID_SERVICEFAULT \<equiv> 397"

definition write_response_prefix ::
  "opcua_datetime_t \<Rightarrow> opcua_uint32_t \<Rightarrow> opcua_uint32_t \<Rightarrow> opcua_statuscode_t \<Rightarrow> 'a mu_server \<Rightarrow> wr" where
  "write_response_prefix now response_type_id request_handle result server =
    wr_seq (mu_binary_write_nodeid \<lparr>namespace_index = 0, ident = NUMERIC response_type_id\<rparr>)
      (mu_response_header_encode \<lparr>rs_timestamp = now, rs_request_handle = request_handle, service_result = result,
         rs_return_diagnostics = return_diagnostics server\<rparr>)"

text \<open>The buffer is returned also when the fault does not fit.\<close>

definition mu_write_service_fault ::
  "opcua_datetime_t \<Rightarrow> bytes \<Rightarrow> nat \<Rightarrow> opcua_uint32_t \<Rightarrow> opcua_statuscode_t \<Rightarrow> 'a mu_server \<Rightarrow>
   (opcua_statuscode_t + nat) \<times> bytes" where
  "mu_write_service_fault now buffer capacity request_handle result server =
    (case write_response_prefix now MU_ID_SERVICEFAULT request_handle result server
            (mu_binary_writer_init (Some buffer) capacity) of
       (s, w) \<Rightarrow>
         (if s \<noteq> MU_STATUS_GOOD then Inl s else Inr (wr_position w), the (wr_buffer w)))"

section \<open>The table of services\<close>

text \<open>The functions the table points to, by name.\<close>

datatype service_function =
    HANDLE_FIND_SERVERS | HANDLE_GET_ENDPOINTS | HANDLE_REGISTER_SERVER | HANDLE_OPEN_SECURE_CHANNEL
  | HANDLE_CLOSE_SECURE_CHANNEL | HANDLE_CREATE_SESSION | HANDLE_ACTIVATE_SESSION | HANDLE_CLOSE_SESSION
  | HANDLE_CANCEL | HANDLE_ADD_NODES | HANDLE_ADD_REFERENCES | HANDLE_DELETE_NODES
  | HANDLE_DELETE_REFERENCES | HANDLE_BROWSE | HANDLE_BROWSE_NEXT | HANDLE_TRANSLATE_BROWSE_PATHS
  | HANDLE_REGISTER_NODES | HANDLE_UNREGISTER_NODES | HANDLE_QUERY_FIRST | HANDLE_QUERY_NEXT
  | HANDLE_READ | HANDLE_HISTORY_READ | HANDLE_WRITE | HANDLE_HISTORY_UPDATE
  | HANDLE_CALL | HANDLE_CREATE_MONITORED_ITEMS | HANDLE_MODIFY_MONITORED_ITEMS | HANDLE_SET_MONITORING_MODE
  | HANDLE_SET_TRIGGERING | HANDLE_DELETE_MONITORED_ITEMS | HANDLE_CREATE_SUBSCRIPTION | HANDLE_MODIFY_SUBSCRIPTION
  | HANDLE_SET_PUBLISHING_MODE | HANDLE_PUBLISH | HANDLE_REPUBLISH | HANDLE_TRANSFER_SUBSCRIPTIONS
  | HANDLE_DELETE_SUBSCRIPTIONS

record mu_service_handler =
  svc_request_id :: opcua_uint32_t
  svc_response_id :: opcua_uint32_t
  svc_requires_session :: bool

record mu_service_descriptor =
  desc_service :: mu_service_handler
  desc_handler :: service_function

abbreviation (input) MU_ID_FINDSERVERSREQUEST :: opcua_uint32_t where "MU_ID_FINDSERVERSREQUEST \<equiv> 422"
abbreviation (input) MU_ID_FINDSERVERSRESPONSE :: opcua_uint32_t where "MU_ID_FINDSERVERSRESPONSE \<equiv> 425"
abbreviation (input) MU_ID_GETENDPOINTSREQUEST :: opcua_uint32_t where "MU_ID_GETENDPOINTSREQUEST \<equiv> 428"
abbreviation (input) MU_ID_GETENDPOINTSRESPONSE :: opcua_uint32_t where "MU_ID_GETENDPOINTSRESPONSE \<equiv> 431"
abbreviation (input) MU_ID_REGISTERSERVERREQUEST :: opcua_uint32_t where "MU_ID_REGISTERSERVERREQUEST \<equiv> 437"
abbreviation (input) MU_ID_REGISTERSERVERRESPONSE :: opcua_uint32_t where "MU_ID_REGISTERSERVERRESPONSE \<equiv> 440"
abbreviation (input) MU_ID_OPENSECURECHANNELREQUEST :: opcua_uint32_t where "MU_ID_OPENSECURECHANNELREQUEST \<equiv> 446"
abbreviation (input) MU_ID_OPENSECURECHANNELRESPONSE :: opcua_uint32_t where "MU_ID_OPENSECURECHANNELRESPONSE \<equiv> 449"
abbreviation (input) MU_ID_CLOSESECURECHANNELREQUEST :: opcua_uint32_t where "MU_ID_CLOSESECURECHANNELREQUEST \<equiv> 452"
abbreviation (input) MU_ID_CLOSESECURECHANNELRESPONSE :: opcua_uint32_t where "MU_ID_CLOSESECURECHANNELRESPONSE \<equiv> 455"
abbreviation (input) MU_ID_CREATESESSIONREQUEST :: opcua_uint32_t where "MU_ID_CREATESESSIONREQUEST \<equiv> 461"
abbreviation (input) MU_ID_CREATESESSIONRESPONSE :: opcua_uint32_t where "MU_ID_CREATESESSIONRESPONSE \<equiv> 464"
abbreviation (input) MU_ID_ACTIVATESESSIONREQUEST :: opcua_uint32_t where "MU_ID_ACTIVATESESSIONREQUEST \<equiv> 467"
abbreviation (input) MU_ID_ACTIVATESESSIONRESPONSE :: opcua_uint32_t where "MU_ID_ACTIVATESESSIONRESPONSE \<equiv> 470"
abbreviation (input) MU_ID_CLOSESESSIONREQUEST :: opcua_uint32_t where "MU_ID_CLOSESESSIONREQUEST \<equiv> 473"
abbreviation (input) MU_ID_CLOSESESSIONRESPONSE :: opcua_uint32_t where "MU_ID_CLOSESESSIONRESPONSE \<equiv> 476"
abbreviation (input) MU_ID_CANCELREQUEST :: opcua_uint32_t where "MU_ID_CANCELREQUEST \<equiv> 478"
abbreviation (input) MU_ID_CANCELRESPONSE :: opcua_uint32_t where "MU_ID_CANCELRESPONSE \<equiv> 481"
abbreviation (input) MU_ID_ADDNODESREQUEST :: opcua_uint32_t where "MU_ID_ADDNODESREQUEST \<equiv> 488"
abbreviation (input) MU_ID_ADDNODESRESPONSE :: opcua_uint32_t where "MU_ID_ADDNODESRESPONSE \<equiv> 491"
abbreviation (input) MU_ID_ADDREFERENCESREQUEST :: opcua_uint32_t where "MU_ID_ADDREFERENCESREQUEST \<equiv> 494"
abbreviation (input) MU_ID_ADDREFERENCESRESPONSE :: opcua_uint32_t where "MU_ID_ADDREFERENCESRESPONSE \<equiv> 497"
abbreviation (input) MU_ID_DELETENODESREQUEST :: opcua_uint32_t where "MU_ID_DELETENODESREQUEST \<equiv> 500"
abbreviation (input) MU_ID_DELETENODESRESPONSE :: opcua_uint32_t where "MU_ID_DELETENODESRESPONSE \<equiv> 503"
abbreviation (input) MU_ID_DELETEREFERENCESREQUEST :: opcua_uint32_t where "MU_ID_DELETEREFERENCESREQUEST \<equiv> 506"
abbreviation (input) MU_ID_DELETEREFERENCESRESPONSE :: opcua_uint32_t where "MU_ID_DELETEREFERENCESRESPONSE \<equiv> 509"
abbreviation (input) MU_ID_BROWSEREQUEST :: opcua_uint32_t where "MU_ID_BROWSEREQUEST \<equiv> 527"
abbreviation (input) MU_ID_BROWSERESPONSE :: opcua_uint32_t where "MU_ID_BROWSERESPONSE \<equiv> 530"
abbreviation (input) MU_ID_BROWSENEXTREQUEST :: opcua_uint32_t where "MU_ID_BROWSENEXTREQUEST \<equiv> 533"
abbreviation (input) MU_ID_BROWSENEXTRESPONSE :: opcua_uint32_t where "MU_ID_BROWSENEXTRESPONSE \<equiv> 536"
abbreviation (input) MU_ID_TRANSLATEBROWSEPATHSTONODEIDSREQUEST :: opcua_uint32_t where "MU_ID_TRANSLATEBROWSEPATHSTONODEIDSREQUEST \<equiv> 554"
abbreviation (input) MU_ID_TRANSLATEBROWSEPATHSTONODEIDSRESPONSE :: opcua_uint32_t where "MU_ID_TRANSLATEBROWSEPATHSTONODEIDSRESPONSE \<equiv> 557"
abbreviation (input) MU_ID_REGISTERNODESREQUEST :: opcua_uint32_t where "MU_ID_REGISTERNODESREQUEST \<equiv> 560"
abbreviation (input) MU_ID_REGISTERNODESRESPONSE :: opcua_uint32_t where "MU_ID_REGISTERNODESRESPONSE \<equiv> 563"
abbreviation (input) MU_ID_UNREGISTERNODESREQUEST :: opcua_uint32_t where "MU_ID_UNREGISTERNODESREQUEST \<equiv> 566"
abbreviation (input) MU_ID_UNREGISTERNODESRESPONSE :: opcua_uint32_t where "MU_ID_UNREGISTERNODESRESPONSE \<equiv> 569"
abbreviation (input) MU_ID_QUERYFIRSTREQUEST :: opcua_uint32_t where "MU_ID_QUERYFIRSTREQUEST \<equiv> 615"
abbreviation (input) MU_ID_QUERYFIRSTRESPONSE :: opcua_uint32_t where "MU_ID_QUERYFIRSTRESPONSE \<equiv> 618"
abbreviation (input) MU_ID_QUERYNEXTREQUEST :: opcua_uint32_t where "MU_ID_QUERYNEXTREQUEST \<equiv> 621"
abbreviation (input) MU_ID_QUERYNEXTRESPONSE :: opcua_uint32_t where "MU_ID_QUERYNEXTRESPONSE \<equiv> 624"
abbreviation (input) MU_ID_READREQUEST :: opcua_uint32_t where "MU_ID_READREQUEST \<equiv> 631"
abbreviation (input) MU_ID_READRESPONSE :: opcua_uint32_t where "MU_ID_READRESPONSE \<equiv> 634"
abbreviation (input) MU_ID_HISTORYREADREQUEST :: opcua_uint32_t where "MU_ID_HISTORYREADREQUEST \<equiv> 664"
abbreviation (input) MU_ID_HISTORYREADRESPONSE :: opcua_uint32_t where "MU_ID_HISTORYREADRESPONSE \<equiv> 667"
abbreviation (input) MU_ID_WRITEREQUEST :: opcua_uint32_t where "MU_ID_WRITEREQUEST \<equiv> 673"
abbreviation (input) MU_ID_WRITERESPONSE :: opcua_uint32_t where "MU_ID_WRITERESPONSE \<equiv> 676"
abbreviation (input) MU_ID_HISTORYUPDATEREQUEST :: opcua_uint32_t where "MU_ID_HISTORYUPDATEREQUEST \<equiv> 700"
abbreviation (input) MU_ID_CALLREQUEST :: opcua_uint32_t where "MU_ID_CALLREQUEST \<equiv> 712"
abbreviation (input) MU_ID_CALLRESPONSE :: opcua_uint32_t where "MU_ID_CALLRESPONSE \<equiv> 715"
abbreviation (input) MU_ID_CREATEMONITOREDITEMSREQUEST :: opcua_uint32_t where "MU_ID_CREATEMONITOREDITEMSREQUEST \<equiv> 751"
abbreviation (input) MU_ID_CREATEMONITOREDITEMSRESPONSE :: opcua_uint32_t where "MU_ID_CREATEMONITOREDITEMSRESPONSE \<equiv> 754"
abbreviation (input) MU_ID_MODIFYMONITOREDITEMSREQUEST :: opcua_uint32_t where "MU_ID_MODIFYMONITOREDITEMSREQUEST \<equiv> 763"
abbreviation (input) MU_ID_MODIFYMONITOREDITEMSRESPONSE :: opcua_uint32_t where "MU_ID_MODIFYMONITOREDITEMSRESPONSE \<equiv> 766"
abbreviation (input) MU_ID_SETMONITORINGMODEREQUEST :: opcua_uint32_t where "MU_ID_SETMONITORINGMODEREQUEST \<equiv> 769"
abbreviation (input) MU_ID_SETMONITORINGMODERESPONSE :: opcua_uint32_t where "MU_ID_SETMONITORINGMODERESPONSE \<equiv> 772"
abbreviation (input) MU_ID_SETTRIGGERINGREQUEST :: opcua_uint32_t where "MU_ID_SETTRIGGERINGREQUEST \<equiv> 775"
abbreviation (input) MU_ID_SETTRIGGERINGRESPONSE :: opcua_uint32_t where "MU_ID_SETTRIGGERINGRESPONSE \<equiv> 778"
abbreviation (input) MU_ID_DELETEMONITOREDITEMSREQUEST :: opcua_uint32_t where "MU_ID_DELETEMONITOREDITEMSREQUEST \<equiv> 781"
abbreviation (input) MU_ID_DELETEMONITOREDITEMSRESPONSE :: opcua_uint32_t where "MU_ID_DELETEMONITOREDITEMSRESPONSE \<equiv> 784"
abbreviation (input) MU_ID_CREATESUBSCRIPTIONREQUEST :: opcua_uint32_t where "MU_ID_CREATESUBSCRIPTIONREQUEST \<equiv> 787"
abbreviation (input) MU_ID_CREATESUBSCRIPTIONRESPONSE :: opcua_uint32_t where "MU_ID_CREATESUBSCRIPTIONRESPONSE \<equiv> 790"
abbreviation (input) MU_ID_MODIFYSUBSCRIPTIONREQUEST :: opcua_uint32_t where "MU_ID_MODIFYSUBSCRIPTIONREQUEST \<equiv> 793"
abbreviation (input) MU_ID_MODIFYSUBSCRIPTIONRESPONSE :: opcua_uint32_t where "MU_ID_MODIFYSUBSCRIPTIONRESPONSE \<equiv> 796"
abbreviation (input) MU_ID_SETPUBLISHINGMODEREQUEST :: opcua_uint32_t where "MU_ID_SETPUBLISHINGMODEREQUEST \<equiv> 799"
abbreviation (input) MU_ID_SETPUBLISHINGMODERESPONSE :: opcua_uint32_t where "MU_ID_SETPUBLISHINGMODERESPONSE \<equiv> 802"
abbreviation (input) MU_ID_PUBLISHREQUEST :: opcua_uint32_t where "MU_ID_PUBLISHREQUEST \<equiv> 826"
abbreviation (input) MU_ID_PUBLISHRESPONSE :: opcua_uint32_t where "MU_ID_PUBLISHRESPONSE \<equiv> 829"
abbreviation (input) MU_ID_REPUBLISHREQUEST :: opcua_uint32_t where "MU_ID_REPUBLISHREQUEST \<equiv> 832"
abbreviation (input) MU_ID_REPUBLISHRESPONSE :: opcua_uint32_t where "MU_ID_REPUBLISHRESPONSE \<equiv> 835"
abbreviation (input) MU_ID_TRANSFERSUBSCRIPTIONSREQUEST :: opcua_uint32_t where "MU_ID_TRANSFERSUBSCRIPTIONSREQUEST \<equiv> 841"
abbreviation (input) MU_ID_TRANSFERSUBSCRIPTIONSRESPONSE :: opcua_uint32_t where "MU_ID_TRANSFERSUBSCRIPTIONSRESPONSE \<equiv> 844"
abbreviation (input) MU_ID_DELETESUBSCRIPTIONSREQUEST :: opcua_uint32_t where "MU_ID_DELETESUBSCRIPTIONSREQUEST \<equiv> 847"
abbreviation (input) MU_ID_DELETESUBSCRIPTIONSRESPONSE :: opcua_uint32_t where "MU_ID_DELETESUBSCRIPTIONSRESPONSE \<equiv> 850"
abbreviation (input) MU_ID_REGISTERSERVER2REQUEST :: opcua_uint32_t where "MU_ID_REGISTERSERVER2REQUEST \<equiv> 12211"
abbreviation (input) MU_ID_REGISTERSERVER2RESPONSE :: opcua_uint32_t where "MU_ID_REGISTERSERVER2RESPONSE \<equiv> 12212"

definition service_row :: "opcua_uint32_t \<Rightarrow> opcua_uint32_t \<Rightarrow> bool \<Rightarrow> service_function \<Rightarrow> mu_service_descriptor" where
  "service_row req resp needs f =
    \<lparr>desc_service = \<lparr>svc_request_id = req, svc_response_id = resp, svc_requires_session = needs\<rparr>, desc_handler = f\<rparr>"

definition g_supported_services :: "mu_service_descriptor list" where
  "g_supported_services =
    [service_row MU_ID_FINDSERVERSREQUEST MU_ID_FINDSERVERSRESPONSE False HANDLE_FIND_SERVERS,
     service_row MU_ID_GETENDPOINTSREQUEST MU_ID_GETENDPOINTSRESPONSE False HANDLE_GET_ENDPOINTS,
     service_row MU_ID_REGISTERSERVERREQUEST MU_ID_REGISTERSERVERRESPONSE False HANDLE_REGISTER_SERVER,
     service_row MU_ID_OPENSECURECHANNELREQUEST MU_ID_OPENSECURECHANNELRESPONSE False HANDLE_OPEN_SECURE_CHANNEL,
     service_row MU_ID_CLOSESECURECHANNELREQUEST MU_ID_CLOSESECURECHANNELRESPONSE False HANDLE_CLOSE_SECURE_CHANNEL,
     service_row MU_ID_CREATESESSIONREQUEST MU_ID_CREATESESSIONRESPONSE False HANDLE_CREATE_SESSION,
     service_row MU_ID_ACTIVATESESSIONREQUEST MU_ID_ACTIVATESESSIONRESPONSE False HANDLE_ACTIVATE_SESSION,
     service_row MU_ID_CLOSESESSIONREQUEST MU_ID_CLOSESESSIONRESPONSE True HANDLE_CLOSE_SESSION,
     service_row MU_ID_CANCELREQUEST MU_ID_CANCELRESPONSE True HANDLE_CANCEL,
     service_row MU_ID_ADDNODESREQUEST MU_ID_ADDNODESRESPONSE True HANDLE_ADD_NODES,
     service_row MU_ID_ADDREFERENCESREQUEST MU_ID_ADDREFERENCESRESPONSE True HANDLE_ADD_REFERENCES,
     service_row MU_ID_DELETENODESREQUEST MU_ID_DELETENODESRESPONSE True HANDLE_DELETE_NODES,
     service_row MU_ID_DELETEREFERENCESREQUEST MU_ID_DELETEREFERENCESRESPONSE True HANDLE_DELETE_REFERENCES,
     service_row MU_ID_BROWSEREQUEST MU_ID_BROWSERESPONSE True HANDLE_BROWSE,
     service_row MU_ID_BROWSENEXTREQUEST MU_ID_BROWSENEXTRESPONSE True HANDLE_BROWSE_NEXT,
     service_row MU_ID_TRANSLATEBROWSEPATHSTONODEIDSREQUEST MU_ID_TRANSLATEBROWSEPATHSTONODEIDSRESPONSE True HANDLE_TRANSLATE_BROWSE_PATHS,
     service_row MU_ID_REGISTERNODESREQUEST MU_ID_REGISTERNODESRESPONSE True HANDLE_REGISTER_NODES,
     service_row MU_ID_UNREGISTERNODESREQUEST MU_ID_UNREGISTERNODESRESPONSE True HANDLE_UNREGISTER_NODES,
     service_row MU_ID_QUERYFIRSTREQUEST MU_ID_QUERYFIRSTRESPONSE True HANDLE_QUERY_FIRST,
     service_row MU_ID_QUERYNEXTREQUEST MU_ID_QUERYNEXTRESPONSE True HANDLE_QUERY_NEXT,
     service_row MU_ID_READREQUEST MU_ID_READRESPONSE True HANDLE_READ,
     service_row MU_ID_HISTORYREADREQUEST MU_ID_HISTORYREADRESPONSE True HANDLE_HISTORY_READ,
     service_row MU_ID_WRITEREQUEST MU_ID_WRITERESPONSE True HANDLE_WRITE,
     service_row MU_ID_HISTORYUPDATEREQUEST MU_ID_HISTORYUPDATEREQUEST True HANDLE_HISTORY_UPDATE,
     service_row MU_ID_CALLREQUEST MU_ID_CALLRESPONSE True HANDLE_CALL,
     service_row MU_ID_CREATEMONITOREDITEMSREQUEST MU_ID_CREATEMONITOREDITEMSRESPONSE True HANDLE_CREATE_MONITORED_ITEMS,
     service_row MU_ID_MODIFYMONITOREDITEMSREQUEST MU_ID_MODIFYMONITOREDITEMSRESPONSE True HANDLE_MODIFY_MONITORED_ITEMS,
     service_row MU_ID_SETMONITORINGMODEREQUEST MU_ID_SETMONITORINGMODERESPONSE True HANDLE_SET_MONITORING_MODE,
     service_row MU_ID_SETTRIGGERINGREQUEST MU_ID_SETTRIGGERINGRESPONSE True HANDLE_SET_TRIGGERING,
     service_row MU_ID_DELETEMONITOREDITEMSREQUEST MU_ID_DELETEMONITOREDITEMSRESPONSE True HANDLE_DELETE_MONITORED_ITEMS,
     service_row MU_ID_CREATESUBSCRIPTIONREQUEST MU_ID_CREATESUBSCRIPTIONRESPONSE True HANDLE_CREATE_SUBSCRIPTION,
     service_row MU_ID_MODIFYSUBSCRIPTIONREQUEST MU_ID_MODIFYSUBSCRIPTIONRESPONSE True HANDLE_MODIFY_SUBSCRIPTION,
     service_row MU_ID_SETPUBLISHINGMODEREQUEST MU_ID_SETPUBLISHINGMODERESPONSE True HANDLE_SET_PUBLISHING_MODE,
     service_row MU_ID_PUBLISHREQUEST MU_ID_PUBLISHRESPONSE True HANDLE_PUBLISH,
     service_row MU_ID_REPUBLISHREQUEST MU_ID_REPUBLISHRESPONSE True HANDLE_REPUBLISH,
     service_row MU_ID_TRANSFERSUBSCRIPTIONSREQUEST MU_ID_TRANSFERSUBSCRIPTIONSRESPONSE True HANDLE_TRANSFER_SUBSCRIPTIONS,
     service_row MU_ID_DELETESUBSCRIPTIONSREQUEST MU_ID_DELETESUBSCRIPTIONSRESPONSE True HANDLE_DELETE_SUBSCRIPTIONS,
     service_row MU_ID_REGISTERSERVER2REQUEST MU_ID_REGISTERSERVER2RESPONSE False HANDLE_REGISTER_SERVER]"

function find_service_loop ::
  "mu_service_descriptor list \<Rightarrow> opcua_uint32_t \<Rightarrow> nat \<Rightarrow> nat \<Rightarrow> mu_service_descriptor option" where
  "find_service_loop table req lo hi =
    (if lo < hi then
       let mid = lo + (hi - lo) div 2; mid_id = svc_request_id (desc_service (table ! mid)) in
       if mid_id = req then Some (table ! mid)
       else if mid_id < req then find_service_loop table req (mid + 1) hi
       else find_service_loop table req lo mid
     else None)"
  by pat_completeness auto
termination
  by (relation "measure (\<lambda>(table, req, lo, hi). hi - lo)") auto

declare find_service_loop.simps [simp del]

definition find_service_descriptor :: "opcua_uint32_t \<Rightarrow> mu_service_descriptor option" where
  "find_service_descriptor req = find_service_loop g_supported_services req 0 (length g_supported_services)"

definition mu_get_service_handler :: "opcua_uint32_t \<Rightarrow> mu_service_handler option" where
  "mu_get_service_handler req = map_option desc_service (find_service_descriptor req)"

section \<open>Dispatching a request\<close>

type_synonym 'a service_call =
  "'a mu_server \<Rightarrow> bytes \<Rightarrow> bytes \<Rightarrow> nat \<Rightarrow> opcua_statuscode_t \<times> nat \<times> bytes \<times> 'a mu_server"

definition read_auth_token_from_request :: "bytes \<Rightarrow> opcua_uint32_t" where
  "read_auth_token_from_request request_body =
    (case mu_binary_read_nodeid (mu_binary_reader_init (Some request_body) (length request_body)) of
       (Inl _, _) \<Rightarrow> 0
     | (Inr token, _) \<Rightarrow>
       (case ident token of NUMERIC n \<Rightarrow> if namespace_index token \<noteq> 0 then 0 else n | _ \<Rightarrow> 0))"

definition read_return_diagnostics_from_request :: "bytes \<Rightarrow> opcua_uint32_t" where
  "read_return_diagnostics_from_request request_body =
    (case mu_request_header_decode (mu_binary_reader_init (Some request_body) (length request_body)) of
       (Inl _, _) \<Rightarrow> 0
     | (Inr header, _) \<Rightarrow> rq_return_diagnostics header)"

text \<open>
  The session checks: a refusal with its status, or the server with its active session.  The tick is
  \<^const>\<open>None\<close> when the clock adapter has no tick function.
\<close>

definition check_session ::
  "opcua_uint64_t option \<Rightarrow> 'a mu_server \<Rightarrow> bytes \<Rightarrow> (opcua_statuscode_t \<times> 'a mu_server) + 'a mu_server" where
  "check_session tick server request_body =
    (let token = read_auth_token_from_request request_body in
     if token = 0 then Inl (MU_STATUS_BAD_SESSIONIDINVALID, mu_diagnostics_request_rejected False server)
     else (case mu_session_find_by_token (sessions server) token of
       None \<Rightarrow>
         Inl (if mu_session_find_closed_by_token (sessions server) token \<noteq> None then MU_STATUS_BAD_SESSIONCLOSED
              else MU_STATUS_BAD_SESSIONIDINVALID,
              mu_diagnostics_request_rejected False server)
     | Some i \<Rightarrow>
       let session = sessions server ! i;
           s = mu_session_validate_secure_channel session (channel_id (server_secure_channel server))
       in if s \<noteq> MU_STATUS_GOOD then Inl (s, mu_diagnostics_request_rejected True server)
          else if ss_state session \<noteq> MU_SESSION_STATE_ACTIVATED then
            Inl (MU_STATUS_BAD_SESSIONNOTACTIVATED, mu_diagnostics_request_rejected False server)
          else Inr (server\<lparr>active_session := Some i,
                 sessions := (case tick of
                     None \<Rightarrow> sessions server
                   | Some t \<Rightarrow> (sessions server)[i := session\<lparr>ss_last_activity_ms := t\<rparr>])\<rparr>)))"

definition mu_service_dispatch ::
  "(service_function \<Rightarrow> 'a service_call) \<Rightarrow> opcua_uint64_t option \<Rightarrow> 'a mu_server \<Rightarrow> opcua_uint32_t \<Rightarrow> bytes \<Rightarrow> bytes \<Rightarrow> nat \<Rightarrow>
   opcua_statuscode_t \<times> nat \<times> bytes \<times> 'a mu_server" where
  "mu_service_dispatch functions tick server req request_body response_body response_length =
    (let server = server\<lparr>active_session := None, return_diagnostics := 0\<rparr> in
     case find_service_descriptor req of
       None \<Rightarrow> (MU_STATUS_BAD_SERVICEUNSUPPORTED, response_length, response_body, server)
     | Some descriptor \<Rightarrow>
       if req \<noteq> MU_ID_OPENSECURECHANNELREQUEST \<and> \<not> is_open (server_secure_channel server) then
         (MU_STATUS_BAD_SECURECHANNELIDINVALID, response_length, response_body, server)
       else (case (if svc_requires_session (desc_service descriptor) then check_session tick server request_body else Inr server) of
         Inl (s, server) \<Rightarrow> (s, response_length, response_body, server)
       | Inr server \<Rightarrow>
           functions (desc_handler descriptor)
             (server\<lparr>return_diagnostics := read_return_diagnostics_from_request request_body\<rparr>)
             request_body response_body response_length))"

section \<open>The binary search\<close>

abbreviation req_id :: "mu_service_descriptor \<Rightarrow> opcua_uint32_t" where
  "req_id d \<equiv> svc_request_id (desc_service d)"

lemma find_service_loop_Some:
  "find_service_loop t req lo hi = Some d \<Longrightarrow> hi \<le> length t \<Longrightarrow> d \<in> set t \<and> req_id d = req"
proof (induction t req lo hi rule: find_service_loop.induct)
  case (1 t req lo hi)
  define mid where "mid = lo + (hi - lo) div 2"
  have step: "find_service_loop t req lo hi =
      (if lo < hi then if req_id (t ! mid) = req then Some (t ! mid)
         else if req_id (t ! mid) < req then find_service_loop t req (mid + 1) hi else find_service_loop t req lo mid
       else None)"
    by (subst find_service_loop.simps) (simp add: mid_def Let_def)
  show ?case
  proof (cases "lo < hi \<and> req_id (t ! mid) = req")
    case True
    then have "mid < length t" using "1.prems"(2) unfolding mid_def by linarith
    then show ?thesis using True "1.prems"(1) step by auto
  next
    case False
    have "mid \<le> hi" if "lo < hi" using that unfolding mid_def by linarith
    then show ?thesis
      using "1.IH" [OF _ mid_def refl] "1.prems" False step by (auto split: if_splits)
  qed
qed

lemma find_service_loop_complete:
  assumes "sorted_wrt (<) (map req_id t)" "hi \<le> length t" "lo \<le> i" "i < hi" "req_id (t ! i) = req"
  shows "find_service_loop t req lo hi = Some (t ! i)"
  using assms
proof (induction t req lo hi rule: find_service_loop.induct)
  case (1 t req lo hi)
  define mid where "mid = lo + (hi - lo) div 2"
  have mid: "lo \<le> mid" "mid < hi" using "1.prems"(3,4) unfolding mid_def by linarith+
  have less: "req_id (t ! a) < req_id (t ! b)" if "a < b" "b < length t" for a b
    using sorted_wrt_nth_less [OF "1.prems"(1), of a b] that by simp
  have step: "find_service_loop t req lo hi =
      (if req_id (t ! mid) = req then Some (t ! mid)
       else if req_id (t ! mid) < req then find_service_loop t req (mid + 1) hi else find_service_loop t req lo mid)"
    using mid by (subst find_service_loop.simps) (simp add: mid_def Let_def)
  consider "mid = i" | "mid < i" | "i < mid" by linarith
  then show ?case
  proof cases
    case 1
    then show ?thesis using step "1.prems"(5) by simp
  next
    case 2
    then have "req_id (t ! mid) < req" using less [of mid i] "1.prems"(2,4,5) by simp
    then show ?thesis using step 2 "1.IH"(1) [OF _ mid_def refl] mid "1.prems" by simp
  next
    case 3
    then have "req < req_id (t ! mid)" using less [of i mid] mid "1.prems"(2,5) by simp
    then have "\<not> req_id (t ! mid) < req" "req_id (t ! mid) \<noteq> req" by auto
    then show ?thesis using step 3 "1.IH"(2) [OF _ mid_def refl] mid "1.prems" by simp
  qed
qed

lemma find_service_loop_linear:
  assumes "sorted_wrt (<) (map req_id t)"
  shows "find_service_loop t req 0 (length t) = find (\<lambda>d. req_id d = req) t"
proof (cases "find (\<lambda>d. req_id d = req) t")
  case None
  then have none: "\<forall>d \<in> set t. req_id d \<noteq> req" by (simp add: find_None_iff)
  show ?thesis
  proof (cases "find_service_loop t req 0 (length t)")
    case (Some d)
    from find_service_loop_Some [OF this le_refl] none show ?thesis by blast
  qed (simp add: None)
next
  case (Some d)
  then obtain i where "i < length t" "req_id (t ! i) = req" "t ! i = d" by (auto simp: find_Some_iff)
  then show ?thesis using find_service_loop_complete [OF assms le_refl le0, of i req] Some by simp
qed

lemma services_sorted: "sorted_wrt (<) (map req_id g_supported_services)"
proof -
  have "successively (<) (map req_id g_supported_services)"
    by (simp add: g_supported_services_def service_row_def)
  then show ?thesis by (simp add: successively_conv_sorted_wrt)
qed

section \<open>The session checks\<close>

lemma server_secure_channel_updates [simp]:
  "server_secure_channel (server\<lparr>active_session := a\<rparr>) = server_secure_channel server"
  "server_secure_channel (server\<lparr>return_diagnostics := r\<rparr>) = server_secure_channel server"
  "server_secure_channel (server\<lparr>diag := d\<rparr>) = server_secure_channel server"
  "server_secure_channel (server\<lparr>sessions := ss\<rparr>) = server_secure_channel server"
  by (simp_all add: server_secure_channel_def split: option.split)

lemma request_rejected_frame: "mu_diagnostics_request_rejected b server = server\<lparr>diag := diag (mu_diagnostics_request_rejected b server)\<rparr>"
  by (simp add: mu_diagnostics_request_rejected_def)

lemma check_session_Inl:
  assumes "check_session tick server body = Inl (st, server')"
  shows "st \<noteq> MU_STATUS_GOOD" "server' = server\<lparr>diag := diag server'\<rparr>"
proof -
  have "\<exists>b. server' = mu_diagnostics_request_rejected b server" "st \<noteq> MU_STATUS_GOOD"
    using assms by (auto simp: check_session_def Let_def split: if_splits option.splits)
  then show "st \<noteq> MU_STATUS_GOOD" "server' = server\<lparr>diag := diag server'\<rparr>"
    using request_rejected_frame by metis+
qed

lemma check_session_Inr:
  assumes "check_session tick server body = Inr server'"
  obtains i where "i < length (sessions server)" "auth_token (sessions server ! i) = read_auth_token_from_request body"
    "auth_token (sessions server ! i) \<noteq> 0" "ss_state (sessions server ! i) = MU_SESSION_STATE_ACTIVATED"
    "ss_secure_channel_id (sessions server ! i) = channel_id (server_secure_channel server)"
    "server' = server\<lparr>active_session := Some i,
        sessions := (case tick of None \<Rightarrow> sessions server
          | Some t \<Rightarrow> (sessions server)[i := (sessions server ! i)\<lparr>ss_last_activity_ms := t\<rparr>])\<rparr>"
proof -
  define token where "token = read_auth_token_from_request body"
  obtain i where i: "token \<noteq> 0" "mu_session_find_by_token (sessions server) token = Some i"
    "mu_session_validate_secure_channel (sessions server ! i) (channel_id (server_secure_channel server)) = MU_STATUS_GOOD"
    "ss_state (sessions server ! i) = MU_SESSION_STATE_ACTIVATED"
    "server' = server\<lparr>active_session := Some i,
        sessions := (case tick of None \<Rightarrow> sessions server
          | Some t \<Rightarrow> (sessions server)[i := (sessions server ! i)\<lparr>ss_last_activity_ms := t\<rparr>])\<rparr>"
    using assms unfolding check_session_def Let_def token_def [symmetric]
    by (auto split: if_splits option.splits)
  have f: "i < length (sessions server)" "auth_token (sessions server ! i) = token" using find_by_token_Some [OF i(2)] by auto
  have c: "ss_secure_channel_id (sessions server ! i) = channel_id (server_secure_channel server)"
    using i(3) by (simp add: mu_session_validate_secure_channel_def split: if_splits)
  show ?thesis by (rule that [of i]) (use i f c in \<open>simp_all add: token_def\<close>)
qed

text \<open>
  What a request that passed the session checks found: the activated session its token names, bound to
  the channel of the request, which is now the active one and was touched.
\<close>

definition session_admitted :: "opcua_uint64_t option \<Rightarrow> 'a mu_server \<Rightarrow> bytes \<Rightarrow> 'a mu_server \<Rightarrow> bool" where
  "session_admitted tick server body server' \<longleftrightarrow>
    (\<exists>i session. active_session server' = Some i \<and> i < length (sessions server) \<and> sessions server ! i = session \<and>
       auth_token session = read_auth_token_from_request body \<and> auth_token session \<noteq> 0 \<and>
       ss_state session = MU_SESSION_STATE_ACTIVATED \<and>
       ss_secure_channel_id session = channel_id (server_secure_channel server) \<and>
       server' = server\<lparr>active_session := Some i, return_diagnostics := read_return_diagnostics_from_request body,
         sessions := (case tick of None \<Rightarrow> sessions server
            | Some t \<Rightarrow> (sessions server)[i := session\<lparr>ss_last_activity_ms := t\<rparr>])\<rparr>)"

lemma check_session_admits:
  assumes "check_session tick (server\<lparr>active_session := None, return_diagnostics := 0\<rparr>) body = Inr server'"
  shows "session_admitted tick server body (server'\<lparr>return_diagnostics := read_return_diagnostics_from_request body\<rparr>)"
  using assms
proof (rule check_session_Inr)
  let ?sv = "server\<lparr>active_session := None, return_diagnostics := 0\<rparr>"
  fix i
  assume i: "i < length (sessions ?sv)" "auth_token (sessions ?sv ! i) = read_auth_token_from_request body"
    "auth_token (sessions ?sv ! i) \<noteq> 0" "ss_state (sessions ?sv ! i) = MU_SESSION_STATE_ACTIVATED"
    "ss_secure_channel_id (sessions ?sv ! i) = channel_id (server_secure_channel ?sv)"
    "server' = ?sv\<lparr>active_session := Some i, sessions := (case tick of None \<Rightarrow> sessions ?sv
       | Some t \<Rightarrow> (sessions ?sv)[i := (sessions ?sv ! i)\<lparr>ss_last_activity_ms := t\<rparr>])\<rparr>"
  have eq: "server'\<lparr>return_diagnostics := read_return_diagnostics_from_request body\<rparr> =
      server\<lparr>active_session := Some i, return_diagnostics := read_return_diagnostics_from_request body,
        sessions := (case tick of None \<Rightarrow> sessions server
          | Some t \<Rightarrow> (sessions server)[i := (sessions server ! i)\<lparr>ss_last_activity_ms := t\<rparr>])\<rparr>"
    unfolding i(6) by (simp split: option.split)
  show ?thesis
    unfolding session_admitted_def eq
    by (rule exI [of _ i], rule exI [of _ "sessions server ! i"]) (use i(1-5) in simp)
qed

section \<open>Properties\<close>

text \<open>
  C28.  Looking a service up.  The binary search over the table of services returns, for every request
  type, exactly what a linear search returns; it always ends, and since the table is strictly
  ascending the entry is the only one for that request type.
\<close>

theorem service_lookup_exact:
  "find_service_descriptor req = find (\<lambda>d. req_id d = req) g_supported_services \<and>
   distinct (map req_id g_supported_services)"
  using find_service_loop_linear [OF services_sorted] services_sorted
  by (simp add: find_service_descriptor_def strict_sorted_iff)

text \<open>
  C29.  No service runs without its session.  A request either reaches the service function the table
  names for it, or it is refused with an error status, the response buffer untouched and nothing in
  the server changed but the counters and the per-request fields.  Every service but OpenSecureChannel
  runs only on an open channel, and a service that requires a session runs only when the request
  carries the nonzero token of an activated session that is bound to the channel the request came
  through, and that session is the active one.
\<close>

theorem dispatch_gate:
  assumes "mu_service_dispatch functions tick server req body resp n = result"
  shows "(\<exists>st dg. result = (st, n, resp, server\<lparr>active_session := None, return_diagnostics := 0, diag := dg\<rparr>) \<and>
       st \<noteq> MU_STATUS_GOOD) \<or>
    (\<exists>d server'. find_service_descriptor req = Some d \<and> result = functions (desc_handler d) server' body resp n \<and>
       (req \<noteq> MU_ID_OPENSECURECHANNELREQUEST \<longrightarrow> is_open (server_secure_channel server)) \<and>
       (if svc_requires_session (desc_service d) then session_admitted tick server body server'
        else server' = server\<lparr>active_session := None, return_diagnostics := read_return_diagnostics_from_request body\<rparr>))"
proof -
  define sv where "sv = server\<lparr>active_session := None, return_diagnostics := 0\<rparr>"
  note def = mu_service_dispatch_def [of "functions" "tick" "server" "req" "body" "resp" "n", folded sv_def, unfolded Let_def, symmetric, unfolded assms]
  have ch: "server_secure_channel sv = server_secure_channel server" by (simp add: sv_def)
  have refused: ?thesis if "result = (st, n, resp, sv\<lparr>diag := dg\<rparr>)" "st \<noteq> MU_STATUS_GOOD" for st dg
    using that unfolding sv_def by blast
  show ?thesis
  proof (cases "find_service_descriptor req")
    case None
    then have "result = (MU_STATUS_BAD_SERVICEUNSUPPORTED, n, resp, sv\<lparr>diag := diag sv\<rparr>)" using def by simp
    then show ?thesis by (rule refused) simp
  next
    case (Some d)
    show ?thesis
    proof (cases "req \<noteq> MU_ID_OPENSECURECHANNELREQUEST \<and> \<not> is_open (server_secure_channel sv)")
      case True
      then have "result = (MU_STATUS_BAD_SECURECHANNELIDINVALID, n, resp, sv\<lparr>diag := diag sv\<rparr>)" using def Some by simp
      then show ?thesis by (rule refused) simp
    next
      case chan: False
      then have op: "req \<noteq> MU_ID_OPENSECURECHANNELREQUEST \<longrightarrow> is_open (server_secure_channel server)" using ch by metis
      show ?thesis
      proof (cases "svc_requires_session (desc_service d)")
        case False
        have r: "result = functions (desc_handler d)
            (sv\<lparr>return_diagnostics := read_return_diagnostics_from_request body\<rparr>) body resp n"
          using def Some chan False by auto
        show ?thesis
          by (rule disjI2, rule exI [of _ d], rule exI [of _ "sv\<lparr>return_diagnostics := read_return_diagnostics_from_request body\<rparr>"],
              rule conjI [OF Some conjI [OF r conjI [OF op]]]) (simp add: False sv_def)
      next
        case needs: True
        show ?thesis
        proof (cases "check_session tick sv body")
          case (Inl r)
          obtain st sv' where r: "r = (st, sv')" by fastforce
          note c = check_session_Inl [OF Inl [unfolded r]]
          have "result = (st, n, resp, sv')" using def Some chan needs Inl r by simp
          moreover obtain dg where "sv' = sv\<lparr>diag := dg\<rparr>" using c(2) by blast
          ultimately show ?thesis using refused [OF _ c(1), of dg] by simp
        next
          case (Inr sv')
          have r: "result = functions (desc_handler d)
              (sv'\<lparr>return_diagnostics := read_return_diagnostics_from_request body\<rparr>) body resp n"
            using def Some chan needs Inr by simp
          show ?thesis
            by (rule disjI2, rule exI [of _ d], rule exI [of _ "sv'\<lparr>return_diagnostics := read_return_diagnostics_from_request body\<rparr>"],
                rule conjI [OF Some conjI [OF r conjI [OF op]]], unfold if_P [OF needs])
              (rule check_session_admits [OF Inr [unfolded sv_def]])
        qed
      qed
    qed
  qed
qed


text \<open>A server with one activated session, bound to the open channel of its only connection.\<close>

definition sample_server :: "unit mu_server" where
  "sample_server = \<lparr>conns = [sample_connection], active_conn = Some 0, sv_secure_channel = sample_channel,
     sv_tcp_conn = mu_tcp_connection_init, sv_client_handle = None,
     chunk_assembly = \<lparr>ca_buffer = [], ca_length = 0, ca_secure_channel_id = 0, ca_token_id = 0, ca_is_active = False\<rparr>,
     opn_pending_security_policy = null_string, opn_pending_client_cert = null_string,
     channel_client_cert = [], channel_client_cert_len = 0,
     sessions = [sample_session\<lparr>ss_state := MU_SESSION_STATE_ACTIVATED, auth_token := 77, session_id := 3, ss_secure_channel_id := 5\<rparr>],
     active_session = None, return_diagnostics = 0, current_request_id = 0, send_buffer = [], tcp_calls = [],
     diag = \<lparr>server_view_count = 0, current_session_count = 1, cumulated_session_count = 1,
       security_rejected_session_count = 0, rejected_session_count = 0, session_timeout_count = 0, session_abort_count = 0,
       current_subscription_count = 0, cumulated_subscription_count = 0, publishing_interval_count = 0,
       security_rejected_requests_count = 0, rejected_requests_count = 0\<rparr>, sv_rest = ()\<rparr>"

definition echo_status :: "service_function \<Rightarrow> unit service_call" where
  "echo_status f server body resp n = (MU_STATUS_GOOD, 0, resp, server)"

lemma sample_dispatch:
  "mu_service_dispatch echo_status None sample_server MU_ID_READREQUEST [0, 77] [] 8 =
    (MU_STATUS_GOOD, 0, [], sample_server\<lparr>active_session := Some 0, return_diagnostics := read_return_diagnostics_from_request [0, 77]\<rparr>)"
proof -
  have f: "find_service_descriptor MU_ID_READREQUEST = Some (service_row MU_ID_READREQUEST MU_ID_READRESPONSE True HANDLE_READ)"
    unfolding find_service_descriptor_def find_service_loop_linear [OF services_sorted]
    by (simp add: g_supported_services_def service_row_def)
  have t: "read_auth_token_from_request [0, 77] = 77"
    by (simp add: read_auth_token_from_request_def mu_binary_read_nodeid_def rd_bind_def rd_return_def
        mu_binary_read_byte_def mu_binary_reader_init_def ensure_bytes_def rd_take_def slice_def Let_def)
  have "server_secure_channel sample_server = sample_channel\<lparr>channel_id := 5, is_open := True\<rparr>"
    by (simp add: sample_server_def server_secure_channel_def sample_connection_def)
  moreover have "mu_session_find_by_token (sessions sample_server) 77 = Some 0"
    by (simp add: sample_server_def mu_session_find_by_token_def)
  ultimately show ?thesis
    by (simp add: mu_service_dispatch_def f check_session_def t service_row_def echo_status_def Let_def
        mu_session_validate_secure_channel_def) (simp add: sample_server_def)
qed

theorem dispatch_gate_witness:
  "\<exists>server'. mu_service_dispatch echo_status None sample_server MU_ID_READREQUEST [0, 77] [] 8 =
     (MU_STATUS_GOOD, 0, [], server') \<and> active_session server' = Some 0"
  using dispatch_gate [OF sample_dispatch] sample_dispatch by (auto simp: session_admitted_def)

end
