(* ===== verification/Mu_Open_Channel.thy ===== *)
theory Mu_Open_Channel
  imports Mu_Asym_Chunk Mu_Dispatch
begin

unbundle bit_operations_syntax

text \<open>
  The OpenSecureChannel and CloseSecureChannel services: \<^verbatim>\<open>src/core/service_dispatch/osc_handler.c\<close>, and from
  \<^verbatim>\<open>src/core/service_dispatch/reader_helpers.c\<close> the hand-over of the policy and the certificate of a
  received OPN to the service.

  The configuration is a record: adapters are the functions or values they return while one message
  is handled.  The crypto adapter has the two groups of functions used for symmetric and for asymmetric
  chunks, and those of the ephemeral key exchange.  Raising an audit event acts on the part of the
  server that dispatching does not touch and is a function of the configuration.
\<close>

section \<open>Configuration\<close>

text \<open>
  \<open>ecc_generate_ephemeral\<close> maps the curve and the room for the public key to the public key and the
  key pair; \<open>ecc_ecdh_derive\<close> maps the curve, the key pair, the peer's public key and the room for the
  shared secret to the secret.
\<close>

record mu_crypto =
  cr_sym :: mu_crypto_adapter
  cr_asym :: mu_asym_adapter
  ecc_generate_ephemeral :: "(mu_ecc_curve \<Rightarrow> nat \<Rightarrow> opcua_statuscode_t + bytes \<times> bytes) option"
  ecc_ecdh_derive :: "(mu_ecc_curve \<Rightarrow> bytes \<Rightarrow> bytes \<Rightarrow> nat \<Rightarrow> opcua_statuscode_t + bytes) option"

text \<open>
  The time and the tick are those of the clock adapter, the time 0 without one; \<open>tcp_write\<close> is the status
  and the number of bytes the TCP adapter reports for a write; \<open>cf_scratch\<close> is what the scratch memory
  holds before a response is built in its first region.
\<close>

record 'a mu_server_config =
  cf_transport :: mu_transport_config
  crypto_adapter :: "mu_crypto option"
  entropy_adapter :: entropy
  cf_time :: opcua_datetime_t
  cf_tick :: "opcua_uint64_t option"
  acceptable_clock_skew_ns :: opcua_uint64_t
  allow_untrusted_clients :: bool
  cf_trust_list :: "mu_trust_list option"
  tcp_write :: "bytes \<Rightarrow> opcua_statuscode_t \<times> nat"
  cf_scratch :: bytes
  cf_raise_audit :: "bytes \<Rightarrow> bool \<Rightarrow> 'a \<Rightarrow> 'a"

section \<open>Handing over the OPN\<close>

definition mu_service_dispatch_set_opn_security_policy :: "mu_string option \<Rightarrow> 'a mu_server \<Rightarrow> 'a mu_server" where
  "mu_service_dispatch_set_opn_security_policy security_policy server =
    server\<lparr>opn_pending_security_policy := (case security_policy of None \<Rightarrow> null_string | Some s \<Rightarrow> s)\<rparr>"

definition current_opn_security_policy :: "'a mu_server \<Rightarrow> mu_string" where
  "current_opn_security_policy server = opn_pending_security_policy server"

definition mu_service_dispatch_set_opn_client_cert :: "mu_bytestring option \<Rightarrow> 'a mu_server \<Rightarrow> 'a mu_server" where
  "mu_service_dispatch_set_opn_client_cert client_cert server =
    (case client_cert of
       None \<Rightarrow> server\<lparr>opn_pending_client_cert := null_string\<rparr>
     | Some c \<Rightarrow>
       let server = server\<lparr>opn_pending_client_cert := c\<rparr> in
       (case str_data c of
          Some data \<Rightarrow>
            if sint (str_length c) > 0 \<and> unat (str_length c) \<le> length (channel_client_cert server) then
              server\<lparr>channel_client_cert := put_at 0 (take (unat (str_length c)) data) (channel_client_cert server),
                     channel_client_cert_len := unat (str_length c)\<rparr>
            else server\<lparr>channel_client_cert_len := 0\<rparr>
        | None \<Rightarrow> server\<lparr>channel_client_cert_len := 0\<rparr>))"

definition current_opn_client_cert :: "'a mu_server \<Rightarrow> mu_bytestring" where
  "current_opn_client_cert server = opn_pending_client_cert server"

section \<open>The audit event\<close>

text \<open>The digits of the channel id, the last one first.\<close>

function reversed_digits :: "opcua_uint32_t \<Rightarrow> bytes" where
  "reversed_digits cid =
    (let d = 0x30 + ucast (cid mod 10) in if cid div 10 \<noteq> 0 then d # reversed_digits (cid div 10) else [d])"
  by pat_completeness auto
termination
proof (relation "measure unat")
  fix d :: opcua_byte_t and cid :: opcua_uint32_t
  assume "cid div 10 \<noteq> 0"
  then have "unat (cid div 10) \<noteq> 0" by (simp add: unat_eq_zero)
  then have "unat cid div 10 \<noteq> 0" by (simp add: unat_div)
  then show "(cid div 10, cid) \<in> measure unat" by (simp add: unat_div)
qed simp

declare reversed_digits.simps [simp del]

definition raise_open_secure_channel_audit :: "'a mu_server_config \<Rightarrow> opcua_statuscode_t \<Rightarrow> 'a mu_server \<Rightarrow> 'a mu_server" where
  "raise_open_secure_channel_audit cfg status server =
    server\<lparr>sv_rest := cf_raise_audit cfg (rev (reversed_digits (channel_id (server_secure_channel server))))
      (status = MU_STATUS_GOOD) (sv_rest server)\<rparr>"

section \<open>The OpenSecureChannel service\<close>

abbreviation (input) MU_TIME_SYNC_MAX_CLOCK_SKEW_MS :: opcua_uint64_t where "MU_TIME_SYNC_MAX_CLOCK_SKEW_MS \<equiv> 300000"
abbreviation (input) MU_SERVER_NONCE_LENGTH :: nat where "MU_SERVER_NONCE_LENGTH \<equiv> 32"
abbreviation (input) MU_OPC_UA_TCP_PROTOCOL_VERSION :: opcua_uint32_t where "MU_OPC_UA_TCP_PROTOCOL_VERSION \<equiv> 0"

definition enforce_osc_application_auth :: "'a mu_server_config \<Rightarrow> 'a mu_server \<Rightarrow> opcua_statuscode_t" where
  "enforce_osc_application_auth cfg server =
    (if sc_policy (server_secure_channel server) \<noteq> MU_SECURITY_POLICY_NONE_ID \<and>
        sc_policy (server_secure_channel server) \<noteq> MU_SECURITY_POLICY_INVALID_ID \<and> \<not> allow_untrusted_clients cfg then
       (if cf_trust_list cfg = None then MU_STATUS_BAD_SECURITYCHECKSFAILED
        else
          let client_cert = current_opn_client_cert server in
          if sint (str_length client_cert) \<le> 0 then MU_STATUS_BAD_SECURITYCHECKSFAILED
          else if mu_trust_list_match (cf_trust_list cfg) (map_option (take (unat (str_length client_cert))) (str_data client_cert)) \<noteq>
                  MU_STATUS_GOOD
          then MU_STATUS_BAD_SECURITYCHECKSFAILED
          else MU_STATUS_GOOD)
     else MU_STATUS_GOOD)"

definition encode_osc_security_token ::
  "'a mu_server_config \<Rightarrow> opcua_uint32_t \<Rightarrow> opcua_uint32_t \<Rightarrow> bytes \<Rightarrow> 'a mu_server \<Rightarrow> wr" where
  "encode_osc_security_token cfg request_handle revised nonce server =
    wr_seq (write_response_prefix (cf_time cfg) MU_ID_OPENSECURECHANNELRESPONSE request_handle MU_STATUS_GOOD server)
    (wr_void (mu_binary_write_uint32 MU_OPC_UA_TCP_PROTOCOL_VERSION)
    (wr_void (mu_binary_write_uint32 (channel_id (server_secure_channel server)))
    (wr_void (mu_binary_write_uint32 (token_id (server_secure_channel server)))
    (wr_void (mu_binary_write_int64 (cf_time cfg))
    (wr_void (mu_binary_write_uint32 revised)
    (wr_seq writer_status
       (mu_binary_write_bytestring \<lparr>str_length = of_nat (length nonce), str_data = Some nonce\<rparr>)))))))"

text \<open>
  The request.  Three fields are read before the status of the reader is looked at; a failed read fails
  the following ones with its status, so that this is the status of the first one that fails.
\<close>

record open_request =
  oq_request_handle :: opcua_uint32_t
  oq_security_mode :: mu_message_security_mode
  oq_client_nonce :: mu_bytestring
  oq_requested_lifetime :: opcua_uint32_t

definition read_open_request :: "'a mu_server_config \<Rightarrow> open_request rd" where
  "read_open_request cfg =
    rd_bind mu_request_header_decode (\<lambda>req.
    let max_skew_ns = (if acceptable_clock_skew_ns cfg \<noteq> 0 then acceptable_clock_skew_ns cfg
                       else MU_TIME_SYNC_MAX_CLOCK_SKEW_MS * 1000000) in
    if \<not> mu_opn_time_sync_allows (cf_time cfg) (rq_timestamp req) max_skew_ns
    then rd_error MU_STATUS_BAD_SECURITYCHECKSFAILED
    else
      rd_bind mu_binary_read_uint32 (\<lambda>client_proto.
      rd_bind mu_binary_read_uint32 (\<lambda>request_type.
      rd_bind mu_binary_read_uint32 (\<lambda>security_mode.
      if request_type > 1 then rd_error MU_STATUS_BAD_REQUESTTYPEINVALID
      else
        rd_bind mu_binary_read_bytestring (\<lambda>client_nonce.
        if validate_client_nonce client_nonce \<noteq> MU_STATUS_GOOD then rd_error (validate_client_nonce client_nonce)
        else
          rd_bind mu_binary_read_uint32 (\<lambda>requested_lifetime.
          rd_return \<lparr>oq_request_handle = rq_request_handle req, oq_security_mode = security_mode,
            oq_client_nonce = client_nonce, oq_requested_lifetime = requested_lifetime\<rparr>))))))"

text \<open>
  The channel is opened or renewed and, when it was not open, given an id no other connection uses.
  An index outside the array stands for a missing active connection: no connection is skipped then.
\<close>

definition unique_server_channel_id :: "'a mu_server \<Rightarrow> opcua_statuscode_t \<times> 'a mu_server" where
  "unique_server_channel_id server =
    (case unique_id_loop (conns server) (case active_conn server of Some i \<Rightarrow> i | None \<Rightarrow> length (conns server))
            (channel_id (server_secure_channel server)) (Suc (length (conns server))) of
       Some candidate \<Rightarrow>
         (MU_STATUS_GOOD, set_secure_channel ((server_secure_channel server)\<lparr>channel_id := candidate\<rparr>) server)
     | None \<Rightarrow> (MU_STATUS_BAD_SECURITYCHECKSFAILED, server))"

definition open_server_channel ::
  "'a mu_server_config \<Rightarrow> open_request \<Rightarrow> 'a mu_server \<Rightarrow> (opcua_statuscode_t + opcua_uint32_t) \<times> 'a mu_server" where
  "open_server_channel cfg q server =
    (case mu_secure_channel_open (server_secure_channel server) (Some (current_opn_security_policy server))
            (oq_security_mode q) (oq_requested_lifetime q) (entropy_adapter cfg) of
       (Inl s, c) \<Rightarrow> (Inl s, set_secure_channel c server)
     | (Inr revised, c) \<Rightarrow>
       let channel_was_open = is_open (server_secure_channel server);
           server = set_secure_channel c server in
       (case (if channel_was_open then (MU_STATUS_GOOD, server) else unique_server_channel_id server) of
          (s, server) \<Rightarrow>
            if s \<noteq> MU_STATUS_GOOD
            then (Inl s, set_secure_channel (fst (snd (mu_secure_channel_close (server_secure_channel server)))) server)
            else (case enforce_osc_application_auth cfg server of
              s \<Rightarrow> if s \<noteq> MU_STATUS_GOOD then (Inl s, server) else (Inr revised, server))))"

text \<open>The server nonce, and for an elliptic-curve policy the curve and the ephemeral key pair.\<close>

definition is_ecc_channel :: "'a mu_server_config \<Rightarrow> mu_secure_channel \<Rightarrow> bool" where
  "is_ecc_channel cfg c \<longleftrightarrow>
    crypto_adapter cfg \<noteq> None \<and> mu_security_policy_asym_family (sc_policy c) = MU_ASYM_FAMILY_ECC"

definition make_server_nonce ::
  "'a mu_server_config \<Rightarrow> mu_secure_channel \<Rightarrow> mu_bytestring \<Rightarrow> opcua_statuscode_t + bytes \<times> (mu_ecc_curve \<times> bytes) option" where
  "make_server_nonce cfg c client_nonce =
    (if is_ecc_channel cfg c then
       (let cr = the (crypto_adapter cfg) in
        case (ecc_generate_ephemeral cr, ecc_ecdh_derive cr, mu_security_policy_ecc_curve (sc_policy c)) of
          (Some generate, Some _, Some ecc_curve) \<Rightarrow>
            (case generate ecc_curve MU_ECC_MAX_PUBKEY_LENGTH of
               Inl s \<Rightarrow> Inl s
             | Inr (nonce, keypair) \<Rightarrow>
                 if length nonce \<noteq> mu_security_policy_nonce_length (sc_policy c) \<or>
                    str_length client_nonce \<noteq> of_nat (length nonce)
                 then Inl MU_STATUS_BAD_NONCEINVALID
                 else Inr (nonce, Some (ecc_curve, keypair)))
        | _ \<Rightarrow> Inl MU_STATUS_BAD_SECURITYPOLICYREJECTED)
     else (case entropy_adapter cfg of
             None \<Rightarrow> Inl MU_STATUS_BAD_SECURITYCHECKSFAILED
           | Some generate_random \<Rightarrow> (case generate_random MU_SERVER_NONCE_LENGTH of
               Inl _ \<Rightarrow> Inl MU_STATUS_BAD_SECURITYCHECKSFAILED
             | Inr nonce \<Rightarrow> Inr (nonce, None))))"

text \<open>The keys of both directions; also on an error the channel keeps what was stored so far.\<close>

definition derive_channel_keys ::
  "mu_crypto \<Rightarrow> bytes \<Rightarrow> (mu_ecc_curve \<times> bytes) option \<Rightarrow> bytes \<Rightarrow> mu_secure_channel \<Rightarrow> opcua_statuscode_t \<times> mu_secure_channel" where
  "derive_channel_keys cr nonce ephemeral client_nonce c =
    (case ephemeral of
       Some (ecc_curve, keypair) \<Rightarrow>
         (case the (ecc_ecdh_derive cr) ecc_curve keypair client_nonce MU_ECC_MAX_PUBKEY_LENGTH of
            Inl s \<Rightarrow> (s, c)
          | Inr shared \<Rightarrow>
            (case mu_ecc_derive_channel_keys (cr_sym cr) (sc_policy c) shared True nonce client_nonce of
               (s, keys) \<Rightarrow>
                 let c = c\<lparr>server_keys := keys\<rparr> in
                 if s \<noteq> MU_STATUS_GOOD then (s, c)
                 else (case mu_ecc_derive_channel_keys (cr_sym cr) (sc_policy c) shared False nonce client_nonce of
                   (s, keys) \<Rightarrow> (s, c\<lparr>client_keys := keys\<rparr>))))
     | None \<Rightarrow>
         (case mu_sym_keys_derive (cr_sym cr) (sc_policy c) (Some nonce) (Some client_nonce) of
            (s, keys) \<Rightarrow>
              let c = c\<lparr>client_keys := keys\<rparr> in
              if s \<noteq> MU_STATUS_GOOD then (s, c)
              else (case mu_sym_keys_derive (cr_sym cr) (sc_policy c) (Some client_nonce) (Some nonce) of
                (s, keys) \<Rightarrow> (s, c\<lparr>server_keys := keys\<rparr>))))"

definition install_channel_keys ::
  "'a mu_server_config \<Rightarrow> bytes \<Rightarrow> (mu_ecc_curve \<times> bytes) option \<Rightarrow> mu_bytestring \<Rightarrow> mu_secure_channel \<Rightarrow>
   opcua_statuscode_t \<times> mu_secure_channel" where
  "install_channel_keys cfg nonce ephemeral client_nonce c =
    (case crypto_adapter cfg of
       Some cr \<Rightarrow>
         if sc_policy c \<noteq> MU_SECURITY_POLICY_NONE_ID \<and> sc_policy c \<noteq> MU_SECURITY_POLICY_INVALID_ID then
           (if sint (str_length client_nonce) \<le> 0 then (MU_STATUS_BAD_SECURITYCHECKSFAILED, c)
            else (case derive_channel_keys cr nonce ephemeral
                         (take (unat (str_length client_nonce)) (the (str_data client_nonce))) c of
              (s, c) \<Rightarrow>
                if s \<noteq> MU_STATUS_GOOD then (s, c)
                else (MU_STATUS_GOOD, c\<lparr>keys_valid := True,
                       client_keys := fst (mu_sym_keys_prepare_cipher (client_keys c) (Some (cr_sym cr))),
                       server_keys := fst (mu_sym_keys_prepare_cipher (server_keys c) (Some (cr_sym cr)))\<rparr>)))
         else (MU_STATUS_GOOD, c)
     | None \<Rightarrow> (MU_STATUS_GOOD, c))"

definition handle_open_secure_channel_impl ::
  "'a mu_server_config \<Rightarrow> 'a mu_server \<Rightarrow> mu_binary_reader \<Rightarrow> mu_binary_writer \<Rightarrow> nat \<Rightarrow>
   opcua_statuscode_t \<times> nat \<times> mu_binary_writer \<times> 'a mu_server" where
  "handle_open_secure_channel_impl cfg server r w response_length =
    (case read_open_request cfg r of
       (Inl s, _) \<Rightarrow> (s, response_length, w, server)
     | (Inr q, _) \<Rightarrow> (case open_server_channel cfg q server of
         (Inl s, server) \<Rightarrow> (s, response_length, w, server)
       | (Inr revised, server) \<Rightarrow>
         (case make_server_nonce cfg (server_secure_channel server) (oq_client_nonce q) of
            Inl s \<Rightarrow> (s, response_length, w, server)
          | Inr (nonce, ephemeral) \<Rightarrow>
            (case encode_osc_security_token cfg (oq_request_handle q) revised nonce server w of
               (s, w) \<Rightarrow>
                 if s \<noteq> MU_STATUS_GOOD then (s, response_length, w, server)
                 else (case install_channel_keys cfg nonce ephemeral (oq_client_nonce q)
                              ((server_secure_channel server)\<lparr>sc_mode := oq_security_mode q\<rparr>) of
                   (s, c) \<Rightarrow>
                     (s, if s \<noteq> MU_STATUS_GOOD then response_length else wr_position w, w, set_secure_channel c server))))))"

definition handle_open_secure_channel :: "'a mu_server_config \<Rightarrow> 'a service_call" where
  "handle_open_secure_channel cfg server request_body response_body response_length =
    (case handle_open_secure_channel_impl cfg server
            (mu_binary_reader_init (Some request_body) (length request_body))
            (mu_binary_writer_init (Some response_body) response_length) response_length of
       (status, n, w, server) \<Rightarrow>
         (status, n, the (wr_buffer w), raise_open_secure_channel_audit cfg status server))"

definition handle_close_secure_channel :: "'a mu_server_config \<Rightarrow> 'a service_call" where
  "handle_close_secure_channel cfg server request_body response_body response_length =
    (case mu_request_header_decode (mu_binary_reader_init (Some request_body) (length request_body)) of
       (Inl s, _) \<Rightarrow> (s, response_length, response_body, server)
     | (Inr req, _) \<Rightarrow> (case mu_secure_channel_close (server_secure_channel server) of
         (s, c, _) \<Rightarrow>
           let server = set_secure_channel c server in
           if s \<noteq> MU_STATUS_GOOD then (s, response_length, response_body, server)
           else (case write_response_prefix (cf_time cfg) MU_ID_CLOSESECURECHANNELRESPONSE (rq_request_handle req)
                        MU_STATUS_GOOD server (mu_binary_writer_init (Some response_body) response_length) of
             (s, w) \<Rightarrow> (s, if s \<noteq> MU_STATUS_GOOD then response_length else wr_position w, the (wr_buffer w), server))))"

section \<open>The digits of the audit event\<close>

text \<open>The digits fit the ten-byte buffers of the audit event, and they spell the channel id.\<close>

lemma reversed_digits_fit: "unat cid < 10 ^ n \<Longrightarrow> 0 < n \<Longrightarrow> length (reversed_digits cid) \<le> n"
proof (induction n arbitrary: cid)
  case (Suc n)
  show ?case
  proof (cases "cid div 10 = 0")
    case False
    then have "unat (cid div 10) \<noteq> 0" by (simp add: unat_eq_zero)
    then have "10 \<le> unat cid" by (simp add: unat_div)
    then have "0 < n" using Suc.prems(1) by (cases n) simp_all
    then show ?thesis using Suc.IH [of "cid div 10"] Suc.prems(1) False
      by (subst reversed_digits.simps) (simp add: unat_div less_mult_imp_div_less mult.commute)
  qed (subst reversed_digits.simps, simp)
qed simp

lemma reversed_digits_length: "length (reversed_digits cid) \<le> 10"
proof -
  have "unat cid < 10 ^ 10" using unsigned_less [of cid, where ?'a = nat] by simp
  then show ?thesis by (rule reversed_digits_fit) simp
qed

section \<open>The active channel\<close>

definition conn_ok :: "'a mu_server \<Rightarrow> bool" where
  "conn_ok server \<longleftrightarrow> (case active_conn server of Some i \<Rightarrow> i < length (conns server) | None \<Rightarrow> True)"

definition active_index :: "'a mu_server \<Rightarrow> nat" where
  "active_index server = (case active_conn server of Some i \<Rightarrow> i | None \<Rightarrow> length (conns server))"

lemma channel_of_set [simp]: "conn_ok server \<Longrightarrow> server_secure_channel (set_secure_channel c server) = c"
  by (auto simp: conn_ok_def server_secure_channel_def set_secure_channel_def split: option.splits)

lemma set_channel_set [simp]: "set_secure_channel c (set_secure_channel d server) = set_secure_channel c server"
proof (cases "active_conn server")
  case (Some i)
  then show ?thesis by (cases "i < length (conns server)") (auto simp: set_secure_channel_def list_update_beyond)
qed (simp add: set_secure_channel_def)

lemma set_channel_same: "set_secure_channel (server_secure_channel server) server = server"
  by (auto simp: set_secure_channel_def server_secure_channel_def split: option.splits)

lemma set_channel_frame [simp]:
  "conn_ok (set_secure_channel c server) = conn_ok server"
  "active_conn (set_secure_channel c server) = active_conn server"
  "active_index (set_secure_channel c server) = active_index server"
  "length (conns (set_secure_channel c server)) = length (conns server)"
  "opn_pending_security_policy (set_secure_channel c server) = opn_pending_security_policy server"
  "opn_pending_client_cert (set_secure_channel c server) = opn_pending_client_cert server"
  "sessions (set_secure_channel c server) = sessions server"
  "return_diagnostics (set_secure_channel c server) = return_diagnostics server"
  by (auto simp: conn_ok_def active_index_def set_secure_channel_def split: option.splits)

lemma other_ids_set_channel:
  "other_channel_ids (conns (set_secure_channel c server)) (active_index server) =
   other_channel_ids (conns server) (active_index server)"
proof (cases "active_conn server")
  case (Some i)
  show ?thesis
    unfolding other_channel_ids_def set_secure_channel_def active_index_def Some option.case
    by (rule Collect_cong, rule ex_cong1) auto
qed (simp add: set_secure_channel_def)

lemma unique_id_loop_Some:
  assumes "unique_id_loop cs i c (Suc n) = Some cid"
  shows "cid \<noteq> 0" "cid \<notin> other_channel_ids cs i"
proof -
  have f: "find (\<lambda>x. \<not> x \<in> other_channel_ids cs i) (map (stepped c) [0..<Suc n]) = Some cid"
    using assms unfolding unique_id_loop_start .
  show "cid \<notin> other_channel_ids cs i" using f unfolding find_Some_iff by blast
  have "cid \<in> set (map (stepped c) [0..<Suc n])" using f unfolding find_Some_iff by (metis nth_mem)
  then show "cid \<noteq> 0" using stepped_nonzero [of c] by (auto simp del: stepped.simps)
qed

section \<open>Opening the server's channel\<close>

lemma unique_server_channel_id_GOOD:
  assumes "unique_server_channel_id server = (MU_STATUS_GOOD, server')"
  obtains cid where "cid \<noteq> 0" "cid \<notin> other_channel_ids (conns server) (active_index server)"
    "server' = set_secure_channel ((server_secure_channel server)\<lparr>channel_id := cid\<rparr>) server"
  using assms unique_id_loop_Some [of "conns server" "active_index server" "channel_id (server_secure_channel server)" "length (conns server)"]
  by (auto simp: unique_server_channel_id_def active_index_def simp del: unique_id_loop.simps split: option.splits)

text \<open>The channel after a successful OpenSecureChannel request, before its keys are derived.\<close>

definition opened_channel :: "open_request \<Rightarrow> opcua_uint32_t \<Rightarrow> mu_secure_channel \<Rightarrow> mu_secure_channel" where
  "opened_channel q cid c = c\<lparr>channel_id := cid, token_id := if is_open c then token_id c + 1 else 1, is_open := True,
     revised_lifetime := clamp_lifetime (oq_requested_lifetime q), sc_mode := oq_security_mode q\<rparr>"

lemma open_server_channel_Inr:
  assumes "conn_ok server" "open_server_channel cfg q server = (Inr revised, server')"
  obtains cid where "server' = set_secure_channel (opened_channel q cid (server_secure_channel server)) server"
    "if is_open (server_secure_channel server) then cid = channel_id (server_secure_channel server)
     else cid \<noteq> 0 \<and> cid \<notin> other_channel_ids (conns server) (active_index server)"
    "revised = clamp_lifetime (oq_requested_lifetime q)"
    "requested_policy_id (Some (opn_pending_security_policy server)) = sc_policy (server_secure_channel server)"
    "sc_policy (server_secure_channel server) \<noteq> MU_SECURITY_POLICY_INVALID_ID"
    "if sc_policy (server_secure_channel server) = MU_SECURITY_POLICY_NONE_ID
     then oq_security_mode q = MU_MESSAGE_SECURITY_MODE_NONE
     else oq_security_mode q = MU_MESSAGE_SECURITY_MODE_SIGN \<or> oq_security_mode q = MU_MESSAGE_SECURITY_MODE_SIGN_AND_ENCRYPT"
    "enforce_osc_application_auth cfg server' = MU_STATUS_GOOD"
proof -
  let ?c = "server_secure_channel server"
  obtain c where o: "mu_secure_channel_open ?c (Some (current_opn_security_policy server)) (oq_security_mode q)
      (oq_requested_lifetime q) (entropy_adapter cfg) = (Inr revised, c)"
    and u: "(if is_open ?c then (MU_STATUS_GOOD, set_secure_channel c server)
       else unique_server_channel_id (set_secure_channel c server)) = (MU_STATUS_GOOD, server')"
    and auth: "enforce_osc_application_auth cfg server' = MU_STATUS_GOOD"
    using assms(2) by (auto simp: open_server_channel_def Let_def split: prod.splits sum.splits if_splits)
  note p = open_policy [OF o, unfolded current_opn_security_policy_def]
  note fin = that [OF _ _ p(1-4) auth]
  from o show ?thesis
  proof (cases rule: open_Inr)
    case (issue cid)
    have "unique_server_channel_id (set_secure_channel c server) = (MU_STATUS_GOOD, server')" using u issue(1) by simp
    then obtain cid' where n: "cid' \<noteq> 0" "cid' \<notin> other_channel_ids (conns (set_secure_channel c server)) (active_index (set_secure_channel c server))"
      "server' = set_secure_channel ((server_secure_channel (set_secure_channel c server))\<lparr>channel_id := cid'\<rparr>) (set_secure_channel c server)"
      by (rule unique_server_channel_id_GOOD)
    have "c\<lparr>channel_id := cid'\<rparr> = opened_channel q cid' ?c" unfolding issue(3) opened_channel_def using issue(1) by simp
    then show ?thesis
      by (intro fin [of cid']) (use n issue(1) assms(1) in \<open>simp_all add: other_ids_set_channel\<close>)
  next
    case renew
    then have "c = opened_channel q (channel_id ?c) ?c" unfolding opened_channel_def by simp
    then show ?thesis using u renew(1) by (intro fin [of "channel_id ?c"]) simp_all
  qed
qed

section \<open>The response\<close>

text \<open>Writes whose status is dropped: a writer that failed makes what follows fail.\<close>

definition refuses_failed :: "wr \<Rightarrow> bool" where
  "refuses_failed k \<longleftrightarrow> (\<forall>w. wr_status w \<noteq> MU_STATUS_GOOD \<longrightarrow> fst (k w) \<noteq> MU_STATUS_GOOD)"

lemma refuses_failed_status: "refuses_failed (wr_seq writer_status k)"
  by (simp add: refuses_failed_def wr_seq_def writer_status_def)

lemma void_put:
  assumes "length as = n" "encodes k bs" "refuses_failed k"
  shows "encodes (wr_void (wr_seq (ensure_space n) (wr_put as)) k) (as @ bs) \<and>
         refuses_failed (wr_void (wr_seq (ensure_space n) (wr_put as)) k)"
proof
  have void: "wr_void m k w = k (snd (m w))" for m w by (simp add: wr_void_def)
  show "refuses_failed (wr_void (wr_seq (ensure_space n) (wr_put as)) k)"
    using assms(3) by (auto simp: refuses_failed_def void wr_seq_def ensure_space_def writer_status_def)
  show "encodes (wr_void (wr_seq (ensure_space n) (wr_put as)) k) (as @ bs)"
    unfolding encodes_def
  proof (intro allI impI, elim conjE)
    fix w b
    assume w: "wr_buffer w = Some b" "wr_status w = MU_STATUS_GOOD" "wf_writer w"
    let ?m = "wr_seq (ensure_space n) (wr_put as)"
    show "if wr_position w + length (as @ bs) \<le> wr_length w
      then wr_void ?m k w = (MU_STATUS_GOOD, w\<lparr>wr_buffer := Some (put_at (wr_position w) (as @ bs) b),
                              wr_position := wr_position w + length (as @ bs)\<rparr>)
      else fst (wr_void ?m k w) \<noteq> MU_STATUS_GOOD"
    proof (cases "wr_position w + length as \<le> wr_length w")
      case True
      have "wr_void ?m k w = wr_seq ?m k w"
        using encodes_fits [OF encodes_put [OF assms(1)] w True] by (simp add: wr_void_def wr_seq_def)
      then show ?thesis using encodes_seq [OF encodes_put [OF assms(1)] assms(2)] w unfolding encodes_def by simp
    next
      case False
      then have "wr_status (snd (?m w)) \<noteq> MU_STATUS_GOOD"
        using w assms(1) by (auto simp: wr_seq_def ensure_space_def writer_status_def writer_fail_def)
      then show ?thesis using False assms(3) by (simp add: void refuses_failed_def)
    qed
  qed
qed

lemma void_primitives:
  assumes "encodes k bs" "refuses_failed k"
  shows "encodes (wr_void (mu_binary_write_uint32 v) k) (mu_binary_le_put_u32 v @ bs) \<and>
           refuses_failed (wr_void (mu_binary_write_uint32 v) k)"
    and "encodes (wr_void (mu_binary_write_int64 t) k) (mu_binary_le_put_u64 t @ bs) \<and>
           refuses_failed (wr_void (mu_binary_write_int64 t) k)"
  unfolding write_primitive_defs by (rule void_put [OF _ assms], simp)+

definition enc_response_prefix :: "opcua_datetime_t \<Rightarrow> opcua_uint32_t \<Rightarrow> opcua_uint32_t \<Rightarrow> opcua_statuscode_t \<Rightarrow> opcua_uint32_t \<Rightarrow> bytes" where
  "enc_response_prefix now type_id handle result diagnostics =
    enc_nodeid \<lparr>namespace_index = 0, ident = NUMERIC type_id\<rparr> @
    enc_response_header \<lparr>rs_timestamp = now, rs_request_handle = handle, service_result = result, rs_return_diagnostics = diagnostics\<rparr>"

lemma encodes_response_prefix:
  "encodes (write_response_prefix now type_id handle result server)
     (enc_response_prefix now type_id handle result (return_diagnostics server))"
  unfolding write_response_prefix_def enc_response_prefix_def
  by (intro encodes_seq encodes_nodeid encodes_response_header) (simp add: valid_nodeid_def)

definition enc_open_response :: "opcua_datetime_t \<Rightarrow> opcua_uint32_t \<Rightarrow> opcua_uint32_t \<Rightarrow> bytes \<Rightarrow> mu_secure_channel \<Rightarrow> bytes" where
  "enc_open_response now handle diagnostics nonce c =
    enc_response_prefix now MU_ID_OPENSECURECHANNELRESPONSE handle MU_STATUS_GOOD diagnostics @
    mu_binary_le_put_u32 MU_OPC_UA_TCP_PROTOCOL_VERSION @ mu_binary_le_put_u32 (channel_id c) @
    mu_binary_le_put_u32 (token_id c) @ mu_binary_le_put_u64 now @ mu_binary_le_put_u32 (revised_lifetime c) @
    enc_string (mk_string nonce)"

lemma encodes_open_response:
  assumes "length nonce \<le> MU_MAX_ENCODED_STRING_LENGTH" "c = server_secure_channel server"
  shows "encodes (encode_osc_security_token cfg handle (revised_lifetime c) nonce server)
    (enc_open_response (cf_time cfg) handle (return_diagnostics server) nonce c)"
proof -
  have "encodes (mu_binary_write_bytestring (mk_string nonce)) (enc_string (mk_string nonce))"
    unfolding mu_binary_write_bytestring_def using assms(1) by (intro encodes_string) (simp add: valid_string_def mk_string_def)
  moreover have "encodes writer_status []"
    by (auto simp: encodes_def writer_status_def wf_writer_def)
  ultimately have "encodes (wr_seq writer_status (mu_binary_write_bytestring (mk_string nonce))) (enc_string (mk_string nonce))"
    using encodes_seq [of writer_status "[]"] by simp
  note this = conjI [OF this refuses_failed_status]
  note this = void_primitives(1) [OF this [THEN conjunct1] this [THEN conjunct2]]
  note this = void_primitives(2) [OF this [THEN conjunct1] this [THEN conjunct2]]
  note this = void_primitives(1) [OF this [THEN conjunct1] this [THEN conjunct2]]
  note this = void_primitives(1) [OF this [THEN conjunct1] this [THEN conjunct2]]
  note this = void_primitives(1) [OF this [THEN conjunct1] this [THEN conjunct2]]
  from encodes_seq [OF encodes_response_prefix this [THEN conjunct1]] show ?thesis
    unfolding encode_osc_security_token_def enc_open_response_def mk_string_def [symmetric] assms(2) [symmetric] .
qed

section \<open>The keys\<close>

text \<open>
  What the adapters promise: the entropy adapter returns as many bytes as it was asked for, and an
  operation of the key exchange that has no result reports an error.
\<close>

definition adapter_contract :: "'a mu_server_config \<Rightarrow> bool" where
  "adapter_contract cfg \<longleftrightarrow>
    (\<forall>random n bs. entropy_adapter cfg = Some random \<longrightarrow> random n = Inr bs \<longrightarrow> length bs = n) \<and>
    (\<forall>cr generate curve n. crypto_adapter cfg = Some cr \<longrightarrow> ecc_generate_ephemeral cr = Some generate \<longrightarrow>
       generate curve n \<noteq> Inl MU_STATUS_GOOD) \<and>
    (\<forall>cr ecdh curve keypair peer n. crypto_adapter cfg = Some cr \<longrightarrow> ecc_ecdh_derive cr = Some ecdh \<longrightarrow>
       ecdh curve keypair peer n \<noteq> Inl MU_STATUS_GOOD)"

lemma make_server_nonce_Inr:
  assumes "make_server_nonce cfg c cn = Inr (nonce, ephemeral)" "adapter_contract cfg"
  shows "length nonce \<le> 64" "(\<exists>e. ephemeral = Some e) \<longleftrightarrow> is_ecc_channel cfg c"
    "ephemeral = Some e \<Longrightarrow> crypto_adapter cfg = Some cr \<Longrightarrow> \<exists>ecdh. ecc_ecdh_derive cr = Some ecdh"
  using assms policy_lengths_bounded(5) [of "sc_policy c"]
  by (auto simp: make_server_nonce_def adapter_contract_def Let_def split: if_splits option.splits sum.splits prod.splits)

text \<open>Both directions' keys come from the two nonces, or from the exchanged secret and the two nonces.\<close>

definition agreed_keys :: "mu_crypto \<Rightarrow> bytes \<Rightarrow> bytes \<Rightarrow> mu_secure_channel \<Rightarrow> bool" where
  "agreed_keys cr nonce client_nonce c \<longleftrightarrow> keys_valid c \<and>
    (\<exists>ck sk. client_keys c = fst (mu_sym_keys_prepare_cipher ck (Some (cr_sym cr))) \<and>
       server_keys c = fst (mu_sym_keys_prepare_cipher sk (Some (cr_sym cr))) \<and>
       (if mu_security_policy_asym_family (sc_policy c) = MU_ASYM_FAMILY_ECC then
          \<exists>shared. mu_ecc_derive_channel_keys (cr_sym cr) (sc_policy c) shared False nonce client_nonce = (MU_STATUS_GOOD, ck) \<and>
            mu_ecc_derive_channel_keys (cr_sym cr) (sc_policy c) shared True nonce client_nonce = (MU_STATUS_GOOD, sk)
        else
          mu_sym_keys_derive (cr_sym cr) (sc_policy c) (Some nonce) (Some client_nonce) = (MU_STATUS_GOOD, ck) \<and>
          mu_sym_keys_derive (cr_sym cr) (sc_policy c) (Some client_nonce) (Some nonce) = (MU_STATUS_GOOD, sk)))"

lemma derive_channel_keys_frame:
  "derive_channel_keys cr nonce e cn c = (s, c') \<Longrightarrow> c' = c\<lparr>client_keys := client_keys c', server_keys := server_keys c'\<rparr>"
  by (auto simp: derive_channel_keys_def Let_def split: option.splits sum.splits prod.splits if_splits)

lemma install_channel_keys_cases:
  assumes "install_channel_keys cfg nonce e cn c = (s, c')"
  obtains (plain) "s = MU_STATUS_GOOD" "c' = c"
      "crypto_adapter cfg = None \<or> sc_policy c = MU_SECURITY_POLICY_NONE_ID \<or> sc_policy c = MU_SECURITY_POLICY_INVALID_ID"
    | (no_nonce) "s \<noteq> MU_STATUS_GOOD" "c' = c"
    | (failed) cr where "s \<noteq> MU_STATUS_GOOD"
      "derive_channel_keys cr nonce e (take (unat (str_length cn)) (the (str_data cn))) c = (s, c')"
    | (keyed) cr c1 where "s = MU_STATUS_GOOD" "crypto_adapter cfg = Some cr" "0 < sint (str_length cn)"
      "derive_channel_keys cr nonce e (take (unat (str_length cn)) (the (str_data cn))) c = (MU_STATUS_GOOD, c1)"
      "c' = c1\<lparr>keys_valid := True,
         client_keys := fst (mu_sym_keys_prepare_cipher (client_keys c1) (Some (cr_sym cr))),
         server_keys := fst (mu_sym_keys_prepare_cipher (server_keys c1) (Some (cr_sym cr)))\<rparr>"
  using assms by (auto simp: install_channel_keys_def split: option.splits prod.splits if_splits)

lemma install_channel_keys_frame:
  assumes "install_channel_keys cfg nonce e cn c = (s, c')"
  shows "c' = c\<lparr>client_keys := client_keys c', server_keys := server_keys c', keys_valid := keys_valid c'\<rparr>"
  using assms
proof (cases rule: install_channel_keys_cases)
  case (failed cr)
  from derive_channel_keys_frame [OF failed(2)] have "c' = c\<lparr>client_keys := client_keys c', server_keys := server_keys c'\<rparr>" .
  then show ?thesis by (metis mu_secure_channel.select_convs(13) mu_secure_channel.surjective mu_secure_channel.update_convs(11-13))
next
  case (keyed cr c1)
  obtain ck sk where "c1 = c\<lparr>client_keys := ck, server_keys := sk\<rparr>" using derive_channel_keys_frame [OF keyed(4)] by blast
  then show ?thesis using keyed(5) by simp
qed simp_all

lemma install_channel_keys_agreed:
  assumes "install_channel_keys cfg nonce e cn c = (MU_STATUS_GOOD, c')" "crypto_adapter cfg = Some cr"
    "sc_policy c \<noteq> MU_SECURITY_POLICY_NONE_ID" "sc_policy c \<noteq> MU_SECURITY_POLICY_INVALID_ID"
    "(\<exists>x. e = Some x) \<longleftrightarrow> is_ecc_channel cfg c" "\<And>x. e = Some x \<Longrightarrow> \<exists>ecdh. ecc_ecdh_derive cr = Some ecdh"
    "adapter_contract cfg"
  shows "agreed_keys cr nonce (take (unat (str_length cn)) (the (str_data cn))) c'"
  using assms(1)
proof (cases rule: install_channel_keys_cases)
  case (keyed cr' c1)
  have [simp]: "cr' = cr" using keyed(2) assms(2) by simp
  have e: "(\<exists>x. e = Some x) \<longleftrightarrow> mu_security_policy_asym_family (sc_policy c) = MU_ASYM_FAMILY_ECC"
    using assms(2,5) by (simp add: is_ecc_channel_def)
  let ?cn = "take (unat (str_length cn)) (the (str_data cn))"
  have p: "sc_policy c' = sc_policy c" using install_channel_keys_frame [OF assms(1)] by (metis mu_secure_channel.select_convs(9) mu_secure_channel.surjective mu_secure_channel.update_convs(11-13))
  show "agreed_keys cr nonce ?cn c'"
  proof (cases e)
    case None
    then obtain ck sk where d: "mu_sym_keys_derive (cr_sym cr) (sc_policy c) (Some nonce) (Some ?cn) = (MU_STATUS_GOOD, ck)"
      "mu_sym_keys_derive (cr_sym cr) (sc_policy c) (Some ?cn) (Some nonce) = (MU_STATUS_GOOD, sk)"
      "c1 = c\<lparr>client_keys := ck, server_keys := sk\<rparr>"
      using keyed(4) by (auto simp: derive_channel_keys_def Let_def split: prod.splits if_splits)
    show ?thesis
      unfolding agreed_keys_def p
      by (rule conjI, use keyed(5) in simp, rule exI [of _ ck], rule exI [of _ sk]) (use d e None keyed(5) in simp)
  next
    case (Some x)
    obtain curve keypair where x: "x = (curve, keypair)" by fastforce
    obtain ecdh where ec: "ecc_ecdh_derive cr = Some ecdh" using assms(6) [OF Some] by blast
    have "ecdh curve keypair ?cn 64 \<noteq> Inl MU_STATUS_GOOD" using assms(2,7) ec unfolding adapter_contract_def by blast
    then obtain shared ck sk where d: "mu_ecc_derive_channel_keys (cr_sym cr) (sc_policy c) shared False nonce ?cn = (MU_STATUS_GOOD, ck)"
      "mu_ecc_derive_channel_keys (cr_sym cr) (sc_policy c) shared True nonce ?cn = (MU_STATUS_GOOD, sk)"
      "c1 = c\<lparr>client_keys := ck, server_keys := sk\<rparr>"
      using keyed(4) Some x ec by (auto simp: derive_channel_keys_def Let_def split: prod.splits if_splits sum.splits)
    then have ex: "\<exists>shared. mu_ecc_derive_channel_keys (cr_sym cr) (sc_policy c) shared False nonce ?cn = (MU_STATUS_GOOD, ck) \<and>
      mu_ecc_derive_channel_keys (cr_sym cr) (sc_policy c) shared True nonce ?cn = (MU_STATUS_GOOD, sk)" by blast
    show ?thesis
      unfolding agreed_keys_def p
      by (rule conjI, use keyed(5) in simp, rule exI [of _ ck], rule exI [of _ sk]) (use ex d(3) e Some keyed(5) in simp)
  qed
qed (use assms in auto)

section \<open>Failing requests\<close>

lemma decoder_open_request [decoder_intros]: "decoder (read_open_request cfg)"
  unfolding read_open_request_def Let_def
  by (intro decoder_intros decoder_reader_op [OF decoder_primitives(7)]) auto

interpretation open_request_reader: decoder "read_open_request cfg" for cfg
  by (rule decoder_open_request)

lemma open_server_channel_Inl: "open_server_channel cfg q server = (Inl s, server') \<Longrightarrow> s \<noteq> MU_STATUS_GOOD"
  by (auto simp: open_server_channel_def mu_secure_channel_open_def generate_channel_id_def Let_def
      split: prod.splits sum.splits if_splits option.splits)

lemma make_server_nonce_Inl: "make_server_nonce cfg c cn = Inl s \<Longrightarrow> adapter_contract cfg \<Longrightarrow> s \<noteq> MU_STATUS_GOOD"
  by (auto simp: make_server_nonce_def adapter_contract_def is_ecc_channel_def Let_def
      split: if_splits option.splits sum.splits prod.splits)

lemma open_impl_GOOD:
  assumes "handle_open_secure_channel_impl cfg server r w n = (MU_STATUS_GOOD, len, w', server')" "adapter_contract cfg"
  obtains q r1 revised server1 nonce e c' where "read_open_request cfg r = (Inr q, r1)"
    "open_server_channel cfg q server = (Inr revised, server1)"
    "make_server_nonce cfg (server_secure_channel server1) (oq_client_nonce q) = Inr (nonce, e)"
    "encode_osc_security_token cfg (oq_request_handle q) revised nonce server1 w = (MU_STATUS_GOOD, w')"
    "install_channel_keys cfg nonce e (oq_client_nonce q) ((server_secure_channel server1)\<lparr>sc_mode := oq_security_mode q\<rparr>) =
      (MU_STATUS_GOOD, c')"
    "len = wr_position w'" "server' = set_secure_channel c' server1"
proof -
  obtain q r1 where q: "read_open_request cfg r = (Inr q, r1)"
    using assms(1) open_request_reader.error_code [of cfg r]
    by (cases "read_open_request cfg r"; cases "fst (read_open_request cfg r)") (auto simp: handle_open_secure_channel_impl_def)
  obtain revised server1 where o: "open_server_channel cfg q server = (Inr revised, server1)"
    using assms(1) q open_server_channel_Inl [of cfg q server]
    by (cases "open_server_channel cfg q server"; cases "fst (open_server_channel cfg q server)")
      (auto simp: handle_open_secure_channel_impl_def)
  obtain nonce e where k: "make_server_nonce cfg (server_secure_channel server1) (oq_client_nonce q) = Inr (nonce, e)"
    using assms q o make_server_nonce_Inl [of cfg "server_secure_channel server1" "oq_client_nonce q"]
    by (cases "make_server_nonce cfg (server_secure_channel server1) (oq_client_nonce q)")
      (auto simp: handle_open_secure_channel_impl_def)
  obtain s c' where i: "install_channel_keys cfg nonce e (oq_client_nonce q)
      ((server_secure_channel server1)\<lparr>sc_mode := oq_security_mode q\<rparr>) = (s, c')" by fastforce
  show ?thesis
    by (rule that [OF q o k, of c'])
      (use assms(1) q o k i in \<open>auto simp: handle_open_secure_channel_impl_def split: prod.splits if_splits\<close>)
qed

section \<open>Requests a client sends\<close>

definition enc_open_request ::
  "mu_request_header \<Rightarrow> opcua_uint32_t \<Rightarrow> opcua_uint32_t \<Rightarrow> mu_message_security_mode \<Rightarrow> mu_bytestring \<Rightarrow> opcua_uint32_t \<Rightarrow> bytes" where
  "enc_open_request h proto request_type mode nonce lifetime =
    enc_request_header h \<lparr>namespace_index = 0, ident = NUMERIC 0\<rparr> [] @ mu_binary_le_put_u32 proto @
    mu_binary_le_put_u32 request_type @ mu_binary_le_put_u32 mode @ enc_string nonce @ mu_binary_le_put_u32 lifetime"

text \<open>The freshness window.\<close>

definition max_skew :: "'a mu_server_config \<Rightarrow> opcua_uint64_t" where
  "max_skew cfg = (if acceptable_clock_skew_ns cfg \<noteq> 0 then acceptable_clock_skew_ns cfg
                   else MU_TIME_SYNC_MAX_CLOCK_SKEW_MS * 1000000)"

lemma reads_open_request:
  assumes "valid_nodeid (authentication_token h)" "valid_string (audit_entry_id h)" "valid_string nonce"
    "mu_opn_time_sync_allows (cf_time cfg) (rq_timestamp h) (max_skew cfg)" "request_type \<le> 1"
    "validate_client_nonce nonce = MU_STATUS_GOOD"
  shows "reads (read_open_request cfg) (enc_open_request h proto request_type mode nonce lifetime)
    \<lparr>oq_request_handle = rq_request_handle h, oq_security_mode = mode, oq_client_nonce = nonce, oq_requested_lifetime = lifetime\<rparr>"
proof -
  have h: "reads mu_request_header_decode (enc_request_header h \<lparr>namespace_index = 0, ident = NUMERIC 0\<rparr> []) h"
    by (rule reads_request_header [OF assms(1,2)]) (simp_all add: valid_nodeid_def)
  have n: "reads mu_binary_read_bytestring (enc_string nonce) nonce"
    unfolding mu_binary_read_bytestring_def by (rule reads_string [OF assms(3)])
  show ?thesis
    unfolding read_open_request_def enc_open_request_def max_skew_def [symmetric] Let_def
    by (rule reads_bind [OF h], simp only: assms(4,6) not_True_eq_False if_False,
        intro reads_bind [OF reads_primitives(7)])
      (use assms(5) in \<open>auto intro!: reads_bind [OF n] reads_bind_Nil [OF reads_primitives(7)] reads_return simp: not_less [symmetric] assms(6)\<close>)
qed

section \<open>Properties\<close>

lemma channel_of_rest [simp]: "server_secure_channel (server\<lparr>sv_rest := x\<rparr>) = server_secure_channel server"
  by (simp add: server_secure_channel_def split: option.split)

lemma open_response_fits:
  assumes "conn_ok server" "n \<le> length resp" "length nonce \<le> 64"
    "encode_osc_security_token cfg handle (revised_lifetime c) nonce (set_secure_channel c server)
       (mu_binary_writer_init (Some resp) n) = (MU_STATUS_GOOD, w)"
  shows "take (wr_position w) (the (wr_buffer w)) = enc_open_response (cf_time cfg) handle (return_diagnostics server) nonce c"
proof -
  let ?w = "mu_binary_writer_init (Some resp) n"
  have len: "length nonce \<le> MU_MAX_ENCODED_STRING_LENGTH" using assms(3) by simp
  have enc: "encodes (encode_osc_security_token cfg handle (revised_lifetime c) nonce (set_secure_channel c server))
      (enc_open_response (cf_time cfg) handle (return_diagnostics server) nonce c)"
    using encodes_open_response [OF len, of c "set_secure_channel c server" cfg handle] assms(1) by simp
  have w: "wr_buffer ?w = Some resp" "wr_status ?w = MU_STATUS_GOOD" "wf_writer ?w" "wr_position ?w = 0"
    using assms(2) by (simp_all add: mu_binary_writer_init_def wf_writer_def)
  have fit: "wr_position ?w + length (enc_open_response (cf_time cfg) handle (return_diagnostics server) nonce c) \<le> wr_length ?w"
    using encodes_too_big [OF enc w(1-3)] assms(4) by auto
  show ?thesis using encodes_fits [OF enc w(1-3) fit] assms(4) w(4) by (auto simp: put_at_def)
qed

lemma application_auth_trusted:
  assumes "enforce_osc_application_auth cfg server = MU_STATUS_GOOD" "\<not> allow_untrusted_clients cfg"
    "sc_policy (server_secure_channel server) \<noteq> MU_SECURITY_POLICY_NONE_ID"
    "sc_policy (server_secure_channel server) \<noteq> MU_SECURITY_POLICY_INVALID_ID"
  obtains trusted cert where "cf_trust_list cfg = Some trusted" "cert \<in> set trusted"
    "map_option (take (unat (str_length (opn_pending_client_cert server)))) (str_data (opn_pending_client_cert server)) = Some cert"
proof -
  let ?d = "map_option (take (unat (str_length (opn_pending_client_cert server)))) (str_data (opn_pending_client_cert server))"
  obtain trusted where t: "cf_trust_list cfg = Some trusted" "mu_trust_list_match (Some trusted) ?d = MU_STATUS_GOOD"
    using assms by (auto simp: enforce_osc_application_auth_def current_opn_client_cert_def Let_def split: if_splits)
  obtain cert where c: "?d = Some cert" using t(2) by (cases ?d) (auto simp: mu_trust_list_match_def present_def split: if_splits)
  show ?thesis using that [OF t(1) _ c] t(2) c trust_list_match_iff by auto
qed

lemma open_impl_established:
  assumes "conn_ok server" "adapter_contract cfg"
    "handle_open_secure_channel_impl cfg server r w n = (MU_STATUS_GOOD, len, w', server')"
  defines "c \<equiv> server_secure_channel server"
  obtains q r1 nonce cid c' where "read_open_request cfg r = (Inr q, r1)" "length nonce \<le> 64"
    "encode_osc_security_token cfg (oq_request_handle q) (clamp_lifetime (oq_requested_lifetime q)) nonce
       (set_secure_channel (opened_channel q cid c) server) w = (MU_STATUS_GOOD, w')" "len = wr_position w'"
    "server' = set_secure_channel c' server"
    "c' = (opened_channel q cid c)\<lparr>client_keys := client_keys c', server_keys := server_keys c', keys_valid := keys_valid c'\<rparr>"
    "if is_open c then cid = channel_id c else cid \<noteq> 0 \<and> cid \<notin> other_channel_ids (conns server) (active_index server)"
    "requested_policy_id (Some (opn_pending_security_policy server)) = sc_policy c"
    "(sc_policy c = MU_SECURITY_POLICY_NONE_ID) = (oq_security_mode q = MU_MESSAGE_SECURITY_MODE_NONE)"
    "sc_policy c \<noteq> MU_SECURITY_POLICY_INVALID_ID"
    "enforce_osc_application_auth cfg (set_secure_channel (opened_channel q cid c) server) = MU_STATUS_GOOD"
    "\<forall>cr. sc_policy c \<noteq> MU_SECURITY_POLICY_NONE_ID \<and> crypto_adapter cfg = Some cr \<longrightarrow>
      agreed_keys cr nonce (take (unat (str_length (oq_client_nonce q))) (the (str_data (oq_client_nonce q)))) c'"
proof -
  obtain q r1 revised server2 nonce e c' where i: "read_open_request cfg r = (Inr q, r1)"
    "open_server_channel cfg q server = (Inr revised, server2)"
    "make_server_nonce cfg (server_secure_channel server2) (oq_client_nonce q) = Inr (nonce, e)"
    "encode_osc_security_token cfg (oq_request_handle q) revised nonce server2 w = (MU_STATUS_GOOD, w')"
    "install_channel_keys cfg nonce e (oq_client_nonce q) ((server_secure_channel server2)\<lparr>sc_mode := oq_security_mode q\<rparr>) =
      (MU_STATUS_GOOD, c')" "len = wr_position w'" "server' = set_secure_channel c' server2"
    using open_impl_GOOD [OF assms(3,2)] by blast
  obtain cid where o: "server2 = set_secure_channel (opened_channel q cid c) server"
    "if is_open c then cid = channel_id c else cid \<noteq> 0 \<and> cid \<notin> other_channel_ids (conns server) (active_index server)"
    "revised = clamp_lifetime (oq_requested_lifetime q)"
    "requested_policy_id (Some (opn_pending_security_policy server)) = sc_policy c"
    "sc_policy c \<noteq> MU_SECURITY_POLICY_INVALID_ID"
    "if sc_policy c = MU_SECURITY_POLICY_NONE_ID then oq_security_mode q = MU_MESSAGE_SECURITY_MODE_NONE
     else oq_security_mode q = MU_MESSAGE_SECURITY_MODE_SIGN \<or> oq_security_mode q = MU_MESSAGE_SECURITY_MODE_SIGN_AND_ENCRYPT"
    "enforce_osc_application_auth cfg server2 = MU_STATUS_GOOD"
    by (rule open_server_channel_Inr [OF assms(1) i(2), folded c_def])
  define c1 where "c1 = opened_channel q cid c"
  have c1: "server_secure_channel server2 = c1" "c1\<lparr>sc_mode := oq_security_mode q\<rparr> = c1" "sc_policy c1 = sc_policy c"
    using assms(1) o(1) by (simp_all add: c1_def opened_channel_def)
  note nonce = make_server_nonce_Inr [OF i(3) assms(2)]
  show ?thesis
  proof (rule that [OF i(1) nonce(1)])
    have "agreed_keys cr nonce (take (unat (str_length (oq_client_nonce q))) (the (str_data (oq_client_nonce q)))) c'"
      if "sc_policy c \<noteq> MU_SECURITY_POLICY_NONE_ID" "crypto_adapter cfg = Some cr" for cr
      using install_channel_keys_agreed [OF i(5) that(2) _ _ _ nonce(3) [OF _ that(2)] assms(2)] nonce(2) that(1) o(5) unfolding c1 by simp
    then show "\<forall>cr. sc_policy c \<noteq> MU_SECURITY_POLICY_NONE_ID \<and> crypto_adapter cfg = Some cr \<longrightarrow>
      agreed_keys cr nonce (take (unat (str_length (oq_client_nonce q))) (the (str_data (oq_client_nonce q)))) c'" by blast
    show "c' = (opened_channel q cid c)\<lparr>client_keys := client_keys c', server_keys := server_keys c', keys_valid := keys_valid c'\<rparr>"
      using install_channel_keys_frame [OF i(5), unfolded c1(1,2)] unfolding c1_def .
  qed (use i(4,6,7) o in \<open>auto split: if_splits\<close>)
qed

text \<open>
  C33.  Establishing a channel.  When the OpenSecureChannel service succeeds, the channel is open under
  the policy the OPN named and the requested mode, which is None exactly for policy None; a new channel
  has a nonzero id no other open connection uses and token 1, a renewed one keeps its id and gets the
  next token.  Under a secured policy a server that does not allow untrusted clients has found the
  certificate of the OPN in its trust list, and with a crypto adapter the keys of both directions are
  those derived from the client's nonce and the nonce in the response (under elliptic curves from some
  shared secret, salted with both nonces).  The response carries exactly the
  channel's id, token and lifetime.
\<close>

theorem open_secure_channel_established:
  assumes "conn_ok server" "n \<le> length resp" "adapter_contract cfg"
    "handle_open_secure_channel cfg server body resp n = (MU_STATUS_GOOD, len, resp', server')"
  defines "c \<equiv> server_secure_channel server" and "c' \<equiv> server_secure_channel server'"
  shows "\<exists>q nonce.
    fst (read_open_request cfg (mu_binary_reader_init (Some body) (length body))) = Inr q \<and>
    is_open c' \<and> requested_policy_id (Some (opn_pending_security_policy server)) = sc_policy c' \<and>
    sc_policy c' = sc_policy c \<and> sc_mode c' = oq_security_mode q \<and>
    (sc_policy c' = MU_SECURITY_POLICY_NONE_ID) = (sc_mode c' = MU_MESSAGE_SECURITY_MODE_NONE) \<and>
    (if is_open c then channel_id c' = channel_id c \<and> token_id c' = token_id c + 1
     else channel_id c' \<noteq> 0 \<and> channel_id c' \<notin> other_channel_ids (conns server) (active_index server) \<and> token_id c' = 1) \<and>
    (sc_policy c' \<noteq> MU_SECURITY_POLICY_NONE_ID \<and> \<not> allow_untrusted_clients cfg \<longrightarrow>
      (\<exists>trusted cert. cf_trust_list cfg = Some trusted \<and> cert \<in> set trusted \<and>
        map_option (take (unat (str_length (opn_pending_client_cert server)))) (str_data (opn_pending_client_cert server)) = Some cert)) \<and>
    (\<forall>cr. sc_policy c' \<noteq> MU_SECURITY_POLICY_NONE_ID \<and> crypto_adapter cfg = Some cr \<longrightarrow>
      agreed_keys cr nonce (take (unat (str_length (oq_client_nonce q))) (the (str_data (oq_client_nonce q)))) c') \<and>
    take len resp' = enc_open_response (cf_time cfg) (oq_request_handle q) (return_diagnostics server) nonce c'"
proof -
  let ?r = "mu_binary_reader_init (Some body) (length body)" and ?w = "mu_binary_writer_init (Some resp) n"
  obtain w server1 where impl: "handle_open_secure_channel_impl cfg server ?r ?w n = (MU_STATUS_GOOD, len, w, server1)"
    and fin: "resp' = the (wr_buffer w)" "c' = server_secure_channel server1"
    using assms(4) unfolding handle_open_secure_channel_def c'_def
    by (auto simp: raise_open_secure_channel_audit_def split: prod.splits)
  obtain q r1 nonce cid c2 where i: "read_open_request cfg ?r = (Inr q, r1)" "length nonce \<le> 64"
    "encode_osc_security_token cfg (oq_request_handle q) (clamp_lifetime (oq_requested_lifetime q)) nonce
       (set_secure_channel (opened_channel q cid c) server) ?w = (MU_STATUS_GOOD, w)" "len = wr_position w"
    "server1 = set_secure_channel c2 server"
    "c2 = (opened_channel q cid c)\<lparr>client_keys := client_keys c2, server_keys := server_keys c2, keys_valid := keys_valid c2\<rparr>"
    "if is_open c then cid = channel_id c else cid \<noteq> 0 \<and> cid \<notin> other_channel_ids (conns server) (active_index server)"
    "requested_policy_id (Some (opn_pending_security_policy server)) = sc_policy c"
    "(sc_policy c = MU_SECURITY_POLICY_NONE_ID) = (oq_security_mode q = MU_MESSAGE_SECURITY_MODE_NONE)"
    "sc_policy c \<noteq> MU_SECURITY_POLICY_INVALID_ID"
    "enforce_osc_application_auth cfg (set_secure_channel (opened_channel q cid c) server) = MU_STATUS_GOOD"
    "\<forall>cr. sc_policy c \<noteq> MU_SECURITY_POLICY_NONE_ID \<and> crypto_adapter cfg = Some cr \<longrightarrow>
      agreed_keys cr nonce (take (unat (str_length (oq_client_nonce q))) (the (str_data (oq_client_nonce q)))) c2"
    by (rule open_impl_established [OF assms(1,3) impl, folded c_def])
  have c': "c' = c2" using fin i(5) assms(1) by simp
  define c1 where "c1 = opened_channel q cid c"
  have c1: "sc_policy c1 = sc_policy c" "is_open c1" "channel_id c1 = cid" "token_id c1 = (if is_open c then token_id c + 1 else 1)"
    "sc_mode c1 = oq_security_mode q" "revised_lifetime c1 = clamp_lifetime (oq_requested_lifetime q)"
    by (simp_all add: c1_def opened_channel_def)
  have f: "sc_policy c2 = sc_policy c" "is_open c2" "channel_id c2 = cid" "token_id c2 = token_id c1" "sc_mode c2 = oq_security_mode q"
    "revised_lifetime c2 = revised_lifetime c1"
    by (subst i(6) [folded c1_def], simp add: c1)+
  have "take len resp' = enc_open_response (cf_time cfg) (oq_request_handle q) (return_diagnostics server) nonce c1"
    using open_response_fits [OF assms(1,2) i(2)] i(3,4) fin(1) c1(6) unfolding c1_def by simp
  then have resp: "take len resp' = enc_open_response (cf_time cfg) (oq_request_handle q) (return_diagnostics server) nonce c2"
    using f c1 by (simp add: enc_open_response_def)
  have trust: "\<exists>trusted cert. cf_trust_list cfg = Some trusted \<and> cert \<in> set trusted \<and>
      map_option (take (unat (str_length (opn_pending_client_cert server)))) (str_data (opn_pending_client_cert server)) = Some cert"
    if "sc_policy c \<noteq> MU_SECURITY_POLICY_NONE_ID" "\<not> allow_untrusted_clients cfg"
    using application_auth_trusted [OF i(11) that(2)] that(1) i(10) assms(1) c1(1) unfolding c1_def by (metis channel_of_set set_channel_frame(6))
  show ?thesis
    unfolding c'
    by (rule exI [of _ q], rule exI [of _ nonce]) (use i(1,7,8,9,12) f c1 trust resp in \<open>simp split: if_splits\<close>)
qed

text \<open>A server that is asked to open a secured channel by a client it trusts.\<close>

definition steady_crypto :: mu_crypto where
  "steady_crypto = \<lparr>cr_sym = sample_crypto, cr_asym = sample_asym 2048 [1, 2, 3],
     ecc_generate_ephemeral = None, ecc_ecdh_derive = None\<rparr>"

definition sample_config :: "unit mu_server_config" where
  "sample_config = \<lparr>cf_transport = \<lparr>cfg_endpoint_url = None, cfg_application_uri = None, cfg_receive_buffer_size = 8192,
       cfg_send_buffer_size = 8192, cfg_max_chunk_count = 1, cfg_max_message_size = 8192\<rparr>,
     crypto_adapter = Some steady_crypto, entropy_adapter = Some (\<lambda>n. Inr (replicate n 7)), cf_time = 0, cf_tick = None,
     acceptable_clock_skew_ns = 0, allow_untrusted_clients = False, cf_trust_list = Some [[9, 9]],
     tcp_write = (\<lambda>data. (MU_STATUS_GOOD, length data)), cf_scratch = replicate 14336 0, cf_raise_audit = (\<lambda>_ _ x. x)\<rparr>"

definition sample_opening :: "unit mu_server" where
  "sample_opening = sample_server\<lparr>
     conns := [sample_connection\<lparr>secure_channel := sample_channel\<lparr>sc_policy := MU_SECURITY_POLICY_BASIC256SHA256_ID\<rparr>\<rparr>],
     opn_pending_security_policy := mk_string POLICY_B256S256_URI, opn_pending_client_cert := mk_string [9, 9]\<rparr>"


definition sample_open_header :: mu_request_header where
  "sample_open_header = \<lparr>authentication_token = \<lparr>namespace_index = 0, ident = NUMERIC 0\<rparr>, rq_timestamp = 0, rq_request_handle = 5,
     rq_return_diagnostics = 0, audit_entry_id = null_string, timeout_hint = 0\<rparr>"

definition sample_open_request :: open_request where
  "sample_open_request = \<lparr>oq_request_handle = 5, oq_security_mode = 2, oq_client_nonce = mk_string (replicate 32 8), oq_requested_lifetime = 0\<rparr>"

definition sample_open_body :: bytes where
  "sample_open_body = enc_open_request sample_open_header 0 0 2 (mk_string (replicate 32 8)) 0"

lemma sample_open_read:
  "\<exists>r. read_open_request sample_config (mu_binary_reader_init (Some sample_open_body) (length sample_open_body)) = (Inr sample_open_request, r)"
proof -
  have nonce: "validate_client_nonce (mk_string (replicate 32 8)) = MU_STATUS_GOOD" "valid_string (mk_string (replicate 32 8))"
    by (simp_all add: validate_client_nonce_def mk_string_def valid_string_def)
  have "reads (read_open_request sample_config) sample_open_body
      \<lparr>oq_request_handle = rq_request_handle sample_open_header, oq_security_mode = 2, oq_client_nonce = mk_string (replicate 32 8), oq_requested_lifetime = 0\<rparr>"
    unfolding sample_open_body_def
    by (rule reads_open_request [OF _ _ nonce(2) _ _ nonce(1)])
      (simp_all add: sample_open_header_def valid_nodeid_def valid_string_def mu_opn_time_sync_allows_def sample_config_def)
  then show ?thesis
    by (auto dest!: readsD [of _ _ _ "mu_binary_reader_init (Some sample_open_body) (length sample_open_body)" sample_open_body]
        simp: mu_binary_reader_init_def slice_def sample_open_request_def sample_open_header_def)
qed

definition sample_opened :: mu_secure_channel where
  "sample_opened = opened_channel sample_open_request 0x07070707 (sample_channel\<lparr>sc_policy := MU_SECURITY_POLICY_BASIC256SHA256_ID\<rparr>)"

lemma sample_open_channel:
  "open_server_channel sample_config sample_open_request sample_opening = (Inr 10000, set_secure_channel sample_opened sample_opening)"
proof -
  let ?c = "sample_channel\<lparr>sc_policy := MU_SECURITY_POLICY_BASIC256SHA256_ID\<rparr>"
  have c: "server_secure_channel sample_opening = ?c" and ok: "conn_ok sample_opening"
    by (simp_all add: sample_opening_def server_secure_channel_def sample_server_def conn_ok_def)
  have "mu_security_policy_from_uri (Some POLICY_B256S256_URI) 57 = MU_SECURITY_POLICY_BASIC256SHA256_ID"
    using policy_from_uri_known [of MU_SECURITY_POLICY_BASIC256SHA256_ID POLICY_B256S256_URI]
    by (simp add: mu_security_policy_uri_def POLICY_TABLE_def)
  then have o: "mu_secure_channel_open ?c (Some (mk_string POLICY_B256S256_URI)) 2 0 (Some (\<lambda>n. Inr (replicate n 7))) = (Inr 10000, sample_opened)"
    by (simp add: mu_secure_channel_open_def requested_policy_id_def is_valid_security_mode_def mk_string_def
        generate_channel_id_def clamp_lifetime_def sample_opened_def opened_channel_def sample_open_request_def sample_channel_def Let_def)
  have id: "unique_server_channel_id (set_secure_channel sample_opened sample_opening) = (MU_STATUS_GOOD, set_secure_channel sample_opened sample_opening)"
  proof -
    have upd: "sample_opened\<lparr>channel_id := 0x07070707\<rparr> = sample_opened" by (simp add: sample_opened_def opened_channel_def)
    have "channel_id sample_opened = 0x07070707" by (simp add: sample_opened_def opened_channel_def)
    moreover have "active_conn sample_opening = Some 0" "length (conns sample_opening) = 1"
      by (simp_all add: sample_opening_def sample_server_def)
    ultimately show ?thesis
      by (simp add: unique_server_channel_id_def ok secure_channel_id_used_by_other_connection_def) (simp only: upd)
  qed
  have "enforce_osc_application_auth sample_config (set_secure_channel sample_opened sample_opening) = MU_STATUS_GOOD"
    using trust_list_match_iff [of "[[9, 9]]" "[9, 9]"]
    by (simp add: enforce_osc_application_auth_def current_opn_client_cert_def sample_opening_def sample_config_def mk_string_def Let_def)
  then show ?thesis
    using o id c
    by (simp add: open_server_channel_def current_opn_security_policy_def sample_opening_def sample_config_def
        sample_open_request_def sample_channel_def)
qed

lemma sample_opened_parts:
  "sc_policy sample_opened = MU_SECURITY_POLICY_BASIC256SHA256_ID" "sample_opened\<lparr>sc_mode := 2\<rparr> = sample_opened"
  by (simp_all add: sample_opened_def opened_channel_def sample_open_request_def)

lemma sample_open_nonce:
  "make_server_nonce sample_config sample_opened (mk_string (replicate 32 8)) = Inr (replicate 32 7, None)"
  by (simp add: make_server_nonce_def is_ecc_channel_def sample_opened_parts sample_config_def
      mu_security_policy_asym_family_def POLICY_TABLE_def)

lemma sample_open_keys:
  "\<exists>c. install_channel_keys sample_config (replicate 32 7) None (mk_string (replicate 32 8)) sample_opened = (MU_STATUS_GOOD, c)"
proof -
  have "\<exists>k. mu_sym_keys_derive sample_crypto MU_SECURITY_POLICY_BASIC256SHA256_ID (Some secret) (Some seed) = (MU_STATUS_GOOD, k)"
    if "length seed \<le> 64" for secret seed
    using sym_keys_derive_eq [OF sample_crypto_laws(5) _ refl refl refl refl] that by simp
  from this [of "replicate 32 8" "replicate 32 7"] this [of "replicate 32 7" "replicate 32 8"]
  obtain k1 k2 where "mu_sym_keys_derive sample_crypto MU_SECURITY_POLICY_BASIC256SHA256_ID (Some (replicate 32 7)) (Some (replicate 32 8)) = (MU_STATUS_GOOD, k1)"
    "mu_sym_keys_derive sample_crypto MU_SECURITY_POLICY_BASIC256SHA256_ID (Some (replicate 32 8)) (Some (replicate 32 7)) = (MU_STATUS_GOOD, k2)"
    by auto
  then show ?thesis
    by (simp add: install_channel_keys_def derive_channel_keys_def sample_config_def steady_crypto_def sample_opened_parts mk_string_def)
qed

lemma sample_open_written:
  "\<exists>w. encode_osc_security_token sample_config 5 10000 (replicate 32 7) (set_secure_channel sample_opened sample_opening)
     (mu_binary_writer_init (Some (replicate 200 0)) 200) = (MU_STATUS_GOOD, w)"
proof -
  have l: "revised_lifetime sample_opened = 10000"
    by (simp add: sample_opened_def opened_channel_def sample_open_request_def clamp_lifetime_def)
  have ok: "conn_ok sample_opening" by (simp add: sample_opening_def sample_server_def conn_ok_def)
  have "encodes (encode_osc_security_token sample_config 5 10000 (replicate 32 7) (set_secure_channel sample_opened sample_opening))
      (enc_open_response (cf_time sample_config) 5 (return_diagnostics sample_opening) (replicate 32 7) sample_opened)"
    using encodes_open_response [of "replicate 32 7" sample_opened "set_secure_channel sample_opened sample_opening" sample_config 5] l ok by simp
  moreover have "length (enc_open_response (cf_time sample_config) 5 (return_diagnostics sample_opening) (replicate 32 7) sample_opened) \<le> 200"
    by (simp add: enc_open_response_def enc_response_prefix_def enc_response_header_def enc_nodeid_def nodeid_format_def nodeid_payload_def
        enc_string_def str_bytes_def mk_string_def)
  ultimately show ?thesis
    by (auto dest!: encodes_fits [of _ _ "mu_binary_writer_init (Some (replicate 200 0)) 200" "replicate 200 0"]
        simp: mu_binary_writer_init_def wf_writer_def)
qed

lemma sample_open:
  "\<exists>len resp server. handle_open_secure_channel sample_config sample_opening sample_open_body (replicate 200 0) 200 =
     (MU_STATUS_GOOD, len, resp, server)"
proof -
  obtain r where r: "read_open_request sample_config (mu_binary_reader_init (Some sample_open_body) (length sample_open_body)) = (Inr sample_open_request, r)"
    using sample_open_read by blast
  have ok: "conn_ok sample_opening" by (simp add: sample_opening_def sample_server_def conn_ok_def)
  have q: "oq_client_nonce sample_open_request = mk_string (replicate 32 8)" "oq_request_handle sample_open_request = 5" "oq_security_mode sample_open_request = 2"
    by (simp_all add: sample_open_request_def)
  show ?thesis
    using sample_open_written sample_open_keys
    by (auto simp: handle_open_secure_channel_def handle_open_secure_channel_impl_def r sample_open_channel ok q
        sample_open_nonce sample_opened_parts)
qed

theorem open_secure_channel_established_witness:
  "\<exists>len resp server'. handle_open_secure_channel sample_config sample_opening sample_open_body (replicate 200 0) 200 =
     (MU_STATUS_GOOD, len, resp, server') \<and>
     is_open (server_secure_channel server') \<and> sc_policy (server_secure_channel server') = MU_SECURITY_POLICY_BASIC256SHA256_ID \<and>
     keys_valid (server_secure_channel server')"
proof -
  obtain len resp server' where h: "handle_open_secure_channel sample_config sample_opening sample_open_body (replicate 200 0) 200 =
     (MU_STATUS_GOOD, len, resp, server')" using sample_open by blast
  have c: "conn_ok sample_opening" "adapter_contract sample_config"
    by (simp_all add: sample_opening_def sample_server_def conn_ok_def adapter_contract_def sample_config_def steady_crypto_def)
  have p: "sc_policy (server_secure_channel sample_opening) = MU_SECURITY_POLICY_BASIC256SHA256_ID"
    by (simp add: sample_opening_def server_secure_channel_def sample_server_def)
  have cr: "crypto_adapter sample_config = Some steady_crypto" by (simp add: sample_config_def)
  show ?thesis
    using open_secure_channel_established [OF c(1) _ c(2) h] h p cr by (auto simp: agreed_keys_def)
qed

end
