(* ===== verification/Mu_Server.thy ===== *)
theory Mu_Server
  imports Mu_Open_Channel
begin

unbundle bit_operations_syntax

text \<open>
  Handling one complete message: \<^verbatim>\<open>src/core/server/data_chunk.c\<close> and
  \<^verbatim>\<open>src/core/server/process_message.c\<close>, on top of framing, chunk security and dispatching.

  A handler maps the server and the bytes of the message to the new server and the bytes it leaves in
  place of the message, since MSG chunks are decrypted where they lie.  The calls of the TCP adapter are
  recorded in the server.  The service functions are a parameter, as in dispatching; a function works on
  the response region as a value, which is stored back when it returns.
\<close>

section \<open>The active connection\<close>

definition server_client_handle :: "'a mu_server \<Rightarrow> nat option" where
  "server_client_handle server =
    (case active_conn server of Some i \<Rightarrow> client_handle (conns server ! i) | None \<Rightarrow> sv_client_handle server)"

definition set_client_handle :: "nat option \<Rightarrow> 'a mu_server \<Rightarrow> 'a mu_server" where
  "set_client_handle h server =
    (case active_conn server of
       Some i \<Rightarrow> server\<lparr>conns := (conns server)[i := (conns server ! i)\<lparr>client_handle := h\<rparr>]\<rparr>
     | None \<Rightarrow> server\<lparr>sv_client_handle := h\<rparr>)"

definition server_tcp_conn :: "'a mu_server \<Rightarrow> mu_tcp_connection" where
  "server_tcp_conn server =
    (case active_conn server of Some i \<Rightarrow> tcp_conn (conns server ! i) | None \<Rightarrow> sv_tcp_conn server)"

definition set_tcp_conn :: "mu_tcp_connection \<Rightarrow> 'a mu_server \<Rightarrow> 'a mu_server" where
  "set_tcp_conn t server =
    (case active_conn server of
       Some i \<Rightarrow> server\<lparr>conns := (conns server)[i := (conns server ! i)\<lparr>tcp_conn := t\<rparr>]\<rparr>
     | None \<Rightarrow> server\<lparr>sv_tcp_conn := t\<rparr>)"

section \<open>Sending\<close>

definition tcp_call :: "tcp_call \<Rightarrow> 'a mu_server \<Rightarrow> 'a mu_server" where
  "tcp_call x server = server\<lparr>tcp_calls := tcp_calls server @ [x]\<rparr>"

definition abort_connection :: "'a mu_server \<Rightarrow> 'a mu_server" where
  "abort_connection server = set_client_handle None (tcp_call (Tcp_close (server_client_handle server)) server)"

definition send_buffer_chunk :: "'a mu_server_config \<Rightarrow> nat \<Rightarrow> 'a mu_server \<Rightarrow> 'a mu_server" where
  "send_buffer_chunk cfg tot server =
    (let data = take tot (send_buffer server);
         server = tcp_call (Tcp_write (server_client_handle server) data) server in
     case tcp_write cfg data of
       (s, bytes_written) \<Rightarrow>
         if s \<noteq> MU_STATUS_GOOD \<or> bytes_written \<noteq> tot then
           set_client_handle None (tcp_call (Tcp_close (server_client_handle server)) server)
         else server)"

definition send_tcp_error_chunk :: "'a mu_server_config \<Rightarrow> opcua_statuscode_t \<Rightarrow> 'a mu_server \<Rightarrow> 'a mu_server" where
  "send_tcp_error_chunk cfg error_code server =
    (case mu_tcp_create_error_message error_code None (Some (send_buffer server)) (cfg_send_buffer_size (cf_transport cfg)) of
       (s, buffer, err_len) \<Rightarrow>
         let server = server\<lparr>send_buffer := the buffer\<rparr> in
         if s = MU_STATUS_GOOD then send_buffer_chunk cfg err_len server else server)"

text \<open>\<^verbatim>\<open>++server_secure_channel.out_sequence_number\<close>\<close>

definition next_out_seq :: "'a mu_server \<Rightarrow> opcua_uint32_t \<times> 'a mu_server" where
  "next_out_seq server =
    (let c = server_secure_channel server; n = out_sequence_number c + 1
     in (n, set_secure_channel (c\<lparr>out_sequence_number := n\<rparr>) server))"

text \<open>A MSG chunk under the channel's keys.\<close>

definition wrap_msg ::
  "mu_crypto \<Rightarrow> mu_secure_channel \<Rightarrow> opcua_uint32_t \<Rightarrow> opcua_uint32_t \<Rightarrow> bytes \<Rightarrow> bytes \<Rightarrow> nat \<Rightarrow>
   (opcua_statuscode_t + nat) \<times> bytes" where
  "wrap_msg cr c out_seq request_id body out out_cap =
    (if mu_security_policy_sym_mode (sc_policy c) = MU_SYM_MODE_AEAD_CHACHA20POLY1305
     then mu_sym_chunk_wrap_aead (cr_sym cr) (server_keys c) (cstr ''MSG'') (channel_id c) (token_id c) out_seq (out_seq - 1)
            request_id body out out_cap
     else mu_sym_chunk_wrap (cr_sym cr) (sc_mode c) (server_keys c) (cstr ''MSG'') (channel_id c) (token_id c) out_seq
            request_id body out out_cap)"

definition find_emit_connection :: "'a mu_server \<Rightarrow> 'a mu_server" where
  "find_emit_connection server =
    (case (active_conn server, active_session server) of
       (None, Some k) \<Rightarrow>
         server\<lparr>active_conn := find (\<lambda>i. client_handle (conns server ! i) \<noteq> None \<and>
            channel_id (secure_channel (conns server ! i)) = ss_secure_channel_id (sessions server ! k)) [0..<length (conns server)]\<rparr>
     | _ \<Rightarrow> server)"

definition mu_server_emit_message ::
  "'a mu_server_config \<Rightarrow> 'a mu_server \<Rightarrow> opcua_uint32_t \<Rightarrow> bytes \<Rightarrow> opcua_statuscode_t \<times> 'a mu_server" where
  "mu_server_emit_message cfg server request_id body =
    (let server = find_emit_connection server; size' = cfg_send_buffer_size (cf_transport cfg) in
     if active_conn server = None then (MU_STATUS_BAD_SECURECHANNELIDINVALID, server)
     else if sc_mode (server_secure_channel server) \<noteq> MU_MESSAGE_SECURITY_MODE_NONE then
       (if crypto_adapter cfg = None \<or> \<not> keys_valid (server_secure_channel server)
        then (MU_STATUS_BAD_SECURITYCHECKSFAILED, server)
        else (case next_out_seq server of
          (emit_seq, server) \<Rightarrow>
            (case wrap_msg (the (crypto_adapter cfg)) (server_secure_channel server) emit_seq request_id body (send_buffer server) size' of
               (Inl s, b) \<Rightarrow> (s, server\<lparr>send_buffer := b\<rparr>)
             | (Inr tot, b) \<Rightarrow> (MU_STATUS_GOOD, send_buffer_chunk cfg tot (server\<lparr>send_buffer := b\<rparr>)))))
     else if MU_UASC_SYMMETRIC_HEADER_SIZE > size' \<or> length body > size' - MU_UASC_SYMMETRIC_HEADER_SIZE
     then (MU_STATUS_BAD_RESPONSETOOLARGE, server)
     else
       let server = server\<lparr>send_buffer := put_at MU_UASC_SYMMETRIC_HEADER_SIZE body (send_buffer server)\<rparr> in
       (case next_out_seq server of
          (emit_seq, server) \<Rightarrow>
            (case mu_uasc_finalize_symmetric (Some (send_buffer server)) size' (channel_id (server_secure_channel server))
                    (token_id (server_secure_channel server)) emit_seq request_id (length body) of
               Inl s \<Rightarrow> (s, server)
             | Inr (b, tot) \<Rightarrow> (MU_STATUS_GOOD, send_buffer_chunk cfg tot (server\<lparr>send_buffer := b\<rparr>)))))"

section \<open>Receiving a chunk\<close>

definition accept_inbound_chunk ::
  "'a mu_server \<Rightarrow> bool \<Rightarrow> opcua_uint32_t \<Rightarrow> opcua_uint32_t \<Rightarrow> opcua_uint32_t \<Rightarrow> bool \<times> 'a mu_server" where
  "accept_inbound_chunk server is_opn cid tid sequence_number =
    (let c = server_secure_channel server in
     if \<not> is_opn \<and> (cid \<noteq> channel_id c \<or> tid \<noteq> token_id c) then (False, server)
     else (case mu_sequence_validate (sequence c) sequence_number of
             (s, v) \<Rightarrow> (s = MU_STATUS_GOOD, set_secure_channel (c\<lparr>sequence := v\<rparr>) server)))"

definition is_ns0_numeric_nodeid :: "mu_nodeid \<Rightarrow> bool" where
  "is_ns0_numeric_nodeid nodeid \<longleftrightarrow>
    (case ident nodeid of NUMERIC _ \<Rightarrow> namespace_index nodeid = 0 | _ \<Rightarrow> False)"

definition numeric_identifier :: "mu_nodeid \<Rightarrow> opcua_uint32_t" where
  "numeric_identifier nodeid = (case ident nodeid of NUMERIC n \<Rightarrow> n | _ \<Rightarrow> 0)"

text \<open>
  Dispatching a request and answering a failure with a ServiceFault, the same statements in the plaintext
  path, in the secured path and behind the chunk assembler.  The result says whether an OPN was rejected,
  and the length of the response, 0 when there is none to send.
\<close>

definition dispatch_or_fault ::
  "'a mu_server_config \<Rightarrow> (service_function \<Rightarrow> 'a service_call) \<Rightarrow> bool \<Rightarrow> mu_nodeid \<Rightarrow> mu_string \<Rightarrow> mu_bytestring \<Rightarrow>
   bytes \<Rightarrow> bytes \<Rightarrow> nat \<Rightarrow> 'a mu_server \<Rightarrow> bool \<times> nat \<times> bytes \<times> 'a mu_server" where
  "dispatch_or_fault cfg functions is_opn request_type policy cert req_body resp capacity server =
    (case (if \<not> is_ns0_numeric_nodeid request_type then (MU_STATUS_BAD_DECODINGERROR, capacity, resp, server)
           else
                 let server = (if is_opn then mu_service_dispatch_set_opn_client_cert (Some cert)
                                 (mu_service_dispatch_set_opn_security_policy (Some policy) server) else server) in
                 (case mu_service_dispatch functions (cf_tick cfg) server (numeric_identifier request_type) req_body resp capacity of
                    (s, len, resp, server) \<Rightarrow>
                      (s, len, resp, if is_opn then mu_service_dispatch_set_opn_client_cert None
                                (mu_service_dispatch_set_opn_security_policy None server) else server))) of
       (status, len, resp, server) \<Rightarrow>
         if status \<noteq> MU_STATUS_GOOD then
           (case mu_write_service_fault (cf_time cfg) resp capacity 0 status server of
              (Inr len, resp) \<Rightarrow> (is_opn, len, resp, server)
            | (Inl _, resp) \<Rightarrow> (is_opn, 0, resp, server))
         else (False, len, resp, server))"

definition close_rejected :: "bool \<Rightarrow> 'a mu_server \<Rightarrow> 'a mu_server" where
  "close_rejected opn_rejected server =
    (if opn_rejected \<and> is_open (server_secure_channel server)
     then set_secure_channel (fst (snd (mu_secure_channel_close (server_secure_channel server)))) server else server)"

section \<open>Plaintext chunks\<close>

record data_header =
  dh_channel_id :: opcua_uint32_t
  dh_token_id :: opcua_uint32_t
  dh_policy :: mu_string
  dh_sender_cert :: mu_bytestring
  dh_sequence :: mu_sequence_header

definition read_data_header :: "bool \<Rightarrow> data_header rd" where
  "read_data_header is_opn =
    rd_bind mu_binary_read_uint32 (\<lambda>cid.
    rd_bind
      (if is_opn then
         rd_bind mu_binary_read_string (\<lambda>policy.
         rd_bind mu_binary_read_bytestring (\<lambda>cert.
         rd_bind mu_binary_read_bytestring (\<lambda>thumbprint. rd_return (0, policy, cert))))
       else rd_bind mu_binary_read_uint32 (\<lambda>tid. rd_return (tid, null_string, null_string))) (\<lambda>(tid, policy, cert).
    rd_bind mu_binary_read_uint32 (\<lambda>sq.
    rd_bind mu_binary_read_uint32 (\<lambda>req.
    rd_return \<lparr>dh_channel_id = cid, dh_token_id = tid, dh_policy = policy, dh_sender_cert = cert,
      dh_sequence = \<lparr>sh_sequence_number = sq, sh_request_id = req\<rparr>\<rparr>))))"

text \<open>The response stands behind the place of its header in the send buffer; the header is written last.\<close>

definition send_plaintext :: "'a mu_server_config \<Rightarrow> bool \<Rightarrow> opcua_uint32_t \<Rightarrow> nat \<Rightarrow> 'a mu_server \<Rightarrow> 'a mu_server" where
  "send_plaintext cfg is_opn request_id payload_len server =
    (if payload_len > 0 then
       (case next_out_seq server of (out_seq, server) \<Rightarrow>
         let c = server_secure_channel server; size' = cfg_send_buffer_size (cf_transport cfg) in
         (case (if is_opn
                then mu_uasc_finalize_asymmetric_none (Some (send_buffer server)) size' (channel_id c) out_seq request_id payload_len
                else mu_uasc_finalize_symmetric (Some (send_buffer server)) size' (channel_id c) (token_id c) out_seq request_id payload_len) of
            Inl _ \<Rightarrow> server
          | Inr (b, tot) \<Rightarrow> send_buffer_chunk cfg tot (server\<lparr>send_buffer := b\<rparr>)))
     else server)"

definition handle_data_chunk_plaintext ::
  "'a mu_server_config \<Rightarrow> (service_function \<Rightarrow> 'a service_call) \<Rightarrow> 'a mu_server \<Rightarrow> bytes \<Rightarrow> bool \<Rightarrow> 'a mu_server" where
  "handle_data_chunk_plaintext cfg functions server msg is_opn =
    (case read_data_header is_opn ((mu_binary_reader_init (Some msg) (length msg))\<lparr>rd_position := 8\<rparr>) of
       (Inl _, _) \<Rightarrow> server
     | (Inr h, r) \<Rightarrow>
       (case accept_inbound_chunk server is_opn (dh_channel_id h) (dh_token_id h) (sh_sequence_number (dh_sequence h)) of
          (False, server) \<Rightarrow> abort_connection server
        | (True, server) \<Rightarrow>
          (case mu_binary_read_nodeid r of
             (Inl _, _) \<Rightarrow> server
           | (Inr request_type, r) \<Rightarrow>
             let body_offset = (if is_opn then MU_UASC_ASYMMETRIC_NONE_HEADER_SIZE else MU_UASC_SYMMETRIC_HEADER_SIZE);
                 size' = cfg_send_buffer_size (cf_transport cfg) in
             if body_offset \<ge> size' then server
             else
               let request_id = sh_request_id (dh_sequence h); server = server\<lparr>current_request_id := request_id\<rparr> in
               (case dispatch_or_fault cfg functions is_opn request_type (dh_policy h) (dh_sender_cert h)
                       (drop (rd_position r) msg) (drop body_offset (send_buffer server)) (size' - body_offset) server of
                  (opn_rejected, payload_len, resp, server) \<Rightarrow>
                    close_rejected opn_rejected
                      (send_plaintext cfg is_opn request_id payload_len
                        (server\<lparr>send_buffer := put_at body_offset resp (send_buffer server)\<rparr>))))))"

section \<open>Secured chunks\<close>

abbreviation (input) MU_SECURE_RESP_MAX :: nat where "MU_SECURE_RESP_MAX \<equiv> 11264"
abbreviation (input) MU_SECURE_OPN_REQ_MAX :: nat where "MU_SECURE_OPN_REQ_MAX \<equiv> 1024"
abbreviation (input) MU_SECURE_SCRATCH_SIZE :: nat where "MU_SECURE_SCRATCH_SIZE \<equiv> 14336"

record unwrapped =
  uw_request :: bytes
  uw_request_id :: opcua_uint32_t
  uw_channel_id :: opcua_uint32_t
  uw_token_id :: opcua_uint32_t
  uw_sequence :: opcua_uint32_t
  uw_policy :: mu_string
  uw_client_cert :: "bytes option"

definition secure_unwrap_opn ::
  "'a mu_server_config \<Rightarrow> mu_crypto \<Rightarrow> 'a mu_server \<Rightarrow> bytes \<Rightarrow> unwrapped option \<times> 'a mu_server" where
  "secure_unwrap_opn cfg crypto server msg =
    (case rd_bind mu_binary_read_uint32 (\<lambda>_. mu_binary_read_string)
            ((mu_binary_reader_init (Some msg) (length msg))\<lparr>rd_position := 8\<rparr>) of
       (Inl _, _) \<Rightarrow> (None, server)
     | (Inr security_policy, _) \<Rightarrow>
       (case mu_asym_chunk_unwrap \<lparr>up_crypto = Some (cr_asym crypto), up_chunk = Some msg, up_chunk_len = length msg,
               up_out_body = Some (slice MU_SECURE_RESP_MAX MU_SECURE_OPN_REQ_MAX (cf_scratch cfg)),
               up_out_cap = MU_SECURE_OPN_REQ_MAX, up_scratch_len = MU_SECURE_SCRATCH_SIZE\<rparr> of
          Inl _ \<Rightarrow> (None, server)
        | Inr (ai, body, body_len) \<Rightarrow>
            (Some \<lparr>uw_request = take body_len body, uw_request_id = ai_request_id ai, uw_channel_id = ai_secure_channel_id ai,
               uw_token_id = 0, uw_sequence = ai_sequence_number ai, uw_policy = security_policy,
               uw_client_cert = ai_sender_cert ai\<rparr>,
             set_secure_channel ((server_secure_channel server)\<lparr>sc_policy := ai_policy ai\<rparr>) server)))"

definition secure_unwrap_msg :: "mu_crypto \<Rightarrow> mu_secure_channel \<Rightarrow> bytes \<Rightarrow> unwrapped option \<times> bytes" where
  "secure_unwrap_msg crypto c msg =
    (if \<not> keys_valid c then (None, msg)
     else (case (if mu_security_policy_sym_mode (sc_policy c) = MU_SYM_MODE_AEAD_CHACHA20POLY1305
                 then mu_sym_chunk_unwrap_aead (cr_sym crypto) (client_keys c) msg (length msg) (in_last_sequence_number c)
                 else mu_sym_chunk_unwrap (cr_sym crypto) (sc_mode c) (client_keys c) msg (length msg)) of
             (Inl _, msg) \<Rightarrow> (None, msg)
           | (Inr (si, off, len), msg) \<Rightarrow>
               (Some \<lparr>uw_request = slice off len msg, uw_request_id = ci_request_id si, uw_channel_id = ci_secure_channel_id si,
                  uw_token_id = ci_token_id si, uw_sequence = ci_sequence_number si, uw_policy = null_string,
                  uw_client_cert = None\<rparr>, msg)))"

text \<open>Protecting and sending the response.\<close>

definition send_secured ::
  "'a mu_server_config \<Rightarrow> mu_crypto \<Rightarrow> bool \<Rightarrow> unwrapped \<Rightarrow> bytes \<Rightarrow> 'a mu_server \<Rightarrow> 'a mu_server" where
  "send_secured cfg crypto is_opn u body server =
    (case next_out_seq server of (out_seq, server) \<Rightarrow>
      let c = server_secure_channel server; size' = cfg_send_buffer_size (cf_transport cfg) in
      if is_opn then
        (case mu_asym_chunk_wrap \<lparr>wp_crypto = Some (cr_asym crypto), wp_policy = sc_policy c, wp_secure_channel_id = channel_id c,
                wp_sequence_number = out_seq, wp_request_id = uw_request_id u, wp_receiver_cert = uw_client_cert u,
                wp_body = body, wp_out = Some (send_buffer server), wp_out_cap = size'\<rparr> of
           Inl _ \<Rightarrow> server
         | Inr (tot, b) \<Rightarrow> send_buffer_chunk cfg tot (server\<lparr>send_buffer := b\<rparr>))
      else
        (case wrap_msg crypto c out_seq (uw_request_id u) body (send_buffer server) size' of
           (Inl _, b) \<Rightarrow> server\<lparr>send_buffer := b\<rparr>
         | (Inr tot, b) \<Rightarrow> send_buffer_chunk cfg tot (server\<lparr>send_buffer := b\<rparr>)))"

text \<open>What follows the unwrapping.\<close>

definition handle_unwrapped ::
  "'a mu_server_config \<Rightarrow> (service_function \<Rightarrow> 'a service_call) \<Rightarrow> mu_crypto \<Rightarrow> bool \<Rightarrow> unwrapped \<Rightarrow> 'a mu_server \<Rightarrow> 'a mu_server" where
  "handle_unwrapped cfg functions crypto is_opn u server =
    (case accept_inbound_chunk server is_opn (uw_channel_id u) (uw_token_id u) (uw_sequence u) of
       (False, server) \<Rightarrow> abort_connection server
     | (True, server) \<Rightarrow>
       let server = set_secure_channel ((server_secure_channel server)\<lparr>in_last_sequence_number := uw_sequence u\<rparr>) server in
       (case mu_binary_read_nodeid (mu_binary_reader_init (Some (uw_request u)) (length (uw_request u))) of
          (Inl _, _) \<Rightarrow> server
        | (Inr request_type, rr) \<Rightarrow>
          (case dispatch_or_fault cfg functions is_opn request_type (uw_policy u)
                  \<lparr>str_length = (case uw_client_cert u of None \<Rightarrow> 0 | Some b \<Rightarrow> mu_safe_int32_from_size_t (length b)),
                   str_data = uw_client_cert u\<rparr>
                  (drop (rd_position rr) (uw_request u)) (take MU_SECURE_RESP_MAX (cf_scratch cfg)) MU_SECURE_RESP_MAX
                  (server\<lparr>current_request_id := uw_request_id u\<rparr>) of
             (opn_rejected, resp_len, resp, server) \<Rightarrow>
               if resp_len = 0 then server
               else close_rejected opn_rejected (send_secured cfg crypto is_opn u (take resp_len resp) server))))"

definition handle_data_chunk_secure ::
  "'a mu_server_config \<Rightarrow> (service_function \<Rightarrow> 'a service_call) \<Rightarrow> mu_crypto \<Rightarrow> 'a mu_server \<Rightarrow> bytes \<Rightarrow> bool \<Rightarrow>
   'a mu_server \<times> bytes" where
  "handle_data_chunk_secure cfg functions crypto server msg is_opn =
    (if \<not> is_opn \<and> sc_policy (server_secure_channel server) = MU_SECURITY_POLICY_NONE_ID
     then (handle_data_chunk_plaintext cfg functions server msg False, msg)
     else if is_opn then
       (case secure_unwrap_opn cfg crypto server msg of
          (None, server) \<Rightarrow> (server, msg)
        | (Some u, server) \<Rightarrow> (handle_unwrapped cfg functions crypto True u server, msg))
     else
       (case secure_unwrap_msg crypto (server_secure_channel server) msg of
          (None, msg) \<Rightarrow> (server, msg)
        | (Some u, msg) \<Rightarrow> (handle_unwrapped cfg functions crypto False u server, msg)))"

section \<open>Messages\<close>

definition process_message_hello :: "'a mu_server_config \<Rightarrow> 'a mu_server \<Rightarrow> bytes \<Rightarrow> 'a mu_server" where
  "process_message_hello cfg server msg =
    (case mu_tcp_process_hello (server_tcp_conn server) (Some msg) (length msg) (cf_transport cfg) (Some (send_buffer server))
            (cfg_send_buffer_size (cf_transport cfg)) of
       (status, t, ack, ack_length) \<Rightarrow>
         let server = set_tcp_conn t (server\<lparr>send_buffer := the ack\<rparr>) in
         if status = MU_STATUS_GOOD then send_buffer_chunk cfg ack_length server else abort_connection server)"

definition chunk_reset :: "'a mu_server \<Rightarrow> 'a mu_server" where
  "chunk_reset server = server\<lparr>chunk_assembly := mu_chunk_assembler_reset (chunk_assembly server)\<rparr>"

text \<open>Appending to the assembler: \<^const>\<open>None\<close> when there is no room.\<close>

definition chunk_append :: "mu_chunk_assembler \<Rightarrow> bytes \<Rightarrow> mu_chunk_assembler option" where
  "chunk_append ca body =
    (if ca_length ca + length body > length (ca_buffer ca) then None
     else Some (ca\<lparr>ca_buffer := put_at (ca_length ca) body (ca_buffer ca), ca_length := ca_length ca + length body\<rparr>))"

definition process_message_multi_chunk_continuation ::
  "'a mu_server_config \<Rightarrow> 'a mu_server \<Rightarrow> bytes \<Rightarrow> 'a mu_server" where
  "process_message_multi_chunk_continuation cfg server msg =
    (if length msg \<le> MU_UASC_SYMMETRIC_HEADER_SIZE then send_tcp_error_chunk cfg MU_STATUS_BAD_TCPINTERNALERROR server
     else
       let ca = chunk_assembly server;
           ca = (if \<not> ca_is_active ca then ca\<lparr>ca_is_active := True, ca_length := 0\<rparr> else ca) in
       (case chunk_append ca (drop MU_UASC_SYMMETRIC_HEADER_SIZE msg) of
          None \<Rightarrow> send_tcp_error_chunk cfg MU_STATUS_BAD_TCPINTERNALERROR (chunk_reset (server\<lparr>chunk_assembly := ca\<rparr>))
        | Some ca \<Rightarrow> server\<lparr>chunk_assembly := ca\<rparr>))"

definition process_message_multi_chunk_final_dispatch ::
  "'a mu_server_config \<Rightarrow> (service_function \<Rightarrow> 'a service_call) \<Rightarrow> 'a mu_server \<Rightarrow> mu_nodeid \<Rightarrow> opcua_uint32_t \<Rightarrow> bytes \<Rightarrow>
   'a mu_server" where
  "process_message_multi_chunk_final_dispatch cfg functions server request_type request_id req_body =
    (let body_offset = MU_UASC_SYMMETRIC_HEADER_SIZE; size' = cfg_send_buffer_size (cf_transport cfg) in
     if body_offset \<ge> size' then chunk_reset server
     else
       (case dispatch_or_fault cfg functions False request_type null_string null_string req_body
               (drop body_offset (send_buffer server)) (size' - body_offset) (server\<lparr>current_request_id := request_id\<rparr>) of
          (_, payload_len, resp, server) \<Rightarrow>
            chunk_reset (send_plaintext cfg False request_id payload_len
              (server\<lparr>send_buffer := put_at body_offset resp (send_buffer server)\<rparr>))))"

definition process_message_multi_chunk_final ::
  "'a mu_server_config \<Rightarrow> (service_function \<Rightarrow> 'a service_call) \<Rightarrow> 'a mu_server \<Rightarrow> bytes \<Rightarrow> 'a mu_server" where
  "process_message_multi_chunk_final cfg functions server msg =
    (if length msg \<le> MU_UASC_SYMMETRIC_HEADER_SIZE then chunk_reset server
     else (case chunk_append (chunk_assembly server) (drop MU_UASC_SYMMETRIC_HEADER_SIZE msg) of
       None \<Rightarrow> chunk_reset server
     | Some ca \<Rightarrow>
       let server = server\<lparr>chunk_assembly := ca\<rparr> in
       (case read_data_header False ((mu_binary_reader_init (Some msg) (length msg))\<lparr>rd_position := 8\<rparr>) of
          (Inl _, _) \<Rightarrow> chunk_reset server
        | (Inr h, _) \<Rightarrow>
          (case accept_inbound_chunk server False (dh_channel_id h) (dh_token_id h) (sh_sequence_number (dh_sequence h)) of
             (False, server) \<Rightarrow> abort_connection (chunk_reset server)
           | (True, server) \<Rightarrow>
             (case mu_binary_read_nodeid (mu_binary_reader_init (Some (ca_buffer ca)) (ca_length ca)) of
                (Inl _, _) \<Rightarrow> chunk_reset server
              | (Inr request_type, r) \<Rightarrow>
                  process_message_multi_chunk_final_dispatch cfg functions server request_type
                    (sh_request_id (dh_sequence h)) (slice (rd_position r) (ca_length ca - rd_position r) (ca_buffer ca)))))))"

definition process_message_opn_or_msg ::
  "'a mu_server_config \<Rightarrow> (service_function \<Rightarrow> 'a service_call) \<Rightarrow> 'a mu_server \<Rightarrow> bytes \<Rightarrow> bool \<Rightarrow> 'a mu_server \<times> bytes" where
  "process_message_opn_or_msg cfg functions server msg is_opn =
    (case crypto_adapter cfg of
       Some crypto \<Rightarrow> handle_data_chunk_secure cfg functions crypto server msg is_opn
     | None \<Rightarrow> (handle_data_chunk_plaintext cfg functions server msg is_opn, msg))"

text \<open>
  The chunk type in the header is set before any check of the header but that of the eight bytes, so a
  header that does not parse has the chunk type of its fourth byte, or 0.
\<close>

definition process_message ::
  "'a mu_server_config \<Rightarrow> (service_function \<Rightarrow> 'a service_call) \<Rightarrow> 'a mu_server \<Rightarrow> bytes \<Rightarrow> 'a mu_server \<times> bytes" where
  "process_message cfg functions server msg =
    (if tcp_state (server_tcp_conn server) = MU_TCP_STATE_CLOSED then (process_message_hello cfg server msg, msg)
     else (case mu_parse_message_header (Some msg) (length msg) of
       Inl status \<Rightarrow>
         (chunk_reset (if 8 \<le> length msg \<and> msg ! 3 = 0x43 then send_tcp_error_chunk cfg status server else server), msg)
     | Inr header \<Rightarrow>
       let t = mh_message_type header; is_opn = (t = cstr ''OPN''); is_msg = (t = cstr ''MSG''); is_clo = (t = cstr ''CLO'') in
       if is_msg \<and> mh_chunk_type header = 0x43 then (process_message_multi_chunk_continuation cfg server msg, msg)
       else if is_msg \<and> mh_chunk_type header = 0x46 \<and> ca_is_active (chunk_assembly server)
       then (process_message_multi_chunk_final cfg functions server msg, msg)
       else if is_clo then
         (abort_connection (set_secure_channel (fst (snd (mu_secure_channel_close (server_secure_channel server)))) server), msg)
       else if \<not> is_opn \<and> \<not> is_msg then (server, msg)
       else process_message_opn_or_msg cfg functions server msg is_opn))"

section \<open>Frames\<close>

lemma sequence_rejected: "mu_sequence_validate v s = (st, v') \<Longrightarrow> st \<noteq> MU_STATUS_GOOD \<Longrightarrow> v' = v"
  by (auto simp: mu_sequence_validate_def split: if_splits)

lemma accept_inbound_False:
  assumes "accept_inbound_chunk server is_opn cid tid sq = (False, server')"
  shows "server' = server"
proof -
  let ?c = "server_secure_channel server"
  have "?c\<lparr>sequence := sequence ?c\<rparr> = ?c" by simp
  then show ?thesis
    using assms sequence_rejected [of "sequence ?c" sq] set_channel_same [of server]
    by (auto simp: accept_inbound_chunk_def Let_def split: if_splits prod.splits)
qed

lemma accept_inbound_True:
  assumes "accept_inbound_chunk server is_opn cid tid sq = (True, server')"
  shows "is_opn \<or> cid = channel_id (server_secure_channel server) \<and> tid = token_id (server_secure_channel server)"
    "fst (mu_sequence_validate (sequence (server_secure_channel server)) sq) = MU_STATUS_GOOD"
    "server' = set_secure_channel ((server_secure_channel server)\<lparr>sequence := snd (mu_sequence_validate (sequence (server_secure_channel server)) sq)\<rparr>) server"
  using assms by (auto simp: accept_inbound_chunk_def Let_def split: if_splits prod.splits)

section \<open>Secured requests\<close>

text \<open>A single MSG chunk, outside any assembly, on a connection that has said Hello.\<close>

definition single_msg :: "'a mu_server \<Rightarrow> bytes \<Rightarrow> bool" where
  "single_msg server msg \<longleftrightarrow> tcp_state (server_tcp_conn server) \<noteq> MU_TCP_STATE_CLOSED \<and> \<not> ca_is_active (chunk_assembly server) \<and>
    (\<exists>h. mu_parse_message_header (Some msg) (length msg) = Inr h \<and> mh_message_type h = cstr ''MSG'' \<and> mh_chunk_type h = 0x46)"

lemma message_types: "cstr ''MSG'' \<noteq> cstr ''OPN''" "cstr ''MSG'' \<noteq> cstr ''CLO''" "cstr ''CLO'' \<noteq> cstr ''OPN''"
  by (simp_all add: cstr_def)

lemma process_single_msg:
  assumes "single_msg server msg" "crypto_adapter cfg = Some cr"
    "sc_policy (server_secure_channel server) \<noteq> MU_SECURITY_POLICY_NONE_ID"
  shows "process_message cfg functions server msg =
    (case secure_unwrap_msg cr (server_secure_channel server) msg of
       (None, msg') \<Rightarrow> (server, msg')
     | (Some u, msg') \<Rightarrow> (handle_unwrapped cfg functions cr False u server, msg'))"
  using assms message_types
  by (auto simp: single_msg_def process_message_def process_message_opn_or_msg_def handle_data_chunk_secure_def Let_def)

lemma unwrap_names:
  assumes "mu_sym_chunk_unwrap crypto mode keys chunk n = (Inr (info, off, len), chunk')"
  shows "ci_secure_channel_id info = get_u32 (slice 8 4 chunk)" "ci_token_id info = get_u32 (slice 12 4 chunk)"
    "if mode = MU_MESSAGE_SECURITY_MODE_SIGN_AND_ENCRYPT
     then \<exists>p. sym_decrypt crypto keys (slice 16 (unat (get_u32 (slice 4 4 chunk)) - 16) chunk) = Inr p \<and> chunk' = put_at 16 p chunk
     else chunk' = chunk"
  using assms by (auto simp: mu_sym_chunk_unwrap_def sym_verify_def Let_def split: if_splits sum.splits)

abbreviation aead_channel :: "mu_secure_channel \<Rightarrow> bool" where
  "aead_channel c \<equiv> mu_security_policy_sym_mode (sc_policy c) = MU_SYM_MODE_AEAD_CHACHA20POLY1305"

text \<open>
  What makes a chunk the client's, with \<open>plain\<close> its bytes after decryption in place.  Under authenticated
  encryption the ciphertext and tag decrypt under the client's key, with the nonce of the token id and the
  last sequence number and with the header as associated data.  Under the other policies the bytes (first
  decrypted, if the mode encrypts) end, at the size the message announces, in the MAC of all bytes before it.
\<close>

definition authenticated :: "mu_crypto \<Rightarrow> mu_secure_channel \<Rightarrow> bytes \<Rightarrow> bytes \<Rightarrow> bool" where
  "authenticated cr c msg plain \<longleftrightarrow>
    (let M = unat (get_u32 (slice 4 4 msg)); k = client_keys c in
     M \<le> length msg \<and>
     (if aead_channel c then
        40 \<le> M \<and> (\<exists>decrypt p. chacha20_poly1305_decrypt (cr_sym cr) = Some decrypt \<and>
          decrypt (encrypting_key k) (aead_build_iv (sk_iv k) (get_u32 (slice 12 4 msg)) (in_last_sequence_number c)) (take 16 msg)
            (slice 16 (M - 32) msg) (slice (M - 16) 16 msg) = Inr p \<and> plain = put_at 16 p msg)
      else
        56 \<le> M \<and>
        (if sc_mode c = MU_MESSAGE_SECURITY_MODE_SIGN_AND_ENCRYPT
         then \<exists>p. sym_decrypt (cr_sym cr) k (slice 16 (M - 16) msg) = Inr p \<and> plain = put_at 16 p msg else plain = msg) \<and>
        hmac_sha256 (cr_sym cr) (signing_key k) (take (M - 32) plain) = Inr (slice (M - 32) 32 plain)))"

lemma aead_unwrap_authentic:
  assumes "mu_sym_chunk_unwrap_aead (cr_sym cr) (client_keys c) msg (length msg) (in_last_sequence_number c) = (Inr (si, off, len), msg')"
    and "aead_channel c"
  shows "authenticated cr c msg msg'" "ci_secure_channel_id si = get_u32 (slice 8 4 msg)" "ci_token_id si = get_u32 (slice 12 4 msg)"
    "ci_sequence_number si = get_u32 (slice 16 4 msg')"
proof -
  define M where "M = unat (get_u32 (slice 4 4 msg))"
  have e: "16 + (M - 16 - 16) = M - 16" if "40 \<le> M" using that by simp
  show "authenticated cr c msg msg'" "ci_secure_channel_id si = get_u32 (slice 8 4 msg)" "ci_token_id si = get_u32 (slice 12 4 msg)"
    "ci_sequence_number si = get_u32 (slice 16 4 msg')"
    using assms e unfolding mu_sym_chunk_unwrap_aead_def authenticated_def M_def [symmetric] Let_def
    by (auto simp: not_less split: option.splits if_splits sum.splits)
qed

lemma cbc_unwrap_authentic:
  assumes w: "mu_sym_chunk_unwrap (cr_sym cr) (sc_mode c) (client_keys c) msg (length msg) = (Inr (si, off, len), msg')"
    and "\<not> aead_channel c" and laws: "hmac_length (cr_sym cr)" "decrypts_keep_length (cr_sym cr)"
  shows "authenticated cr c msg msg'" "ci_secure_channel_id si = get_u32 (slice 8 4 msg)" "ci_token_id si = get_u32 (slice 12 4 msg)"
    "ci_sequence_number si = get_u32 (slice 16 4 msg')"
proof -
  note i = unwrap_Inr [OF w laws le_refl refl]
  define M where "M = unat (get_u32 (slice 4 4 msg))"
  obtain info0 where "sym_verify (cr_sym cr) (sc_mode c) (client_keys c) msg' M info0 = Inr (si, off, len)"
    using i(7) unfolding M_def by blast
  moreover have "M \<le> length msg'" using i(1,3) unfolding M_def by simp
  ultimately have v: "24 + len + 32 \<le> M" 
    "hmac_sha256 (cr_sym cr) (signing_key (client_keys c)) (take (M - 32) msg') = Inr (slice (M - 32) 32 msg')"
    "ci_sequence_number si = get_u32 (slice 16 4 msg')"
    using sym_verify_Inr [OF _ laws(1)] by fastforce+
  show "authenticated cr c msg msg'"
    using v(1,2) i(1) unwrap_names(3) [OF w] assms(2) unfolding authenticated_def M_def [symmetric] Let_def by simp
  show "ci_secure_channel_id si = get_u32 (slice 8 4 msg)" "ci_token_id si = get_u32 (slice 12 4 msg)"
    "ci_sequence_number si = get_u32 (slice 16 4 msg')"
    using unwrap_names(1,2) [OF w] v(3) by simp_all
qed

lemma secure_unwrap_msg_Some:
  assumes "secure_unwrap_msg cr c msg = (Some u, msg')" and "hmac_length (cr_sym cr)" "decrypts_keep_length (cr_sym cr)"
  shows "keys_valid c" "authenticated cr c msg msg'" "uw_channel_id u = get_u32 (slice 8 4 msg)"
    "uw_token_id u = get_u32 (slice 12 4 msg)" "uw_sequence u = get_u32 (slice 16 4 msg')"
proof -
  obtain si off len where k: "keys_valid c"
    and w: "(if aead_channel c then mu_sym_chunk_unwrap_aead (cr_sym cr) (client_keys c) msg (length msg) (in_last_sequence_number c)
      else mu_sym_chunk_unwrap (cr_sym cr) (sc_mode c) (client_keys c) msg (length msg)) = (Inr (si, off, len), msg')"
    and u: "uw_channel_id u = ci_secure_channel_id si" "uw_token_id u = ci_token_id si" "uw_sequence u = ci_sequence_number si"
    using assms(1) by (auto simp: secure_unwrap_msg_def split: if_split_asm sum.splits prod.splits)
  show "keys_valid c" by (rule k)
  show "authenticated cr c msg msg'" "uw_channel_id u = get_u32 (slice 8 4 msg)"
    "uw_token_id u = get_u32 (slice 12 4 msg)" "uw_sequence u = get_u32 (slice 16 4 msg')"
    unfolding u using w aead_unwrap_authentic [of cr c msg si off len msg'] cbc_unwrap_authentic [OF _ _ assms(2,3), of c msg si off len msg']
    by (cases "aead_channel c"; simp)+
qed

lemma handle_unwrapped_rejected:
  assumes "fst (accept_inbound_chunk server is_opn (uw_channel_id u) (uw_token_id u) (uw_sequence u)) = False"
  shows "handle_unwrapped cfg functions cr is_opn u server = abort_connection server"
proof -
  obtain server' where a: "accept_inbound_chunk server is_opn (uw_channel_id u) (uw_token_id u) (uw_sequence u) = (False, server')"
    using assms by (cases "accept_inbound_chunk server is_opn (uw_channel_id u) (uw_token_id u) (uw_sequence u)") auto
  then show ?thesis using accept_inbound_False [OF a] by (simp add: handle_unwrapped_def)
qed

section \<open>Delivering a request\<close>

lemma wrap_shape:
  assumes wr: "mu_sym_chunk_wrap crypto mode keys mt scid tok sq req body out out_cap = (Inr n, out')"
    and len: "3 \<le> length mt" "out_cap \<le> length out" and hm: "hmac_length crypto" "ciphers_inverse crypto"
  shows "56 \<le> n" "n \<le> out_cap" "length out' = length out" "take 16 out' = take 16 (sym_header mt n scid tok sq req)"
proof -
  have m: "mode = MU_MESSAGE_SECURITY_MODE_SIGN \<or> mode = MU_MESSAGE_SECURITY_MODE_SIGN_AND_ENCRYPT"
    using wr by (auto simp: mu_sym_chunk_wrap_def split: if_splits)
  have "56 \<le> n \<and> n \<le> out_cap \<and> length out' = length out \<and> take 16 out' = take 16 (sym_header mt n scid tok sq req)"
    using m
  proof
    assume m: "mode = MU_MESSAGE_SECURITY_MODE_SIGN"
    define T where "T = 16 + (8 + length body) + 32"
    let ?h = "sym_header mt T scid tok sq req"
    obtain mac where mac: "hmac_sha256 crypto (signing_key keys) (?h @ body) = Inr mac" "n = T" "T \<le> out_cap"
        "out' = put_at (24 + length body) mac (put_at 0 (?h @ body) out)"
      using wr unfolding m wrap_sign [OF len(1,2) T_def] by (auto split: if_splits sum.splits)
    have "length mac = 32" using hm(1) mac(1) by (simp add: hmac_length_def)
    then show ?thesis using mac(2-4) len by (simp add: T_def put_at_def min_def)
  next
    assume m: "mode = MU_MESSAGE_SECURITY_MODE_SIGN_AND_ENCRYPT"
    define p where "p = (MU_SYM_BLOCK - (8 + length body + 1 + 32) mod MU_SYM_BLOCK) mod MU_SYM_BLOCK"
    define T where "T = 16 + (8 + length body + 1 + 32 + p)"
    let ?h = "sym_header mt T scid tok sq req"
    define s where "s = ?h @ body @ of_nat p # replicate p (of_nat p :: opcua_byte_t)"
    let ?o = "\<lambda>mac. put_at (length s) mac (put_at 0 s out)"
    obtain mac c where mac: "hmac_sha256 crypto (signing_key keys) s = Inr mac" "n = T" "T \<le> out_cap"
        "sym_encrypt crypto keys (slice 16 (8 + length body + 1 + 32 + p) (?o mac)) = Inr c" "out' = put_at 16 c (?o mac)"
      using wr unfolding m wrap_encrypt [OF len(1,2) p_def T_def s_def] by (auto split: if_splits sum.splits)
    have lm: "length mac = 32" using hm(1) mac(1) by (simp add: hmac_length_def)
    have ls: "length s = 25 + length body + p" using len(1) by (simp add: s_def)
    have lo: "length (?o mac) = length out" "take 16 (?o mac) = take 16 ?h"
      using mac(3) len lm ls by (simp_all add: put_at_def T_def s_def min_def)
    have lc: "length c = 8 + length body + 1 + 32 + p"
      using sym_decrypt_encrypt [OF hm(2) mac(4)] lo(1) mac(3) len(2) by (simp add: T_def)
    obtain ob where ob: "out' = put_at 16 c ob" "length ob = length out" "take 16 ob = take 16 ?h" using mac(5) lo by blast
    show ?thesis using mac(2,3) ob lc len by (simp add: T_def take_put_at)
  qed
  then show "56 \<le> n" "n \<le> out_cap" "length out' = length out" "take 16 out' = take 16 (sym_header mt n scid tok sq req)" by simp_all
qed

lemma sym_verify_take:
  assumes "M \<le> n" "n \<le> length b" "hmac_length c"
  shows "sym_verify c mode keys (take n b) M info = sym_verify c mode keys b M info"
proof (cases "M < 56")
  case False
  have t: "take (M - 32) (take n b) = take (M - 32) b" using assms(1) by simp
  have d: "mu_secure_memeq mac (drop (M - 32) (take n b)) 32 = mu_secure_memeq mac (drop (M - 32) b) 32" if "length mac = 32" for mac
  proof -
    have "32 \<le> n - (M - 32)" using assms(1) False by linarith
    then have "take 32 (drop (M - 32) (take n b)) = take 32 (drop (M - 32) b)"
      by (simp add: drop_take min_absorb1)
    then show ?thesis using assms False that by (simp add: mu_secure_memeq_iff)
  qed
  have i: "(take n b) ! (M - 33) = b ! (M - 33)" "(take n b) ! (M - 33 - k) = b ! (M - 33 - k)" for k
    using assms False by simp_all
  have s: "slice 16 4 (take n b) = slice 16 4 b" "slice 20 4 (take n b) = slice 20 4 b"
    using assms False by (simp_all add: slice_def drop_take min_def)
  show ?thesis
  proof (cases "hmac_sha256 c (signing_key keys) (take (M - 32) b)")
    case (Inr mac)
    then have "length mac = 32" using assms(3) by (simp add: hmac_length_def)
    then show ?thesis using d i s unfolding sym_verify_def Let_def t Inr by (simp del: upt_Suc)
  qed (unfold sym_verify_def Let_def t, simp)
qed (simp add: sym_verify_def)

lemma unwrap_take:
  assumes "mu_sym_chunk_unwrap c mode keys b n = (Inr x, b')" "n \<le> length b" "hmac_length c" "decrypts_keep_length c"
  shows "mu_sym_chunk_unwrap c mode keys (take n b) n = (Inr x, take n b')"
proof -
  define M where "M = unat (get_u32 (slice 4 4 b))"
  have le: "\<not> n < 16" "M \<le> n" "16 \<le> M"
    using assms(1) by (auto simp: mu_sym_chunk_unwrap_def M_def Let_def split: if_splits)
  have s: "slice 4 4 (take n b) = slice 4 4 b" "slice 8 4 (take n b) = slice 8 4 b" "slice 12 4 (take n b) = slice 12 4 b"
    "take 3 (take n b) = take 3 b" "slice 16 (M - 16) (take n b) = slice 16 (M - 16) b"
    using le by (simp_all add: slice_def drop_take min_def)
  have p: "put_at 16 y (take n b) = take n (put_at 16 y b)" if "length y = M - 16" for y
  proof (cases "n = 16")
    case True
    then show ?thesis using le that by (simp add: put_at_def)
  qed (use le assms(2) that in \<open>simp add: put_at_def drop_take min_def\<close>)
  have v: "sym_verify c mode keys (put_at 16 y (take n b)) M i = sym_verify c mode keys (put_at 16 y b) M i"
    if "length y = M - 16" for y i
    unfolding p [OF that] using le assms(2) that by (intro sym_verify_take assms(3)) simp_all
  show ?thesis
  proof (cases "mode = MU_MESSAGE_SECURITY_MODE_SIGN_AND_ENCRYPT")
    case True
    then obtain y where y: "sym_decrypt c keys (slice 16 (M - 16) b) = Inr y"
      using assms(1) le by (auto simp: mu_sym_chunk_unwrap_def M_def [symmetric] Let_def split: if_splits sum.splits)
    have "length y = M - 16" using sym_decrypt_length [OF assms(4) y] le assms(2) by simp
    then show ?thesis
      using assms(1) le y True v p unfolding mu_sym_chunk_unwrap_def s M_def [symmetric] Let_def
      by (auto simp: s split: if_splits)
  next
    case False
    then show ?thesis
      using assms(1-3) le sym_verify_take [of M n b] unfolding mu_sym_chunk_unwrap_def s M_def [symmetric] Let_def
      by (auto split: if_splits)
  qed
qed

lemma msg_header_parses:
  assumes "take 16 msg = take 16 (sym_header (cstr ''MSG'') n scid tok sq req)" "length msg = n" "16 \<le> n" "n < 2 ^ 32"
  shows "\<exists>h. mu_parse_message_header (Some msg) (length msg) = Inr h \<and> mh_message_type h = cstr ''MSG'' \<and> mh_chunk_type h = 0x46"
proof -
  let ?h = "sym_header (cstr ''MSG'') n scid tok sq req"
  have mt: "cstr ''MSG'' = [0x4D, 0x53, 0x47]" by (simp add: cstr_def)
  have t3: "take 3 msg = cstr ''MSG''"
    using arg_cong [OF assms(1), of "take 3"] by (simp add: sym_header_def mt)
  have "msg ! 3 = ?h ! 3"
    using arg_cong [OF assms(1), of "\<lambda>x. x ! 3"] by simp
  then have c: "msg ! 3 = 0x46" by (simp add: sym_header_def mt)
  have "slice 4 4 msg = slice 4 4 ?h"
    using arg_cong [OF assms(1), of "slice 4 4"] by (simp add: slice_def drop_take)
  then have s: "mu_binary_le_get_u32 (slice 4 4 msg) = of_nat n"
    using sym_header_fields(2) [of "cstr ''MSG''" n scid tok sq req] by (simp add: get_u32_eq [symmetric] mt)
  have u: "unat (of_nat n :: 32 word) = n" using assms(4) by (rule get_u32_tot)
  then have ge: "\<not> (of_nat n :: 32 word) < 8" "\<not> (of_nat n :: 32 word) < 12"
    using assms(3) by (simp_all add: word_less_nat_alt)
  have m: "msg_type_of (cstr ''MSG'') = MSG" by (simp add: msg_type_of_def mt MSG_def)
  show ?thesis
    using assms(2,3) c u ge m
    by (simp add: mu_parse_message_header_def t3 s Let_def HEL_def ACK_def ERR_def OPN_def CLO_def MSG_def)
qed

lemma unwrap_body_inside:
  assumes "mu_sym_chunk_unwrap c mode keys chunk n = (Inr (info, off, len), chunk')" "hmac_length c" "decrypts_keep_length c" "n \<le> length chunk"
  shows "24 + len \<le> n"
proof -
  note i = unwrap_Inr [OF assms refl]
  let ?M = "unat (get_u32 (slice 4 4 chunk))"
  obtain info0 where v: "sym_verify c mode keys chunk' ?M info0 = Inr (info, off, len)" using i(7) by blast
  have "24 + len + 32 \<le> ?M" by (rule sym_verify_Inr(2) [OF v assms(2)]) (use i(1,3) assms(4) in simp)
  then show ?thesis using i(1) by simp
qed

text \<open>
  A chunk of the channel as either end builds it and as the other end reads it.  A client protects its
  requests with the client's keys and, under authenticated encryption, with the sequence number the server
  saw last; \<open>wrap_msg\<close> is the server's side.
\<close>

definition protect_chunk ::
  "mu_crypto \<Rightarrow> mu_secure_channel \<Rightarrow> mu_sym_keys \<Rightarrow> opcua_uint32_t \<Rightarrow> opcua_uint32_t \<Rightarrow> opcua_uint32_t \<Rightarrow> bytes \<Rightarrow> bytes \<Rightarrow> nat \<Rightarrow>
   (opcua_statuscode_t + nat) \<times> bytes" where
  "protect_chunk cr c keys lsq sq req body out cap =
    (if aead_channel c
     then mu_sym_chunk_wrap_aead (cr_sym cr) keys (cstr ''MSG'') (channel_id c) (token_id c) sq lsq req body out cap
     else mu_sym_chunk_wrap (cr_sym cr) (sc_mode c) keys (cstr ''MSG'') (channel_id c) (token_id c) sq req body out cap)"

definition open_chunk ::
  "mu_crypto \<Rightarrow> mu_secure_channel \<Rightarrow> mu_sym_keys \<Rightarrow> opcua_uint32_t \<Rightarrow> bytes \<Rightarrow>
   (opcua_statuscode_t + mu_sym_chunk_info \<times> nat \<times> nat) \<times> bytes" where
  "open_chunk cr c keys lsq chunk =
    (if aead_channel c then mu_sym_chunk_unwrap_aead (cr_sym cr) keys chunk (length chunk) lsq
     else mu_sym_chunk_unwrap (cr_sym cr) (sc_mode c) keys chunk (length chunk))"

definition opens_as ::
  "mu_crypto \<Rightarrow> mu_secure_channel \<Rightarrow> mu_sym_keys \<Rightarrow> opcua_uint32_t \<Rightarrow> bytes \<Rightarrow> opcua_uint32_t \<Rightarrow> opcua_uint32_t \<Rightarrow> bytes \<Rightarrow> bool" where
  "opens_as cr c keys lsq chunk sq req body \<longleftrightarrow>
    (\<exists>info off plain. open_chunk cr c keys lsq chunk = (Inr (info, off, length body), plain) \<and> slice off (length body) plain = body \<and>
       ci_secure_channel_id info = channel_id c \<and> ci_token_id info = token_id c \<and> ci_sequence_number info = sq \<and>
       ci_request_id info = req \<and> ci_message_type info = cstr ''MSG'')"

lemma wrap_msg_protects: "wrap_msg cr c sq req body out cap = protect_chunk cr c (server_keys c) (sq - 1) sq req body out cap"
  by (simp add: wrap_msg_def protect_chunk_def)

text \<open>What the symmetric part of an adapter promises; one that encrypts under ChaCha20-Poly1305 also decrypts.\<close>

definition sym_laws :: "mu_crypto_adapter \<Rightarrow> bool" where
  "sym_laws a \<longleftrightarrow> hmac_length a \<and> ciphers_inverse a \<and> decrypts_keep_length a \<and> aead_inverse a \<and>
    (chacha20_poly1305_decrypt a = None \<longrightarrow> chacha20_poly1305_encrypt a = None)"

lemma cbc_chunk_opens:
  assumes w: "mu_sym_chunk_wrap a mode keys (cstr ''MSG'') scid tok sq req body out cap = (Inr n, out')"
    and cap: "cap \<le> length out" "cap < 2 ^ 32" and laws: "sym_laws a"
  shows "\<exists>plain. mu_sym_chunk_unwrap a mode keys (take n out') n =
      (Inr (\<lparr>ci_mode = mode, ci_secure_channel_id = scid, ci_token_id = tok, ci_sequence_number = sq,
             ci_request_id = req, ci_message_type = cstr ''MSG''\<rparr>, 24, length body), plain) \<and> slice 24 (length body) plain = body"
    "16 \<le> n" "n \<le> cap" "length out' = length out" "take 16 out' = take 16 (sym_header (cstr ''MSG'') n scid tok sq req)"
proof -
  have mt: "3 \<le> length (cstr ''MSG'')" "take 3 (cstr ''MSG'') = cstr ''MSG''" by (simp_all add: cstr_def)
  have l: "hmac_length a" "ciphers_inverse a" "decrypts_keep_length a" using laws by (simp_all add: sym_laws_def)
  note sh = wrap_shape [OF w mt(1) cap(1) l(1,2)]
  have nb: "n \<le> length out'" using sh cap(1) by simp
  obtain chunk where u: "mu_sym_chunk_unwrap a mode keys out' n =
     (Inr (\<lparr>ci_mode = mode, ci_secure_channel_id = scid, ci_token_id = tok, ci_sequence_number = sq,
           ci_request_id = req, ci_message_type = cstr ''MSG''\<rparr>, 24, length body), chunk)"
    "slice 24 (length body) chunk = body"
    using wrap_unwrap [OF w mt(1) cap l(1,2)] unfolding mt(2) by blast
  have "length body \<le> n - 24" using unwrap_body_inside [OF u(1) l(1,3) nb] by simp
  then have "slice 24 (length body) (take n chunk) = body"
    using u(2) by (simp add: slice_def drop_take min_absorb1)
  then show "\<exists>plain. mu_sym_chunk_unwrap a mode keys (take n out') n =
      (Inr (\<lparr>ci_mode = mode, ci_secure_channel_id = scid, ci_token_id = tok, ci_sequence_number = sq,
             ci_request_id = req, ci_message_type = cstr ''MSG''\<rparr>, 24, length body), plain) \<and> slice 24 (length body) plain = body"
    using unwrap_take [OF u(1) nb l(1,3)] by blast
  show "16 \<le> n" "n \<le> cap" "length out' = length out" "take 16 out' = take 16 (sym_header (cstr ''MSG'') n scid tok sq req)"
    using sh by simp_all
qed

lemma protected_chunk_opens:
  assumes w: "protect_chunk cr c keys lsq sq req body out cap = (Inr n, out')"
    and cap: "cap \<le> length out" "cap < 2 ^ 32" and laws: "sym_laws (cr_sym cr)"
  shows "opens_as cr c keys lsq (take n out') sq req body" "n \<le> cap" "length out' = length out"
    "\<exists>h. mu_parse_message_header (Some (take n out')) (length (take n out')) = Inr h \<and>
       mh_message_type h = cstr ''MSG'' \<and> mh_chunk_type h = 0x46"
proof -
  let ?h = "sym_header (cstr ''MSG'') n (channel_id c) (token_id c) sq req"
  have mt: "3 \<le> length (cstr ''MSG'')" "take 3 (cstr ''MSG'') = cstr ''MSG''" by (simp_all add: cstr_def)
  have "16 \<le> n \<and> n \<le> cap \<and> length out' = length out \<and> take 16 out' = take 16 ?h \<and>
    (n \<le> length out' \<longrightarrow> opens_as cr c keys lsq (take n out') sq req body)"
  proof (cases "aead_channel c")
    case True
    then have w': "mu_sym_chunk_wrap_aead (cr_sym cr) keys (cstr ''MSG'') (channel_id c) (token_id c) sq lsq req body out cap = (Inr n, out')"
      using w by (simp add: protect_chunk_def)
    then obtain d where d: "chacha20_poly1305_decrypt (cr_sym cr) = Some d"
      using laws by (cases "chacha20_poly1305_decrypt (cr_sym cr)") (auto simp: sym_laws_def mu_sym_chunk_wrap_aead_def)
    have i: "aead_inverse (cr_sym cr)" using laws by (simp add: sym_laws_def)
    note r = aead_roundtrip [OF w' mt(1) cap d i]
    show ?thesis using r(2-6) True by (auto simp: opens_as_def open_chunk_def mt(2) min_absorb2)
  next
    case False
    then have "mu_sym_chunk_wrap (cr_sym cr) (sc_mode c) keys (cstr ''MSG'') (channel_id c) (token_id c) sq req body out cap = (Inr n, out')"
      using w by (simp add: protect_chunk_def)
    note r = cbc_chunk_opens [OF this cap laws]
    show ?thesis using r False by (auto simp: opens_as_def open_chunk_def min_absorb2)
  qed
  then have r: "16 \<le> n" "n \<le> cap" "length out' = length out" "take 16 out' = take 16 ?h"
    "opens_as cr c keys lsq (take n out') sq req body" "n < 2 ^ 32" using cap by auto
  show "opens_as cr c keys lsq (take n out') sq req body" "n \<le> cap" "length out' = length out" by (fact r)+
  show "\<exists>h. mu_parse_message_header (Some (take n out')) (length (take n out')) = Inr h \<and>
       mh_message_type h = cstr ''MSG'' \<and> mh_chunk_type h = 0x46"
    by (rule msg_header_parses [OF _ _ r(1,6), of _ "channel_id c" "token_id c" sq req]) (use r cap in \<open>simp_all add: min_def\<close>)
qed

lemma opens_secure_unwrap:
  assumes "opens_as cr c (client_keys c) (in_last_sequence_number c) chunk sq req body" "keys_valid c"
  shows "\<exists>msg'. secure_unwrap_msg cr c chunk = (Some \<lparr>uw_request = body, uw_request_id = req, uw_channel_id = channel_id c,
      uw_token_id = token_id c, uw_sequence = sq, uw_policy = null_string, uw_client_cert = None\<rparr>, msg')"
  using assms by (auto simp: opens_as_def open_chunk_def secure_unwrap_msg_def)

section \<open>Messages in several chunks\<close>

definition plain_chunk :: "opcua_byte_t \<Rightarrow> bytes \<Rightarrow> bytes \<Rightarrow> bytes" where
  "plain_chunk chunk_type hdr body = cstr ''MSG'' @ [chunk_type] @ mu_binary_le_put_u32 (of_nat (24 + length body)) @ hdr @ body"

lemma plain_chunk_parses:
  assumes "length hdr = 16" "24 + length body < 2 ^ 32" "chunk_type = 0x43 \<or> chunk_type = 0x46"
  shows "\<exists>h. mu_parse_message_header (Some (plain_chunk chunk_type hdr body)) (length (plain_chunk chunk_type hdr body)) = Inr h \<and>
    mh_message_type h = cstr ''MSG'' \<and> mh_chunk_type h = chunk_type" (is "\<exists>h. ?p = Inr h \<and> _")
    "length (plain_chunk chunk_type hdr body) = 24 + length body"
    "drop 24 (plain_chunk chunk_type hdr body) = body"
proof -
  let ?m = "plain_chunk chunk_type hdr body"
  have mt: "cstr ''MSG'' = [0x4D, 0x53, 0x47]" by (simp add: cstr_def)
  show l: "length ?m = 24 + length body" "drop 24 ?m = body" using assms(1) by (simp_all add: plain_chunk_def mt)
  have t3: "take 3 ?m = cstr ''MSG''" "?m ! 3 = chunk_type" "mu_binary_le_get_u32 (slice 4 4 ?m) = of_nat (24 + length body)"
    by (simp_all add: plain_chunk_def mt slice_def)
  have u: "unat (of_nat (24 + length body) :: 32 word) = 24 + length body" using assms(2) by (rule get_u32_tot)
  then have ge: "\<not> (of_nat (24 + length body) :: 32 word) < 8" "\<not> (of_nat (24 + length body) :: 32 word) < 12"
    by (simp_all add: word_less_nat_alt)
  have m: "msg_type_of (cstr ''MSG'') = MSG" by (simp add: msg_type_of_def mt MSG_def)
  show "\<exists>h. ?p = Inr h \<and> mh_message_type h = cstr ''MSG'' \<and> mh_chunk_type h = chunk_type"
    using u ge m assms(3) unfolding mu_parse_message_header_def t3 l option.case Let_def
    by (auto simp: HEL_def ACK_def ERR_def OPN_def CLO_def MSG_def mt)
qed

definition msg_fields :: "opcua_uint32_t \<Rightarrow> opcua_uint32_t \<Rightarrow> opcua_uint32_t \<Rightarrow> opcua_uint32_t \<Rightarrow> bytes" where
  "msg_fields scid tok sq req = mu_binary_le_put_u32 scid @ mu_binary_le_put_u32 tok @ mu_binary_le_put_u32 sq @ mu_binary_le_put_u32 req"

lemma length_msg_fields [simp]: "length (msg_fields scid tok sq req) = 16"
  by (simp add: msg_fields_def)

lemma reads_data_header:
  "reads (read_data_header False) (msg_fields scid tok sq req) \<lparr>dh_channel_id = scid, dh_token_id = tok, dh_policy = null_string,
     dh_sender_cert = null_string, dh_sequence = \<lparr>sh_sequence_number = sq, sh_request_id = req\<rparr>\<rparr>"
  unfolding read_data_header_def msg_fields_def if_False
  by (intro reads_bind [OF reads_primitives(7)] reads_bind [OF reads_bind_return [OF reads_primitives(7) refl]])
    (auto intro!: reads_bind [OF reads_primitives(7)] reads_bind_Nil [OF reads_primitives(7)] reads_return)

lemma plain_chunk_header_read:
  assumes "24 + length body < 2 ^ 32"
  shows "\<exists>r. read_data_header False ((mu_binary_reader_init (Some (plain_chunk x (msg_fields scid tok sq req) body))
      (length (plain_chunk x (msg_fields scid tok sq req) body)))\<lparr>rd_position := 8\<rparr>) =
    (Inr \<lparr>dh_channel_id = scid, dh_token_id = tok, dh_policy = null_string,
     dh_sender_cert = null_string, dh_sequence = \<lparr>sh_sequence_number = sq, sh_request_id = req\<rparr>\<rparr>, r)"
proof -
  let ?m = "plain_chunk x (msg_fields scid tok sq req) body"
  have "slice 8 16 ?m = msg_fields scid tok sq req" "length ?m = 24 + length body"
    by (simp_all add: plain_chunk_def slice_def msg_fields_def cstr_def)
  then show ?thesis
    using readsD [OF reads_data_header, of "(mu_binary_reader_init (Some ?m) (length ?m))\<lparr>rd_position := 8\<rparr>" ?m scid tok sq req]
    by (simp add: mu_binary_reader_init_def msg_fields_def)
qed

lemma continuation_collects:
  assumes "tcp_state (server_tcp_conn server) \<noteq> MU_TCP_STATE_CLOSED" "\<not> ca_is_active (chunk_assembly server)"
    "length hdr = 16" "a \<noteq> []" "24 + length a < 2 ^ 32" "length a \<le> length (ca_buffer (chunk_assembly server))"
  shows "process_message cfg functions server (plain_chunk 0x43 hdr a) =
    (server\<lparr>chunk_assembly := (chunk_assembly server)\<lparr>ca_is_active := True, ca_buffer := put_at 0 a (ca_buffer (chunk_assembly server)),
       ca_length := length a\<rparr>\<rparr>, plain_chunk 0x43 hdr a)"
  using plain_chunk_parses [OF assms(3,5), of "0x43"] assms
  by (auto simp: process_message_def process_message_multi_chunk_continuation_def chunk_append_def Let_def)

section \<open>Plain OpenSecureChannel requests\<close>

definition none_opn :: "opcua_uint32_t \<Rightarrow> opcua_uint32_t \<Rightarrow> opcua_uint32_t \<Rightarrow> bytes \<Rightarrow> bytes" where
  "none_opn scid sq rid body =
    asym_header (79 + length body) scid POLICY_NONE_URI null_string null_string @
    mu_binary_le_put_u32 sq @ mu_binary_le_put_u32 rid @ body"

lemma none_opn_parts:
  assumes "79 + length body < 2 ^ 32"
  shows "length (none_opn scid sq rid body) = 79 + length body"
    "\<exists>h. mu_parse_message_header (Some (none_opn scid sq rid body)) (length (none_opn scid sq rid body)) = Inr h \<and>
       mh_message_type h = cstr ''OPN'' \<and> mh_chunk_type h = 0x46"
    "\<exists>r. rd_bind mu_binary_read_uint32 (\<lambda>_. mu_binary_read_string)
       ((mu_binary_reader_init (Some (none_opn scid sq rid body)) (length (none_opn scid sq rid body)))\<lparr>rd_position := 8\<rparr>) =
       (Inr (mk_string POLICY_NONE_URI), r)"
proof -
  let ?m = "none_opn scid sq rid body"
  have mt: "cstr ''OPNF'' = [0x4F, 0x50, 0x4E, 0x46]" "cstr ''OPN'' = [0x4F, 0x50, 0x4E]" by (simp_all add: cstr_def)
  show l: "length ?m = 79 + length body"
    by (simp add: none_opn_def asym_header_def enc_string_def str_bytes_def mk_string_def cstr_def)
  have t3: "take 3 ?m = cstr ''OPN''" "?m ! 3 = 0x46" "mu_binary_le_get_u32 (slice 4 4 ?m) = of_nat (79 + length body)"
    by (simp_all add: none_opn_def asym_header_def mt slice_def)
  have u: "unat (of_nat (79 + length body) :: 32 word) = 79 + length body" using assms by (rule get_u32_tot)
  then have ge: "\<not> (of_nat (79 + length body) :: 32 word) < 8" "\<not> (of_nat (79 + length body) :: 32 word) < 12"
    by (simp_all add: word_less_nat_alt)
  have m: "msg_type_of (cstr ''OPN'') = OPN" by (simp add: msg_type_of_def mt OPN_def)
  show "\<exists>h. mu_parse_message_header (Some ?m) (length ?m) = Inr h \<and> mh_message_type h = cstr ''OPN'' \<and> mh_chunk_type h = 0x46"
    using u ge m unfolding mu_parse_message_header_def t3 l option.case Let_def
    by (auto simp: HEL_def ACK_def ERR_def OPN_def CLO_def MSG_def mt)
  have "reads (rd_bind mu_binary_read_uint32 (\<lambda>_. mu_binary_read_string)) (mu_binary_le_put_u32 scid @ enc_string (mk_string POLICY_NONE_URI))
      (mk_string POLICY_NONE_URI)"
    by (intro reads_bind [OF reads_primitives(7)] reads_string) (simp add: valid_string_def mk_string_def)
  moreover have "slice 8 (length (mu_binary_le_put_u32 scid @ enc_string (mk_string POLICY_NONE_URI))) ?m =
      mu_binary_le_put_u32 scid @ enc_string (mk_string POLICY_NONE_URI)"
    by (simp add: none_opn_def asym_header_def slice_def cstr_def)
  moreover have "8 + length (mu_binary_le_put_u32 scid @ enc_string (mk_string POLICY_NONE_URI)) \<le> length ?m"
    unfolding l by (simp add: enc_string_def str_bytes_def mk_string_def)
  ultimately show "\<exists>r. rd_bind mu_binary_read_uint32 (\<lambda>_. mu_binary_read_string)
       ((mu_binary_reader_init (Some ?m) (length ?m))\<lparr>rd_position := 8\<rparr>) = (Inr (mk_string POLICY_NONE_URI), r)"
    using readsD [of "rd_bind mu_binary_read_uint32 (\<lambda>_. mu_binary_read_string)"
      "mu_binary_le_put_u32 scid @ enc_string (mk_string POLICY_NONE_URI)" "mk_string POLICY_NONE_URI"
      "(mu_binary_reader_init (Some ?m) (length ?m))\<lparr>rd_position := 8\<rparr>" ?m]
    by (simp add: mu_binary_reader_init_def)
qed

lemma none_opn_unwraps:
  assumes "79 + length body < 2 ^ 32" "length body \<le> 1024" "12288 \<le> length (cf_scratch cfg)"
  shows "secure_unwrap_opn cfg cr server (none_opn scid sq rid body) =
    (Some \<lparr>uw_request = body, uw_request_id = rid, uw_channel_id = scid, uw_token_id = 0, uw_sequence = sq,
       uw_policy = mk_string POLICY_NONE_URI, uw_client_cert = None\<rparr>,
     set_secure_channel ((server_secure_channel server)\<lparr>sc_policy := MU_SECURITY_POLICY_NONE_ID\<rparr>) server)"
proof -
  let ?H = "asym_header (79 + length body) scid POLICY_NONE_URI (cert_field None) (cert_field None)"
  let ?r = "mu_binary_le_put_u32 sq @ mu_binary_le_put_u32 rid @ body"
  let ?ob = "slice MU_SECURE_RESP_MAX MU_SECURE_OPN_REQ_MAX (cf_scratch cfg)"
  have uri: "mu_security_policy_uri MU_SECURITY_POLICY_NONE_ID = Some POLICY_NONE_URI"
    by (simp add: mu_security_policy_uri_def POLICY_TABLE_def)
  have n: "none_opn scid sq rid body = ?H @ ?r" by (simp add: none_opn_def cert_field_def)
  have l: "79 + length body = length (?H @ ?r)" using none_opn_parts(1) [OF assms(1), of scid sq rid] unfolding n by simp
  have "mu_asym_chunk_unwrap \<lparr>up_crypto = Some (cr_asym cr), up_chunk = Some (?H @ ?r), up_chunk_len = 79 + length body,
      up_out_body = Some ?ob, up_out_cap = 1024, up_scratch_len = 14336\<rparr> =
    Inr ((header_info MU_SECURITY_POLICY_NONE_ID scid None)\<lparr>ai_sequence_number := sq, ai_request_id := rid\<rparr>, put_at 0 body ?ob, length body)"
    using unwrap_dispatch [OF uri _ _ _ refl l assms(1) refl, of 14336 "cr_asym cr" ?ob 1024]
      clear_payload_on [OF refl, of "79 + length body" ?H body sq rid "[]" ?ob 1024] assms(2) l
    by (simp add: unwrap_payload_def header_info_def field_fits_def)
  moreover have "take (length body) (put_at 0 body ?ob) = body" by (simp add: put_at_0)
  moreover obtain r where "rd_bind mu_binary_read_uint32 (\<lambda>_. mu_binary_read_string)
       ((mu_binary_reader_init (Some (?H @ ?r)) (79 + length body))\<lparr>rd_position := 8\<rparr>) = (Inr (mk_string POLICY_NONE_URI), r)"
    using none_opn_parts(3) [OF assms(1), of scid sq rid] none_opn_parts(1) [OF assms(1), of scid sq rid] unfolding n by auto
  ultimately show ?thesis
    unfolding secure_unwrap_opn_def n l [symmetric] by (simp add: header_info_def)
qed

lemma plain_renewal:
  assumes ok: "conn_ok server" and c: "c = server_secure_channel server" "is_open c" "sc_policy c = MU_SECURITY_POLICY_NONE_ID"
    and p: "requested_policy_id (Some (opn_pending_security_policy server)) = MU_SECURITY_POLICY_NONE_ID"
    and q: "fst (read_open_request cfg (mu_binary_reader_init (Some body) (length body))) = Inr q"
      "oq_security_mode q = MU_MESSAGE_SECURITY_MODE_NONE"
    and random: "entropy_adapter cfg = Some random" "random 32 = Inr nonce" "length nonce = 32"
    and n: "200 \<le> n" "n \<le> length resp"
  obtains len resp' where "0 < len" "handle_open_secure_channel cfg server body resp n =
    (MU_STATUS_GOOD, len, resp', raise_open_secure_channel_audit cfg MU_STATUS_GOOD
       (set_secure_channel (opened_channel q (channel_id c) c) server))"
proof -
  let ?c = "opened_channel q (channel_id c) c" and ?w = "mu_binary_writer_init (Some resp) n"
  let ?s = "set_secure_channel ?c server"
  have e: "?c = c\<lparr>token_id := token_id c + 1, revised_lifetime := clamp_lifetime (oq_requested_lifetime q),
      sc_mode := MU_MESSAGE_SECURITY_MODE_NONE\<rparr>"
    using c(2) q(2) by (simp add: opened_channel_def)
  have o: "mu_secure_channel_open c (Some (current_opn_security_policy server)) (oq_security_mode q) (oq_requested_lifetime q)
      (entropy_adapter cfg) = (Inr (clamp_lifetime (oq_requested_lifetime q)), ?c)"
    unfolding e using c p q(2)
    by (simp add: mu_secure_channel_open_def current_opn_security_policy_def is_valid_security_mode_def Let_def)
  have f: "sc_policy ?c = MU_SECURITY_POLICY_NONE_ID" "revised_lifetime ?c = clamp_lifetime (oq_requested_lifetime q)"
    using c(3) by (simp_all add: e)
  have os: "open_server_channel cfg q server = (Inr (revised_lifetime ?c), ?s)"
    unfolding open_server_channel_def c(1) [symmetric] o using ok c f by (simp add: enforce_osc_application_auth_def)
  have k: "make_server_nonce cfg ?c (oq_client_nonce q) = Inr (nonce, None)"
    using ok random f by (simp add: make_server_nonce_def is_ecc_channel_def mu_security_policy_asym_family_def POLICY_TABLE_def)
  have enc: "encodes (encode_osc_security_token cfg (oq_request_handle q) (revised_lifetime ?c) nonce ?s)
      (enc_open_response (cf_time cfg) (oq_request_handle q) (return_diagnostics server) nonce ?c)" (is "encodes _ ?bs")
    using encodes_open_response [of nonce ?c ?s cfg "oq_request_handle q"] random(3) ok by simp
  have w: "wr_buffer ?w = Some resp" "wr_status ?w = MU_STATUS_GOOD" "wf_writer ?w" "wr_position ?w = 0" "wr_length ?w = n"
    using n by (simp_all add: mu_binary_writer_init_def wf_writer_def)
  have l: "0 < length ?bs" "length ?bs \<le> 200"
    using random(3) by (simp_all add: enc_open_response_def enc_response_prefix_def enc_response_header_def enc_nodeid_def nodeid_payload_def enc_string_def mk_string_def str_bytes_def)
  have i: "install_channel_keys cfg nonce None (oq_client_nonce q) (?c\<lparr>sc_mode := oq_security_mode q\<rparr>) = (MU_STATUS_GOOD, ?c)"
    using f(1) q(2) by (auto simp: install_channel_keys_def e split: option.splits)
  obtain r where r: "read_open_request cfg (mu_binary_reader_init (Some body) (length body)) = (Inr q, r)"
    using q(1) by (cases "read_open_request cfg (mu_binary_reader_init (Some body) (length body))") simp
  note fit = encodes_fits [OF enc w(1-3), unfolded w(4,5)]
  show ?thesis
    by (rule that [of "length ?bs"], rule l)
      (use fit l n ok in \<open>simp add: handle_open_secure_channel_def handle_open_secure_channel_impl_def r os k i\<close>)
qed

lemma channel_of_set_handle [simp]: "server_secure_channel (set_client_handle x server) = server_secure_channel server"
proof (cases "active_conn server")
  case (Some i)
  then show ?thesis
    by (cases "i < length (conns server)") (simp_all add: server_secure_channel_def set_client_handle_def list_update_beyond)
qed (simp add: server_secure_channel_def set_client_handle_def)

lemma tcp_state_frame [simp]:
  "server_secure_channel (server\<lparr>tcp_calls := y\<rparr>) = server_secure_channel server"
  "server_secure_channel (server\<lparr>send_buffer := b\<rparr>) = server_secure_channel server"
  "server_secure_channel (server\<lparr>current_request_id := r\<rparr>) = server_secure_channel server"
  "server_secure_channel (server\<lparr>opn_pending_security_policy := p\<rparr>) = server_secure_channel server"
  "server_secure_channel (server\<lparr>opn_pending_client_cert := q\<rparr>) = server_secure_channel server"
  "server_secure_channel (server\<lparr>channel_client_cert := d\<rparr>) = server_secure_channel server"
  "server_secure_channel (server\<lparr>channel_client_cert_len := l\<rparr>) = server_secure_channel server"
  "sessions (set_client_handle x server) = sessions server"
  "conn_ok (server\<lparr>current_request_id := r\<rparr>) = conn_ok server"
  by (simp_all add: server_secure_channel_def set_client_handle_def conn_ok_def split: option.split)

lemma sending_frame [simp]:
  "server_secure_channel (send_buffer_chunk cfg tot server) = server_secure_channel server"
  "sessions (send_buffer_chunk cfg tot server) = sessions server"
  by (simp_all add: send_buffer_chunk_def tcp_call_def Let_def split: prod.split)

lemma send_secured_frame:
  assumes "conn_ok server"
  shows "\<exists>n. server_secure_channel (send_secured cfg cr is_opn u body server) = (server_secure_channel server)\<lparr>out_sequence_number := n\<rparr>"
    and "sessions (send_secured cfg cr is_opn u body server) = sessions server"
  using assms by (simp_all add: send_secured_def next_out_seq_def Let_def split: sum.split prod.split) (auto intro!: exI)

lemma pending_frame [simp]:
  "server_secure_channel (mu_service_dispatch_set_opn_client_cert x server) = server_secure_channel server"
  "server_secure_channel (mu_service_dispatch_set_opn_security_policy y server) = server_secure_channel server"
  "sessions (mu_service_dispatch_set_opn_client_cert x server) = sessions server"
  "sessions (mu_service_dispatch_set_opn_security_policy y server) = sessions server"
  "conn_ok (mu_service_dispatch_set_opn_client_cert x server) = conn_ok server"
  "conn_ok (mu_service_dispatch_set_opn_security_policy y server) = conn_ok server"
  "opn_pending_security_policy (mu_service_dispatch_set_opn_client_cert x server) = opn_pending_security_policy server"
  by (simp_all add: mu_service_dispatch_set_opn_client_cert_def mu_service_dispatch_set_opn_security_policy_def Let_def conn_ok_def
      split: option.split)

lemma open_descriptor:
  "find_service_descriptor MU_ID_OPENSECURECHANNELREQUEST =
    Some (service_row MU_ID_OPENSECURECHANNELREQUEST MU_ID_OPENSECURECHANNELRESPONSE False HANDLE_OPEN_SECURE_CHANNEL)"
  unfolding find_service_descriptor_def find_service_loop_linear [OF services_sorted]
  by (simp add: g_supported_services_def service_row_def)

lemma plain_renewal_dispatched:
  assumes ok: "conn_ok server" and c: "c = server_secure_channel server" "is_open c" "sc_policy c = MU_SECURITY_POLICY_NONE_ID"
    and f: "fs HANDLE_OPEN_SECURE_CHANNEL = handle_open_secure_channel cfg"
    and q: "fst (read_open_request cfg (mu_binary_reader_init (Some body) (length body))) = Inr q"
      "oq_security_mode q = MU_MESSAGE_SECURITY_MODE_NONE"
    and random: "entropy_adapter cfg = Some random" "random 32 = Inr nonce" "length nonce = 32"
    and n: "200 \<le> n" "n \<le> length resp"
  obtains len resp' server' where "0 < len"
    "dispatch_or_fault cfg fs True \<lparr>namespace_index = 0, ident = NUMERIC MU_ID_OPENSECURECHANNELREQUEST\<rparr>
       (mk_string POLICY_NONE_URI) cert body resp n server = (False, len, resp', server')"
    "conn_ok server'" "server_secure_channel server' = opened_channel q (channel_id c) c" "sessions server' = sessions server"
proof -
  let ?s = "(mu_service_dispatch_set_opn_client_cert (Some cert)
    (mu_service_dispatch_set_opn_security_policy (Some (mk_string POLICY_NONE_URI)) server))\<lparr>active_session := None,
      return_diagnostics := read_return_diagnostics_from_request body\<rparr>"
  have pol: "requested_policy_id (Some (mk_string POLICY_NONE_URI)) = MU_SECURITY_POLICY_NONE_ID"
    using policy_from_uri_known [of MU_SECURITY_POLICY_NONE_ID POLICY_NONE_URI]
    by (simp add: requested_policy_id_def mk_string_def mu_security_policy_uri_def POLICY_TABLE_def)
  have s: "conn_ok ?s" "server_secure_channel ?s = c" "sessions ?s = sessions server"
    "opn_pending_security_policy ?s = mk_string POLICY_NONE_URI"
    using ok c(1) by (simp_all add: conn_ok_def [of "_\<lparr>active_session := _\<rparr>"] conn_ok_def [of "_\<lparr>return_diagnostics := _\<rparr>"]
        mu_service_dispatch_set_opn_security_policy_def) (simp_all add: conn_ok_def mu_service_dispatch_set_opn_client_cert_def Let_def split: option.splits)
  obtain len resp' where h: "0 < len" "handle_open_secure_channel cfg ?s body resp n =
    (MU_STATUS_GOOD, len, resp', raise_open_secure_channel_audit cfg MU_STATUS_GOOD
       (set_secure_channel (opened_channel q (channel_id c) c) ?s))"
    by (rule plain_renewal [OF s(1) s(2) [symmetric] c(2,3) _ q random n]) (simp only: s(4) pol)
  let ?s' = "mu_service_dispatch_set_opn_client_cert None (mu_service_dispatch_set_opn_security_policy None
    (raise_open_secure_channel_audit cfg MU_STATUS_GOOD (set_secure_channel (opened_channel q (channel_id c) c) ?s)))"
  have "mu_service_dispatch fs (cf_tick cfg) (mu_service_dispatch_set_opn_client_cert (Some cert)
     (mu_service_dispatch_set_opn_security_policy (Some (mk_string POLICY_NONE_URI)) server)) MU_ID_OPENSECURECHANNELREQUEST body resp n =
    (MU_STATUS_GOOD, len, resp', raise_open_secure_channel_audit cfg MU_STATUS_GOOD (set_secure_channel (opened_channel q (channel_id c) c) ?s))"
    unfolding mu_service_dispatch_def Let_def open_descriptor h(2) [symmetric]
    by (simp add: service_row_def f)
  then have d: "dispatch_or_fault cfg fs True \<lparr>namespace_index = 0, ident = NUMERIC MU_ID_OPENSECURECHANNELREQUEST\<rparr>
       (mk_string POLICY_NONE_URI) cert body resp n server = (False, len, resp', ?s')"
    by (simp add: dispatch_or_fault_def is_ns0_numeric_nodeid_def numeric_identifier_def)
  have r: "conn_ok (raise_open_secure_channel_audit cfg x sv) = conn_ok sv" "sessions (raise_open_secure_channel_audit cfg x sv) = sessions sv"
    "server_secure_channel (raise_open_secure_channel_audit cfg x sv) = server_secure_channel sv" for x and sv :: "'a mu_server"
    by (simp_all add: raise_open_secure_channel_audit_def conn_ok_def split: option.split)
  show ?thesis
    by (rule that [OF h(1) d]) (use s in \<open>simp_all add: r\<close>)
qed

definition open_message ::
  "mu_request_header \<Rightarrow> opcua_uint32_t \<Rightarrow> opcua_uint32_t \<Rightarrow> mu_message_security_mode \<Rightarrow> mu_bytestring \<Rightarrow> opcua_uint32_t \<Rightarrow> bytes" where
  "open_message h proto request_type mode nonce lifetime =
    enc_nodeid \<lparr>namespace_index = 0, ident = NUMERIC MU_ID_OPENSECURECHANNELREQUEST\<rparr> @
    enc_open_request h proto request_type mode nonce lifetime"

lemma dispatch_rejects_opn_only: "dispatch_or_fault cfg functions False t pol cert body resp cap server = (rej, x) \<Longrightarrow> \<not> rej"
  by (auto simp: dispatch_or_fault_def split: prod.splits sum.splits if_splits)

lemma client_handle_of_set [simp]:
  "conn_ok server \<Longrightarrow> server_client_handle (set_secure_channel c server) = server_client_handle server"
  "server_client_handle (server\<lparr>send_buffer := b\<rparr>) = server_client_handle server"
  "server_client_handle (server\<lparr>current_request_id := r\<rparr>) = server_client_handle server"
  "tcp_calls (set_secure_channel c server) = tcp_calls server"
  "send_buffer (set_secure_channel c server) = send_buffer server"
  "tcp_calls (set_client_handle h server) = tcp_calls server"
  by (auto simp: conn_ok_def server_client_handle_def set_secure_channel_def set_client_handle_def split: option.splits)

lemma send_buffer_chunk_calls:
  assumes "tot \<le> length (send_buffer server)"
  shows "tcp_calls (send_buffer_chunk cfg tot server) =
    tcp_calls server @ Tcp_write (server_client_handle server) (take tot (send_buffer server)) #
      (if tcp_write cfg (take tot (send_buffer server)) = (MU_STATUS_GOOD, length (take tot (send_buffer server))) then []
       else [Tcp_close (server_client_handle server)])"
  using assms
  by (auto simp: send_buffer_chunk_def tcp_call_def Let_def server_client_handle_def min_absorb2 split: prod.split option.splits)

text \<open>
  Sending a response on a secured channel: the bytes given to the TCP adapter are one chunk that opens under
  the server's keys, as the next chunk of the channel, to the response.
\<close>

definition sends_protected ::
  "'a mu_server_config \<Rightarrow> mu_crypto \<Rightarrow> 'a mu_server \<Rightarrow> opcua_uint32_t \<Rightarrow> bytes \<Rightarrow> 'a mu_server \<Rightarrow> bool" where
  "sends_protected cfg cr server req body server' \<longleftrightarrow>
    (let c = server_secure_channel server; h = server_client_handle server in
     \<exists>chunk. opens_as cr c (server_keys c) (out_sequence_number c) chunk (out_sequence_number c + 1) req body \<and>
       tcp_calls server' = tcp_calls server @ Tcp_write h chunk #
         (if tcp_write cfg chunk = (MU_STATUS_GOOD, length chunk) then [] else [Tcp_close h]))"

lemma send_secured_protects:
  assumes ok: "conn_ok server" and size: "cfg_send_buffer_size (cf_transport cfg) \<le> length (send_buffer server)"
      "cfg_send_buffer_size (cf_transport cfg) < 2 ^ 32" and laws: "sym_laws (cr_sym cr)" and c: "c = server_secure_channel server"
  shows "case wrap_msg cr c (out_sequence_number c + 1) (uw_request_id u) body (send_buffer server) (cfg_send_buffer_size (cf_transport cfg)) of
      (Inl _, _) \<Rightarrow> tcp_calls (send_secured cfg cr False u body server) = tcp_calls server
    | (Inr _, _) \<Rightarrow> sends_protected cfg cr server (uw_request_id u) body (send_secured cfg cr False u body server)"
proof -
  let ?n = "cfg_send_buffer_size (cf_transport cfg)" and ?q = "out_sequence_number c + 1"
  let ?c = "c\<lparr>out_sequence_number := ?q\<rparr>"
  let ?s = "set_secure_channel ?c server"
  have w: "wrap_msg cr ?c q r x b n = wrap_msg cr c q r x b n" for q r x b n by (simp add: wrap_msg_def)
  have nx: "next_out_seq server = (?q, ?s)" by (simp add: next_out_seq_def c Let_def)
  show ?thesis
  proof (cases "wrap_msg cr c ?q (uw_request_id u) body (send_buffer server) ?n")
    case (Pair a b)
    show ?thesis
    proof (cases a)
      case (Inl e)
      then show ?thesis using Pair nx ok w by (simp add: send_secured_def Let_def)
    next
      case (Inr tot)
      then have p: "protect_chunk cr c (server_keys c) (out_sequence_number c) ?q (uw_request_id u) body (send_buffer server) ?n = (Inr tot, b)"
        using Pair by (simp add: wrap_msg_protects)
      note o' = protected_chunk_opens [OF p size laws]
      have "send_secured cfg cr False u body server = send_buffer_chunk cfg tot (?s\<lparr>send_buffer := b\<rparr>)"
        using Pair Inr nx ok w by (simp add: send_secured_def Let_def)
      moreover have "tot \<le> length b" using o'(2,3) size(1) by simp
      ultimately show ?thesis
        using o'(1) Pair Inr ok send_buffer_chunk_calls [of tot "?s\<lparr>send_buffer := b\<rparr>" cfg]
        by (auto simp: sends_protected_def Let_def c [symmetric])
    qed
  qed
qed

section \<open>A sample exchange\<close>

definition sample_secured_channel :: mu_secure_channel where
  "sample_secured_channel = sample_channel\<lparr>channel_id := 7, token_id := 1, is_open := True,
     sc_policy := MU_SECURITY_POLICY_BASIC256SHA256_ID, sc_mode := MU_MESSAGE_SECURITY_MODE_SIGN_AND_ENCRYPT,
     client_keys := sample_keys, server_keys := sample_keys, keys_valid := True\<rparr>"

definition sample_secured :: "unit mu_server" where
  "sample_secured = sample_server\<lparr>
     conns := [sample_connection\<lparr>tcp_conn := mu_tcp_connection_init\<lparr>tcp_state := MU_TCP_STATE_ESTABLISHED\<rparr>,
                 secure_channel := sample_secured_channel\<rparr>],
     chunk_assembly := \<lparr>ca_buffer = replicate 16 0, ca_length = 0, ca_secure_channel_id = 0, ca_token_id = 0, ca_is_active = False\<rparr>\<rparr>"

lemma sample_secured_simps [simp]:
  "server_secure_channel sample_secured = sample_secured_channel" "conn_ok sample_secured"
  "tcp_state (server_tcp_conn sample_secured) = MU_TCP_STATE_ESTABLISHED" "\<not> ca_is_active (chunk_assembly sample_secured)"
  "crypto_adapter sample_config = Some steady_crypto" "cr_sym steady_crypto = sample_crypto"
  "channel_id sample_secured_channel = 7" "token_id sample_secured_channel = 1" "is_open sample_secured_channel" "keys_valid sample_secured_channel"
  "sc_policy sample_secured_channel = MU_SECURITY_POLICY_BASIC256SHA256_ID"
  "sc_mode sample_secured_channel = MU_MESSAGE_SECURITY_MODE_SIGN_AND_ENCRYPT"
  "client_keys sample_secured_channel = sample_keys" "sequence sample_secured_channel = mu_sequence_validator_init"
  by (simp_all add: sample_secured_def sample_secured_channel_def sample_server_def conn_ok_def server_secure_channel_def server_tcp_conn_def
      sample_config_def steady_crypto_def sample_channel_def)

lemma sample_policy_not_aead: "mu_security_policy_sym_mode MU_SECURITY_POLICY_BASIC256SHA256_ID \<noteq> MU_SYM_MODE_AEAD_CHACHA20POLY1305"
  by (simp add: mu_security_policy_sym_mode_def POLICY_TABLE_def)

lemma first_sequence: "mu_sequence_validate mu_sequence_validator_init sq = (MU_STATUS_GOOD, \<lparr>last_sequence_number = sq, is_initialized = True\<rparr>)"
  by (simp add: mu_sequence_validate_def mu_sequence_validator_init_def)

definition sample_secured_by :: "mu_security_policy_id \<Rightarrow> unit mu_server" where
  "sample_secured_by policy = (set_secure_channel (sample_secured_channel\<lparr>sc_policy := policy\<rparr>) sample_secured)\<lparr>send_buffer := replicate 8192 0\<rparr>"

lemma sample_secured_by_simps [simp]:
  "server_secure_channel (sample_secured_by policy) = sample_secured_channel\<lparr>sc_policy := policy\<rparr>" "conn_ok (sample_secured_by policy)"
  "tcp_state (server_tcp_conn (sample_secured_by policy)) = MU_TCP_STATE_ESTABLISHED" "\<not> ca_is_active (chunk_assembly (sample_secured_by policy))"
  "send_buffer (sample_secured_by policy) = replicate 8192 0" "tcp_calls (sample_secured_by policy) = []"
  by (simp_all add: sample_secured_by_def sample_secured_def sample_server_def set_secure_channel_def server_secure_channel_def
      server_tcp_conn_def conn_ok_def)

lemma sample_sym_laws: "sym_laws (cr_sym steady_crypto)"
  using sample_crypto_laws by (simp add: sym_laws_def)

lemma sample_policies:
  "mu_security_policy_sym_mode MU_SECURITY_POLICY_ECC_CURVE25519_ID = MU_SYM_MODE_AEAD_CHACHA20POLY1305"
  by (simp add: mu_security_policy_sym_mode_def POLICY_TABLE_def)

text \<open>A request or response of at most seven bytes, under either kind of encryption.\<close>

lemma sample_protected:
  assumes "sc_policy c = MU_SECURITY_POLICY_BASIC256SHA256_ID \<or> sc_policy c = MU_SECURITY_POLICY_ECC_CURVE25519_ID" "length body \<le> 7"
    and "64 \<le> cap" "cap \<le> length out" "channel_id c = 7" "token_id c = 1" "sc_mode c = MU_MESSAGE_SECURITY_MODE_SIGN_AND_ENCRYPT"
  shows "\<exists>n out'. protect_chunk steady_crypto c sample_keys lsq sq req body out cap = (Inr n, out')"
  using assms(1)
proof
  assume p: "sc_policy c = MU_SECURITY_POLICY_BASIC256SHA256_ID"
  define k where "k = length body"
  have b: "k = 0 \<or> k = 1 \<or> k = 2 \<or> k = 3 \<or> k = 4 \<or> k = 5 \<or> k = 6 \<or> k = 7" using assms(2) unfolding k_def by arith
  have "\<exists>out'. mu_sym_chunk_wrap sample_crypto MU_MESSAGE_SECURITY_MODE_SIGN_AND_ENCRYPT sample_keys (cstr ''MSG'') 7 1 sq req
      body out cap = (Inr 64, out')"
    by (rule sample_wrap [where p = "7 - k"]) (use b assms(3,4) in \<open>auto simp: cstr_def simp flip: k_def\<close>)
  then show ?thesis using p sample_policy_not_aead assms(5-7) by (auto simp: protect_chunk_def)
next
  assume p: "sc_policy c = MU_SECURITY_POLICY_ECC_CURVE25519_ID"
  have mt: "3 \<le> length (cstr ''MSG'')" by (simp add: cstr_def)
  have "40 + length body \<le> cap" using assms(2,3) by simp
  then have "write_plain (write_header out (cstr ''MSG'') 7 1) (40 + length body) sq req body cap =
      Inr (put_at 0 (sym_header (cstr ''MSG'') (40 + length body) 7 1 sq req @ body) out)"
    using assms(4) mt by (intro write_plain_fits) simp_all
  then show ?thesis using p sample_policies assms(2,3,5,6) by (simp add: protect_chunk_def mu_sym_chunk_wrap_aead_def Let_def)
qed

section \<open>Properties\<close>

text \<open>
  C34.  A secured channel acts on authenticated chunks only.  When a single MSG chunk on a channel with an
  encrypting or signing policy changes anything in the server (or sends anything), then the channel has
  keys and the chunk is authenticated under them.  Under the policies with authenticated encryption its
  ciphertext and tag decrypt under the client's key, with the nonce of its token id and the last sequence
  number and with its header as associated data.  Under the others the chunk, decrypted in place if the
  mode encrypts, ends in the MAC of all its bytes under the client's signing key.  Unless the server then
  does nothing but drop the connection, the chunk names the channel's current id and token and its
  sequence number is the next one.
\<close>

theorem secured_msg_authentic:
  assumes "single_msg server msg" "crypto_adapter cfg = Some cr" "c = server_secure_channel server"
    and "sc_policy c \<noteq> MU_SECURITY_POLICY_NONE_ID" "hmac_length (cr_sym cr)" "decrypts_keep_length (cr_sym cr)"
    and "process_message cfg functions server msg = (server', msg')" "server' \<noteq> server"
  shows "keys_valid c \<and> authenticated cr c msg msg' \<and>
    (server' = abort_connection server \<or>
     get_u32 (slice 8 4 msg) = channel_id c \<and> get_u32 (slice 12 4 msg) = token_id c \<and>
     fst (mu_sequence_validate (sequence c) (get_u32 (slice 16 4 msg'))) = MU_STATUS_GOOD)"
proof -
  note p = process_single_msg [OF assms(1,2) assms(4) [unfolded assms(3)], of "functions"]
  obtain u where u: "secure_unwrap_msg cr c msg = (Some u, msg')" "server' = handle_unwrapped cfg functions cr False u server"
    using assms(7,8) p unfolding assms(3) by (auto split: prod.splits option.splits)
  note s = secure_unwrap_msg_Some [OF u(1) assms(5,6)]
  show ?thesis
  proof (cases "fst (accept_inbound_chunk server False (uw_channel_id u) (uw_token_id u) (uw_sequence u))")
    case True
    then obtain server1 where "accept_inbound_chunk server False (uw_channel_id u) (uw_token_id u) (uw_sequence u) = (True, server1)"
      by (cases "accept_inbound_chunk server False (uw_channel_id u) (uw_token_id u) (uw_sequence u)") auto
    from accept_inbound_True [OF this] s show ?thesis unfolding assms(3) by simp
  next
    case False
    then show ?thesis using handle_unwrapped_rejected [of server False u] u(2) s by simp
  qed
qed

theorem secured_msg_authentic_witness:
  "(\<exists>msg server' msg'. process_message sample_config echo_status (sample_secured_by MU_SECURITY_POLICY_BASIC256SHA256_ID) msg = (server', msg') \<and>
      server' \<noteq> sample_secured_by MU_SECURITY_POLICY_BASIC256SHA256_ID \<and>
      authenticated steady_crypto (sample_secured_channel\<lparr>sc_policy := MU_SECURITY_POLICY_BASIC256SHA256_ID\<rparr>) msg msg') \<and>
   (\<exists>msg server' msg'. process_message sample_config echo_status (sample_secured_by MU_SECURITY_POLICY_ECC_CURVE25519_ID) msg = (server', msg') \<and>
      server' \<noteq> sample_secured_by MU_SECURITY_POLICY_ECC_CURVE25519_ID \<and>
      authenticated steady_crypto (sample_secured_channel\<lparr>sc_policy := MU_SECURITY_POLICY_ECC_CURVE25519_ID\<rparr>) msg msg')"
proof -
  have gen: "\<exists>msg server' msg'. process_message sample_config echo_status (sample_secured_by policy) msg = (server', msg') \<and>
      server' \<noteq> sample_secured_by policy \<and> authenticated steady_crypto (sample_secured_channel\<lparr>sc_policy := policy\<rparr>) msg msg'"
    if pol: "policy = MU_SECURITY_POLICY_BASIC256SHA256_ID \<or> policy = MU_SECURITY_POLICY_ECC_CURVE25519_ID" for policy
  proof -
    let ?c = "sample_secured_channel\<lparr>sc_policy := policy\<rparr>" and ?z = "replicate 64 (0 :: opcua_byte_t)"
    obtain n out' where w: "protect_chunk steady_crypto ?c (client_keys ?c) (in_last_sequence_number ?c) 52 9 [5] ?z 64 = (Inr n, out')"
      using sample_protected [of ?c "[5]" 64 ?z "in_last_sequence_number ?c" 52 9] pol by auto
    note un = protected_chunk_opens [OF w _ _ sample_sym_laws]
    let ?m = "take n out'"
    have s: "single_msg (sample_secured_by policy) ?m" using un(4) by (simp add: single_msg_def)
    obtain msg' where u: "secure_unwrap_msg steady_crypto ?c ?m =
      (Some \<lparr>uw_request = [5], uw_request_id = 9, uw_channel_id = 7, uw_token_id = 1, uw_sequence = 52, uw_policy = null_string,
        uw_client_cert = None\<rparr>, msg')" using opens_secure_unwrap [OF un(1)] by auto
    let ?s = "set_secure_channel (?c\<lparr>sequence := \<lparr>last_sequence_number = 52, is_initialized = True\<rparr>,
        in_last_sequence_number := 52\<rparr>) (sample_secured_by policy)"
    have "fst (mu_binary_read_nodeid (mu_binary_reader_init (Some [5]) (length [5 :: 8 word]))) = Inl MU_STATUS_BAD_DECODINGERROR"
      by (simp add: mu_binary_read_nodeid_def rd_bind_def rd_return_def mu_binary_read_byte_def mu_binary_read_uint16_def
          mu_binary_reader_init_def ensure_bytes_def rd_take_def slice_def reader_fail_def Let_def)
    then obtain r where "mu_binary_read_nodeid (mu_binary_reader_init (Some [5]) (length [5 :: 8 word])) = (Inl MU_STATUS_BAD_DECODINGERROR, r)"
      by (cases "mu_binary_read_nodeid (mu_binary_reader_init (Some [5]) (length [5 :: 8 word]))") auto
    moreover have np: "policy \<noteq> MU_SECURITY_POLICY_NONE_ID" using pol by auto
    ultimately have p: "process_message sample_config echo_status (sample_secured_by policy) ?m = (?s, msg')"
      using process_single_msg [OF s, of sample_config steady_crypto echo_status] u
      by (simp add: handle_unwrapped_def accept_inbound_chunk_def first_sequence)
    have "server_secure_channel ?s \<noteq> server_secure_channel (sample_secured_by policy)"
      by (simp add: sample_secured_channel_def sample_channel_def)
    then have ne: "?s \<noteq> sample_secured_by policy" by metis
    have l: "hmac_length (cr_sym steady_crypto)" "decrypts_keep_length (cr_sym steady_crypto)" using sample_crypto_laws by simp_all
    show ?thesis
      using secured_msg_authentic [OF s _ _ _ l p ne, of "?c"] p ne np by auto
  qed
  show ?thesis
    using gen [of MU_SECURITY_POLICY_BASIC256SHA256_ID] gen [of MU_SECURITY_POLICY_ECC_CURVE25519_ID] by simp
qed

text \<open>
  C35.  A client's request arrives and is answered on the same channel.  A request protected with the keys
  the server holds for the client, naming the channel's id and token and carrying the next sequence number,
  is dispatched as the service its type id names, with exactly the request body the client put into the
  chunk.  Of a response that is not empty the server hands the TCP adapter one chunk and nothing else (and
  closes the connection if the adapter does not take it all).  That chunk, opened with the server's keys,
  carries the channel's id and token, the next outgoing sequence number, the request id of the request and
  exactly the response.  If protecting the response fails, nothing is sent.  This holds under the policies
  with authenticated encryption as under those with a cipher and a MAC.
\<close>

theorem secured_request_delivered:
  assumes request: "protect_chunk cr c (client_keys c) (in_last_sequence_number c) sq req (enc_nodeid t @ body) out cap = (Inr n, out')"
    and cap: "cap \<le> length out" "cap < 2 ^ 32" and laws: "sym_laws (cr_sym cr)"
    and tcp: "tcp_state (server_tcp_conn server) \<noteq> MU_TCP_STATE_CLOSED" "\<not> ca_is_active (chunk_assembly server)"
    and chan: "crypto_adapter cfg = Some cr" "c = server_secure_channel server" "conn_ok server" "keys_valid c"
      "sc_policy c \<noteq> MU_SECURITY_POLICY_NONE_ID"
    and sq: "mu_sequence_validate (sequence c) sq = (MU_STATUS_GOOD, v)" and t: "valid_nodeid t"
    and disp: "dispatch_or_fault cfg functions False t null_string \<lparr>str_length = 0, str_data = None\<rparr> body
            (take MU_SECURE_RESP_MAX (cf_scratch cfg)) MU_SECURE_RESP_MAX
            ((set_secure_channel (c\<lparr>sequence := v, in_last_sequence_number := sq\<rparr>) server)\<lparr>current_request_id := req\<rparr>) =
          (rej, resp_len, resp, server1)"
    and answer: "conn_ok server1" "c1 = server_secure_channel server1" "size' = cfg_send_buffer_size (cf_transport cfg)"
      "size' \<le> length (send_buffer server1)" "size' < 2 ^ 32"
  shows "\<exists>server' msg'. process_message cfg functions server (take n out') = (server', msg') \<and>
    (if resp_len = 0 then server' = server1
     else (case wrap_msg cr c1 (out_sequence_number c1 + 1) req (take resp_len resp) (send_buffer server1) size' of
             (Inl _, _) \<Rightarrow> tcp_calls server' = tcp_calls server1
           | (Inr _, _) \<Rightarrow> sends_protected cfg cr server1 req (take resp_len resp) server'))"
proof -
  define u where "u = \<lparr>uw_request = enc_nodeid t @ body, uw_request_id = req, uw_channel_id = channel_id c,
    uw_token_id = token_id c, uw_sequence = sq, uw_policy = null_string, uw_client_cert = None\<rparr>"
  note op = protected_chunk_opens [OF request cap laws]
  obtain msg' where un: "secure_unwrap_msg cr c (take n out') = (Some u, msg')"
    using opens_secure_unwrap [OF op(1) chan(4)] unfolding u_def by blast
  have single: "single_msg server (take n out')" using op(4) tcp by (simp add: single_msg_def)
  have p: "process_message cfg functions server (take n out') = (handle_unwrapped cfg functions cr False u server, msg')"
    using process_single_msg [OF single chan(1) chan(5) [unfolded chan(2)], of "functions"] un unfolding chan(2) by simp
  let ?r = "mu_binary_reader_init (Some (enc_nodeid t @ body)) (length (enc_nodeid t @ body))"
  have r: "mu_binary_read_nodeid ?r = (Inr t, ?r\<lparr>rd_position := length (enc_nodeid t)\<rparr>)"
    using readsD [OF reads_nodeid [OF t], of ?r "enc_nodeid t @ body"] by (simp add: mu_binary_reader_init_def slice_def)
  have a: "accept_inbound_chunk server False (channel_id c) (token_id c) sq = (True, set_secure_channel (c\<lparr>sequence := v\<rparr>) server)"
    using sq unfolding chan(2) by (simp add: accept_inbound_chunk_def)
  have "\<not> rej" by (rule dispatch_rejects_opn_only [OF disp])
  then have h: "handle_unwrapped cfg functions cr False u server =
      (if resp_len = 0 then server1 else send_secured cfg cr False u (take resp_len resp) server1)"
    using a r disp chan(3) by (simp add: handle_unwrapped_def u_def close_rejected_def)
  have "uw_request_id u = req" by (simp add: u_def)
  then show ?thesis
    using send_secured_protects [OF answer(1,4,5) [unfolded answer(3)] laws answer(2), of u "take resp_len resp"] p h answer(3) by auto
qed

definition answer_three :: "service_function \<Rightarrow> unit service_call" where
  "answer_three f server body resp n = (MU_STATUS_GOOD, 3, [1, 2, 3] @ drop 3 resp, server)"

lemma sample_answer:
  assumes "is_open (server_secure_channel server)" "conn_ok server"
  shows "\<exists>server1. dispatch_or_fault sample_config answer_three False \<lparr>namespace_index = 0, ident = NUMERIC MU_ID_GETENDPOINTSREQUEST\<rparr>
      pol cert body resp cap server = (False, 3, [1, 2, 3] @ drop 3 resp, server1) \<and>
    server_secure_channel server1 = server_secure_channel server \<and> conn_ok server1 \<and>
    server_client_handle server1 = server_client_handle server \<and> send_buffer server1 = send_buffer server \<and>
    tcp_calls server1 = tcp_calls server"
proof -
  have f: "find_service_descriptor MU_ID_GETENDPOINTSREQUEST =
      Some (service_row MU_ID_GETENDPOINTSREQUEST MU_ID_GETENDPOINTSRESPONSE False HANDLE_GET_ENDPOINTS)"
    unfolding find_service_descriptor_def find_service_loop_linear [OF services_sorted]
    by (simp add: g_supported_services_def service_row_def)
  have fr: "server_secure_channel (server\<lparr>active_session := a, return_diagnostics := d\<rparr>) = server_secure_channel server"
    "server_client_handle (server\<lparr>active_session := a, return_diagnostics := d\<rparr>) = server_client_handle server"
    "conn_ok (server\<lparr>active_session := a, return_diagnostics := d\<rparr>) = conn_ok server" for a d
    by (simp_all add: server_secure_channel_def server_client_handle_def conn_ok_def split: option.split)
  show ?thesis
    using assms
    by (simp add: dispatch_or_fault_def is_ns0_numeric_nodeid_def numeric_identifier_def mu_service_dispatch_def f service_row_def
        answer_three_def Let_def fr)
qed

theorem secured_request_delivered_witness:
  "\<exists>chunk server' msg' reply. process_message sample_config answer_three (sample_secured_by MU_SECURITY_POLICY_ECC_CURVE25519_ID) chunk =
      (server', msg') \<and> tcp_calls server' = [Tcp_write (server_client_handle (sample_secured_by MU_SECURITY_POLICY_ECC_CURVE25519_ID)) reply] \<and>
    opens_as steady_crypto (sample_secured_channel\<lparr>sc_policy := MU_SECURITY_POLICY_ECC_CURVE25519_ID\<rparr>) sample_keys 0 reply 1 9 [1, 2, 3]"
proof -
  let ?P = MU_SECURITY_POLICY_ECC_CURVE25519_ID and ?t = "\<lparr>namespace_index = 0, ident = NUMERIC MU_ID_GETENDPOINTSREQUEST\<rparr>"
  let ?S = "sample_secured_by ?P" and ?c = "sample_secured_channel\<lparr>sc_policy := ?P\<rparr>" and ?z = "replicate 64 (0 :: opcua_byte_t)"
  let ?v = "\<lparr>last_sequence_number = 52, is_initialized = True\<rparr>"
  let ?c1 = "?c\<lparr>sequence := ?v, in_last_sequence_number := 52\<rparr>"
  have o0: "out_sequence_number ?c1 = 0" "server_keys ?c1 = sample_keys" by (simp_all add: sample_secured_channel_def sample_channel_def)
  have l: "length (enc_nodeid ?t @ [0, 77]) = 6" by (simp add: enc_nodeid_def nodeid_format_def nodeid_payload_def)
  have "\<exists>n out'. protect_chunk steady_crypto ?c sample_keys (in_last_sequence_number ?c) 52 9 (enc_nodeid ?t @ [0, 77]) ?z 64 = (Inr n, out')"
    by (rule sample_protected) (simp_all only: l, simp_all)
  then obtain n out' where "protect_chunk steady_crypto ?c sample_keys (in_last_sequence_number ?c) 52 9 (enc_nodeid ?t @ [0, 77]) ?z 64 = (Inr n, out')"
    by blast
  then have w: "protect_chunk steady_crypto ?c (client_keys ?c) (in_last_sequence_number ?c) 52 9 (enc_nodeid ?t @ [0, 77]) ?z 64 = (Inr n, out')"
    by simp
  obtain server1 where d: "dispatch_or_fault sample_config answer_three False ?t null_string \<lparr>str_length = 0, str_data = None\<rparr> [0, 77]
      (take 11264 (cf_scratch sample_config)) 11264 ((set_secure_channel ?c1 ?S)\<lparr>current_request_id := 9\<rparr>) =
      (False, 3, [1, 2, 3] @ drop 3 (take 11264 (cf_scratch sample_config)), server1)"
    and s1: "server_secure_channel server1 = ?c1" "conn_ok server1" "server_client_handle server1 = server_client_handle ?S"
      "send_buffer server1 = replicate 8192 0" "tcp_calls server1 = []"
    using sample_answer [of "(set_secure_channel ?c1 ?S)\<lparr>current_request_id := 9\<rparr>" null_string "\<lparr>str_length = 0, str_data = None\<rparr>"
        "[0, 77]" "take 11264 (cf_scratch sample_config)" 11264] by auto
  have h: "64 \<le> length ?z" "(64 :: nat) < 2 ^ 32" "tcp_state (server_tcp_conn ?S) \<noteq> MU_TCP_STATE_CLOSED"
    "keys_valid ?c" "sc_policy ?c \<noteq> MU_SECURITY_POLICY_NONE_ID" "mu_sequence_validate (sequence ?c) 52 = (MU_STATUS_GOOD, ?v)" "valid_nodeid ?t"
    "8192 \<le> length (send_buffer server1)" "(8192 :: nat) < 2 ^ 32" "8192 = cfg_send_buffer_size (cf_transport sample_config)"
    using first_sequence s1(4) by (simp_all add: valid_nodeid_def sample_config_def)
  obtain k b where wr: "wrap_msg steady_crypto ?c1 (out_sequence_number ?c1 + 1) 9 [1, 2, 3] (send_buffer server1) 8192 = (Inr k, b)"
    using sample_protected [of ?c1 "[1, 2, 3]" 8192 "send_buffer server1" "out_sequence_number ?c1" "out_sequence_number ?c1 + 1" 9] s1(4) o0
    by (auto simp: wrap_msg_protects)
  note r = secured_request_delivered [OF w h(1,2) sample_sym_laws h(3) sample_secured_by_simps(4) sample_secured_simps(5)
      sample_secured_by_simps(1) [symmetric] sample_secured_by_simps(2) h(4-7) d s1(2) s1(1) [symmetric] h(10,8,9)]
  have tk: "take 3 ([1, 2, 3] @ drop 3 (take 11264 (cf_scratch sample_config))) = [1, 2, 3]" by simp
  obtain server' msg' where q: "process_message sample_config answer_three ?S (take n out') = (server', msg')"
    "sends_protected sample_config steady_crypto server1 9 [1, 2, 3] server'"
    using r wr unfolding tk by auto
  have wt: "tcp_write sample_config x = (MU_STATUS_GOOD, length x)" for x by (simp add: sample_config_def)
  have op: "opens_as steady_crypto ?c1 ks lq x y z bd = opens_as steady_crypto ?c ks lq x y z bd" for ks lq x y z bd
    by (simp add: opens_as_def open_chunk_def)
  obtain reply where "tcp_calls server' = [Tcp_write (server_client_handle ?S) reply]" "opens_as steady_crypto ?c1 sample_keys 0 reply 1 9 [1, 2, 3]"
    using q(2) unfolding sends_protected_def s1(1,3,5) o0 wt Let_def by auto
  then show ?thesis using q(1) unfolding op by blast
qed

text \<open>
  C36.  Messages in several chunks bypass the channel's protection.  Whatever policy, mode and keys the
  channel of a connection has, a continuation chunk with any sixteen header bytes, received before on any
  connection, followed by a final chunk that names the channel's id and token and the next sequence
  number, is dispatched: both bodies are taken as they came from the network and put together, without
  decryption and without a MAC.
\<close>

theorem multi_chunk_unprotected:
  assumes "tcp_state (tcp_conn (conns server ! i)) \<noteq> MU_TCP_STATE_CLOSED" "tcp_state (tcp_conn (conns server ! j)) \<noteq> MU_TCP_STATE_CLOSED"
    and "\<not> ca_is_active (chunk_assembly server)" "length hdr = 16" "a \<noteq> []" "b \<noteq> []"
    and "24 + length a < 2 ^ 32" "24 + length b < 2 ^ 32" "length a + length b \<le> length (ca_buffer (chunk_assembly server))"
    and "c = secure_channel (conns server ! j)" "mu_sequence_validate (sequence c) sq = (MU_STATUS_GOOD, v)"
    and "a @ b = enc_nodeid t @ body" "valid_nodeid t"
    and "process_message cfg functions (server\<lparr>active_conn := Some i\<rparr>) (plain_chunk 0x43 hdr a) = (server1, m1)"
    and "process_message cfg functions (server1\<lparr>active_conn := Some j\<rparr>)
           (plain_chunk 0x46 (msg_fields (channel_id c) (token_id c) sq req) b) = (server2, m2)"
  shows "\<exists>server'. server2 = process_message_multi_chunk_final_dispatch cfg functions server' t req body \<and>
    server'\<lparr>chunk_assembly := chunk_assembly server, conns := conns server, active_conn := active_conn server\<rparr> = server"
proof -
  let ?ca = "chunk_assembly server"
  let ?m2 = "plain_chunk 0x46 (msg_fields (channel_id c) (token_id c) sq req) b"
  define s1 where "s1 = server\<lparr>active_conn := Some j, chunk_assembly := ?ca\<lparr>ca_is_active := True,
    ca_buffer := put_at 0 a (ca_buffer ?ca), ca_length := length a\<rparr>\<rparr>"
  have s1: "server1\<lparr>active_conn := Some j\<rparr> = s1"
    using continuation_collects [of "server\<lparr>active_conn := Some i\<rparr>" hdr a cfg "functions"] assms
    by (simp add: server_tcp_conn_def s1_def)
  define ca where "ca = (chunk_assembly s1)\<lparr>ca_buffer := put_at (length a) b (put_at 0 a (ca_buffer ?ca)), ca_length := length a + length b\<rparr>"
  have ap: "chunk_append (chunk_assembly s1) b = Some ca"
    using assms(9) by (simp add: chunk_append_def s1_def ca_def)
  have buf: "take (length a + length b) (ca_buffer ca) = enc_nodeid t @ body" "length (ca_buffer ca) = length (ca_buffer ?ca)"
    using assms(9,12) by (simp_all add: ca_def put_at_def)
  have ln: "length a + length b = length (enc_nodeid t) + length body" using arg_cong [OF assms(12), of length] by simp
  have tk: "take (length (enc_nodeid t)) (ca_buffer ca) = enc_nodeid t"
    using arg_cong [OF buf(1), of "take (length (enc_nodeid t))"] ln by (simp add: min_def)
  let ?r = "mu_binary_reader_init (Some (ca_buffer ca)) (ca_length ca)"
  have r: "mu_binary_read_nodeid ?r = (Inr t, ?r\<lparr>rd_position := length (enc_nodeid t)\<rparr>)"
    using readsD [OF reads_nodeid [OF assms(13)], of ?r "ca_buffer ca"] buf(2) tk ln assms(9)
    by (simp add: mu_binary_reader_init_def slice_def ca_def)
  have body: "slice (length (enc_nodeid t)) (ca_length ca - length (enc_nodeid t)) (ca_buffer ca) = body"
    using arg_cong [OF buf(1), of "drop (length (enc_nodeid t))"] ln by (simp add: slice_def drop_take ca_def)
  have m2: "length ?m2 = 24 + length b" "drop 24 ?m2 = b"
    using plain_chunk_parses(2,3) [of "msg_fields (channel_id c) (token_id c) sq req" b "0x46"] assms(8) by simp_all
  obtain r2 where h: "read_data_header False ((mu_binary_reader_init (Some ?m2) (length ?m2))\<lparr>rd_position := 8\<rparr>) =
     (Inr \<lparr>dh_channel_id = channel_id c, dh_token_id = token_id c, dh_policy = null_string,
     dh_sender_cert = null_string, dh_sequence = \<lparr>sh_sequence_number = sq, sh_request_id = req\<rparr>\<rparr>, r2)"
    using plain_chunk_header_read [OF assms(8)] by blast
  define s2 where "s2 = set_secure_channel (c\<lparr>sequence := v\<rparr>) (s1\<lparr>chunk_assembly := ca\<rparr>)"
  have a: "accept_inbound_chunk (s1\<lparr>chunk_assembly := ca\<rparr>) False (channel_id c) (token_id c) sq = (True, s2)"
    using assms(10,11) by (simp add: accept_inbound_chunk_def s2_def s1_def server_secure_channel_def)
  have "server2 = process_message_multi_chunk_final cfg functions s1 ?m2"
    using assms(2,15) plain_chunk_parses(1) [of "msg_fields (channel_id c) (token_id c) sq req" b "0x46"] assms(8) unfolding s1
    by (auto simp: process_message_def s1_def server_tcp_conn_def msg_fields_def Let_def)
  also have "\<dots> = process_message_multi_chunk_final_dispatch cfg functions s2 t req body"
    using h [unfolded m2(1)] assms(6) by (simp add: process_message_multi_chunk_final_def m2 ap a r body)
  finally show ?thesis
    by (intro exI [of _ s2] conjI) (simp_all add: s2_def s1_def set_secure_channel_def)
qed

theorem multi_chunk_unprotected_witness:
  "\<exists>server1 m1 server2 m2 server'.
    process_message sample_config echo_status (sample_secured\<lparr>active_conn := Some 0\<rparr>) (plain_chunk 0x43 (replicate 16 0) [1, 0, 0x77]) = (server1, m1) \<and>
    process_message sample_config echo_status (server1\<lparr>active_conn := Some 0\<rparr>) (plain_chunk 0x46 (msg_fields 7 1 52 9) [2, 0, 77]) = (server2, m2) \<and>
    sc_mode (secure_channel (conns sample_secured ! 0)) = MU_MESSAGE_SECURITY_MODE_SIGN_AND_ENCRYPT \<and>
    server2 = process_message_multi_chunk_final_dispatch sample_config echo_status server'
      \<lparr>namespace_index = 0, ident = NUMERIC MU_ID_READREQUEST\<rparr> 9 [0, 77]"
proof -
  let ?t = "\<lparr>namespace_index = 0, ident = NUMERIC MU_ID_READREQUEST\<rparr>"
  have c: "secure_channel (conns sample_secured ! 0) = sample_secured_channel"
    "tcp_state (tcp_conn (conns sample_secured ! 0)) \<noteq> MU_TCP_STATE_CLOSED" by (simp_all add: sample_secured_def)
  have e: "[1, 0, 0x77] @ [2, 0, 77] = enc_nodeid ?t @ [0, 77]" "valid_nodeid ?t"
    "length [1, 0, 0x77 :: 8 word] + length [2, 0, 77 :: 8 word] \<le> length (ca_buffer (chunk_assembly sample_secured))"
    by (simp_all add: enc_nodeid_def nodeid_format_def nodeid_payload_def valid_nodeid_def sample_secured_def
        mu_binary_le_put_u16_def)
  obtain server1 m1 where p1: "process_message sample_config echo_status (sample_secured\<lparr>active_conn := Some 0\<rparr>)
      (plain_chunk 0x43 (replicate 16 0) [1, 0, 0x77]) = (server1, m1)" by fastforce
  obtain server2 m2 where p2: "process_message sample_config echo_status (server1\<lparr>active_conn := Some 0\<rparr>)
      (plain_chunk 0x46 (msg_fields (channel_id sample_secured_channel) (token_id sample_secured_channel) 52 9) [2, 0, 77]) = (server2, m2)" by fastforce
  have q: "mu_sequence_validate (sequence sample_secured_channel) 52 = (MU_STATUS_GOOD, \<lparr>last_sequence_number = 52, is_initialized = True\<rparr>)"
    using first_sequence by simp
  from multi_chunk_unprotected [OF c(2) c(2) sample_secured_simps(4) _ _ _ _ _ e(3) c(1) [symmetric] q e(1,2) p1 p2]
  obtain server' where "server2 = process_message_multi_chunk_final_dispatch sample_config echo_status server' ?t 9 [0, 77]" by auto
  then show ?thesis using p1 p2 c(1) by (simp only: sample_secured_simps) blast
qed

text \<open>
  C37.  A protected channel is not kept protected.  Whatever policy, mode and keys an open channel has,
  an OPN chunk of policy None that anybody can write, with no signature, carrying the next sequence
  number, renews the channel as one without protection: it stays open under the same id with the next
  token, and the sessions bound to it stay as they are.  From then on its MSG chunks are handled as
  plaintext.
\<close>

theorem opn_none_unprotects_channel:
  assumes "conn_ok server" "tcp_state (server_tcp_conn server) \<noteq> MU_TCP_STATE_CLOSED" "crypto_adapter cfg = Some cr"
    and "c = server_secure_channel server" "is_open c"
    and "functions HANDLE_OPEN_SECURE_CHANNEL = handle_open_secure_channel cfg"
    and "mu_sequence_validate (sequence c) sq = (MU_STATUS_GOOD, v)"
    and "valid_nodeid (authentication_token h)" "valid_string (audit_entry_id h)" "valid_string client_nonce"
    and "mu_opn_time_sync_allows (cf_time cfg) (rq_timestamp h) (max_skew cfg)" "request_type \<le> 1"
    and "validate_client_nonce client_nonce = MU_STATUS_GOOD"
    and "entropy_adapter cfg = Some random" "random 32 = Inr nonce" "length nonce = 32"
    and "12288 \<le> length (cf_scratch cfg)"
    and "body = open_message h proto request_type MU_MESSAGE_SECURITY_MODE_NONE client_nonce lifetime" "length body \<le> 1024"
    and "process_message cfg functions server (none_opn scid sq rid body) = (server', msg')"
  shows "is_open (server_secure_channel server') \<and> channel_id (server_secure_channel server') = channel_id c \<and>
    token_id (server_secure_channel server') = token_id c + 1 \<and>
    sc_policy (server_secure_channel server') = MU_SECURITY_POLICY_NONE_ID \<and>
    sc_mode (server_secure_channel server') = MU_MESSAGE_SECURITY_MODE_NONE \<and> sessions server' = sessions server \<and>
    (\<forall>msg. handle_data_chunk_secure cfg functions cr server' msg False = (handle_data_chunk_plaintext cfg functions server' msg False, msg))"
proof -
  let ?t = "\<lparr>namespace_index = 0, ident = NUMERIC MU_ID_OPENSECURECHANNELREQUEST\<rparr>"
  let ?b = "enc_open_request h proto request_type MU_MESSAGE_SECURITY_MODE_NONE client_nonce lifetime"
  define q where "q = \<lparr>oq_request_handle = rq_request_handle h, oq_security_mode = MU_MESSAGE_SECURITY_MODE_NONE, oq_client_nonce = client_nonce, oq_requested_lifetime = lifetime\<rparr>"
  define u where "u = \<lparr>uw_request = body, uw_request_id = rid, uw_channel_id = scid, uw_token_id = 0, uw_sequence = sq,
    uw_policy = mk_string POLICY_NONE_URI, uw_client_cert = None\<rparr>"
  define c1 where "c1 = c\<lparr>sc_policy := MU_SECURITY_POLICY_NONE_ID, sequence := v, in_last_sequence_number := sq\<rparr>"
  let ?s = "(set_secure_channel c1 server)\<lparr>current_request_id := rid\<rparr>"
  have tot: "79 + length body < 2 ^ 32" using assms(19) by simp
  have ty: "cstr ''MSG'' \<noteq> cstr ''OPN''" "cstr ''CLO'' \<noteq> cstr ''OPN''" by (simp_all add: cstr_def)
  obtain hd where hd: "mu_parse_message_header (Some (none_opn scid sq rid body)) (length (none_opn scid sq rid body)) = Inr hd"
    "mh_message_type hd = cstr ''OPN''" using none_opn_parts(2) [OF tot] by blast
  have p: "server' = handle_unwrapped cfg functions cr True u (set_secure_channel (c\<lparr>sc_policy := MU_SECURITY_POLICY_NONE_ID\<rparr>) server)"
    using assms(20) none_opn_unwraps [OF tot assms(19,17), of cr server scid sq rid] ty(1) ty(1) [symmetric] ty(2) ty(2) [symmetric]
    by (simp add: process_message_def assms(2,3) hd process_message_opn_or_msg_def handle_data_chunk_secure_def u_def assms(4))
  have r: "fst (read_open_request cfg (mu_binary_reader_init (Some ?b) (length ?b))) = Inr q"
    using readsD [OF reads_open_request [OF assms(8-13), of proto MU_MESSAGE_SECURITY_MODE_NONE lifetime], of "mu_binary_reader_init (Some ?b) (length ?b)" ?b]
    by (simp add: mu_binary_reader_init_def slice_def q_def)
  let ?r = "mu_binary_reader_init (Some (enc_nodeid ?t @ ?b)) (length (enc_nodeid ?t @ ?b))"
  have nid: "mu_binary_read_nodeid ?r = (Inr ?t, ?r\<lparr>rd_position := length (enc_nodeid ?t)\<rparr>)"
    using readsD [OF reads_nodeid, of ?t ?r "enc_nodeid ?t @ ?b"] by (simp add: mu_binary_reader_init_def slice_def valid_nodeid_def)
  have cs: "conn_ok ?s" "server_secure_channel ?s = c1" using assms(1) by simp_all
  have c1: "is_open c1" "sc_policy c1 = MU_SECURITY_POLICY_NONE_ID" using assms(5) by (simp_all add: c1_def)
  obtain len resp' s1 where d: "0 < len"
    "dispatch_or_fault cfg functions True ?t (mk_string POLICY_NONE_URI) \<lparr>str_length = 0, str_data = None\<rparr> ?b
       (take MU_SECURE_RESP_MAX (cf_scratch cfg)) MU_SECURE_RESP_MAX ?s = (False, len, resp', s1)"
    "conn_ok s1" "server_secure_channel s1 = opened_channel q (channel_id c1) c1" "sessions s1 = sessions ?s"
    by (rule plain_renewal_dispatched [where fs = "functions", OF cs(1) cs(2) [symmetric] c1 assms(6) r _ assms(14-16), of MU_SECURE_RESP_MAX
          "take MU_SECURE_RESP_MAX (cf_scratch cfg)" "\<lparr>str_length = 0, str_data = None\<rparr>"])
      (use assms(17) in \<open>simp_all add: q_def\<close>)
  have s': "server' = send_secured cfg cr True u (take len resp') s1"
    unfolding p handle_unwrapped_def accept_inbound_chunk_def
    using assms(1,7) d(1,2) nid by (simp add: u_def assms(18) open_message_def c1_def [symmetric] close_rejected_def)
  obtain n where "server_secure_channel server' = (opened_channel q (channel_id c1) c1)\<lparr>out_sequence_number := n\<rparr>"
    using send_secured_frame(1) [OF d(3)] unfolding s' d(4) by blast
  then show ?thesis
    using send_secured_frame(2) [OF d(3)] d(5) assms(5) unfolding s'
    by (simp add: opened_channel_def q_def c1_def handle_data_chunk_secure_def)
qed

theorem opn_none_unprotects_channel_witness:
  "\<exists>server' msg'. process_message sample_config (\<lambda>_. handle_open_secure_channel sample_config) sample_secured
     (none_opn 7 52 9 (open_message sample_open_header 0 1 MU_MESSAGE_SECURITY_MODE_NONE (mk_string (replicate 32 8)) 0)) = (server', msg') \<and>
     sc_policy (server_secure_channel sample_secured) = MU_SECURITY_POLICY_BASIC256SHA256_ID \<and>
     is_open (server_secure_channel server') \<and> channel_id (server_secure_channel server') = 7 \<and>
     sc_policy (server_secure_channel server') = MU_SECURITY_POLICY_NONE_ID"
proof -
  let ?b = "open_message sample_open_header 0 1 MU_MESSAGE_SECURITY_MODE_NONE (mk_string (replicate 32 8)) 0"
  obtain server' msg' where p: "process_message sample_config (\<lambda>_. handle_open_secure_channel sample_config) sample_secured (none_opn 7 52 9 ?b) = (server', msg')"
    by fastforce
  have n: "validate_client_nonce (mk_string (replicate 32 8)) = MU_STATUS_GOOD" "valid_string (mk_string (replicate 32 8))"
    by (simp_all add: validate_client_nonce_def mk_string_def valid_string_def)
  have h: "valid_nodeid (authentication_token sample_open_header)" "valid_string (audit_entry_id sample_open_header)"
    "mu_opn_time_sync_allows (cf_time sample_config) (rq_timestamp sample_open_header) (max_skew sample_config)"
    "12288 \<le> length (cf_scratch sample_config)" "entropy_adapter sample_config = Some (\<lambda>n. Inr (replicate n 7))" "length ?b \<le> 1024"
    by (simp_all add: sample_open_header_def valid_nodeid_def valid_string_def mu_opn_time_sync_allows_def sample_config_def open_message_def
        enc_open_request_def enc_request_header_def enc_ext_header_def enc_nodeid_def nodeid_payload_def enc_string_def str_bytes_def mk_string_def)
  have q: "mu_sequence_validate (sequence sample_secured_channel) 52 = (MU_STATUS_GOOD, \<lparr>last_sequence_number = 52, is_initialized = True\<rparr>)"
    using first_sequence by simp
  show ?thesis
    using opn_none_unprotects_channel [OF sample_secured_simps(2) _ sample_secured_simps(5) sample_secured_simps(1) [symmetric] sample_secured_simps(9) refl q
      h(1,2) n(2) h(3) _ n(1) h(5) refl _ h(4) refl h(6) p] p by auto
qed

end
