(* ===== verification/Mu_Variants.thy ===== *)
theory Mu_Variants
  imports Mu_Extension_Object
begin

unbundle bit_operations_syntax

text \<open>
  \<^verbatim>\<open>Variant\<close> and \<^verbatim>\<open>DataValue\<close>: \<^verbatim>\<open>src/encoding/binary_variant.c\<close>,
  \<^verbatim>\<open>src/encoding/binary_datavalue.c\<close> and \<^verbatim>\<open>src/encoding/variant_type.c\<close>.

  The built-in type tag is the C enumeration's number, since decoding admits every value below 64.
  The value union is a datatype: a scalar, the decoded element array, or one of the structures an
  ExtensionObject variant points to; \<open>NoValue\<close> is the null \<^verbatim>\<open>array\<close> pointer.  The tag selects the
  union member, so a scalar whose constructor disagrees with the tag has no counterpart in the
  program; it is sent to the default branch.  \<open>calloc_ok\<close> tells for which byte counts the heap
  allocation of a decoded array succeeds.
\<close>

section \<open>Data\<close>

type_synonym mu_builtin_type = "8 word"

abbreviation (input) MU_TYPE_NULL :: mu_builtin_type where "MU_TYPE_NULL \<equiv> 0"
abbreviation (input) MU_TYPE_BOOLEAN :: mu_builtin_type where "MU_TYPE_BOOLEAN \<equiv> 1"
abbreviation (input) MU_TYPE_SBYTE :: mu_builtin_type where "MU_TYPE_SBYTE \<equiv> 2"
abbreviation (input) MU_TYPE_BYTE :: mu_builtin_type where "MU_TYPE_BYTE \<equiv> 3"
abbreviation (input) MU_TYPE_INT16 :: mu_builtin_type where "MU_TYPE_INT16 \<equiv> 4"
abbreviation (input) MU_TYPE_UINT16 :: mu_builtin_type where "MU_TYPE_UINT16 \<equiv> 5"
abbreviation (input) MU_TYPE_INT32 :: mu_builtin_type where "MU_TYPE_INT32 \<equiv> 6"
abbreviation (input) MU_TYPE_UINT32 :: mu_builtin_type where "MU_TYPE_UINT32 \<equiv> 7"
abbreviation (input) MU_TYPE_INT64 :: mu_builtin_type where "MU_TYPE_INT64 \<equiv> 8"
abbreviation (input) MU_TYPE_UINT64 :: mu_builtin_type where "MU_TYPE_UINT64 \<equiv> 9"
abbreviation (input) MU_TYPE_FLOAT :: mu_builtin_type where "MU_TYPE_FLOAT \<equiv> 10"
abbreviation (input) MU_TYPE_DOUBLE :: mu_builtin_type where "MU_TYPE_DOUBLE \<equiv> 11"
abbreviation (input) MU_TYPE_STRING :: mu_builtin_type where "MU_TYPE_STRING \<equiv> 12"
abbreviation (input) MU_TYPE_DATETIME :: mu_builtin_type where "MU_TYPE_DATETIME \<equiv> 13"
abbreviation (input) MU_TYPE_GUID :: mu_builtin_type where "MU_TYPE_GUID \<equiv> 14"
abbreviation (input) MU_TYPE_BYTESTRING :: mu_builtin_type where "MU_TYPE_BYTESTRING \<equiv> 15"
abbreviation (input) MU_TYPE_NODEID :: mu_builtin_type where "MU_TYPE_NODEID \<equiv> 17"
abbreviation (input) MU_TYPE_STATUSCODE :: mu_builtin_type where "MU_TYPE_STATUSCODE \<equiv> 19"
abbreviation (input) MU_TYPE_QUALIFIEDNAME :: mu_builtin_type where "MU_TYPE_QUALIFIEDNAME \<equiv> 20"
abbreviation (input) MU_TYPE_LOCALIZEDTEXT :: mu_builtin_type where "MU_TYPE_LOCALIZEDTEXT \<equiv> 21"
abbreviation (input) MU_TYPE_EXTENSIONOBJECT :: mu_builtin_type where "MU_TYPE_EXTENSIONOBJECT \<equiv> 22"
abbreviation (input) MU_TYPE_VARIANT :: mu_builtin_type where "MU_TYPE_VARIANT \<equiv> 24"

datatype mu_scalar =
    V_b opcua_boolean_t | V_sb opcua_sbyte_t | V_by opcua_byte_t
  | V_i16 opcua_int16_t | V_ui16 opcua_uint16_t | V_i32 opcua_int32_t | V_ui32 opcua_uint32_t
  | V_i64 opcua_int64_t | V_ui64 opcua_uint64_t | V_f opcua_float_t | V_d opcua_double_t
  | V_str mu_string | V_bytestr mu_bytestring | V_dt opcua_datetime_t | V_status opcua_statuscode_t
  | V_nodeid mu_nodeid | V_qualified_name mu_qualified_name | V_localized_text mu_localized_text

datatype mu_value =
    NoValue
  | Scalar mu_scalar
  | Elements "mu_scalar list"
  | Arguments "mu_argument list"
  | DiagnosticsSummary mu_diagnostics_summary
  | ServerStatus mu_server_status

record mu_variant =
  v_type :: mu_builtin_type
  v_value :: mu_value
  v_is_array :: opcua_boolean_t
  v_array_length :: opcua_int32_t
  v_ext_encoding_id :: opcua_uint32_t

record mu_datavalue =
  dv_value :: mu_variant
  dv_status :: opcua_statuscode_t
  dv_source_timestamp :: opcua_datetime_t
  dv_source_picoseconds :: opcua_uint16_t
  dv_server_timestamp :: opcua_datetime_t
  dv_server_picoseconds :: opcua_uint16_t
  has_value :: opcua_boolean_t
  has_status :: opcua_boolean_t
  has_source_timestamp :: opcua_boolean_t
  has_source_picoseconds :: opcua_boolean_t
  has_server_timestamp :: opcua_boolean_t
  has_server_picoseconds :: opcua_boolean_t

fun scalar_type :: "mu_scalar \<Rightarrow> mu_builtin_type" where
  "scalar_type (V_b _) = MU_TYPE_BOOLEAN"
| "scalar_type (V_sb _) = MU_TYPE_SBYTE"
| "scalar_type (V_by _) = MU_TYPE_BYTE"
| "scalar_type (V_i16 _) = MU_TYPE_INT16"
| "scalar_type (V_ui16 _) = MU_TYPE_UINT16"
| "scalar_type (V_i32 _) = MU_TYPE_INT32"
| "scalar_type (V_ui32 _) = MU_TYPE_UINT32"
| "scalar_type (V_i64 _) = MU_TYPE_INT64"
| "scalar_type (V_ui64 _) = MU_TYPE_UINT64"
| "scalar_type (V_f _) = MU_TYPE_FLOAT"
| "scalar_type (V_d _) = MU_TYPE_DOUBLE"
| "scalar_type (V_str _) = MU_TYPE_STRING"
| "scalar_type (V_bytestr _) = MU_TYPE_BYTESTRING"
| "scalar_type (V_dt _) = MU_TYPE_DATETIME"
| "scalar_type (V_status _) = MU_TYPE_STATUSCODE"
| "scalar_type (V_nodeid _) = MU_TYPE_NODEID"
| "scalar_type (V_qualified_name _) = MU_TYPE_QUALIFIEDNAME"
| "scalar_type (V_localized_text _) = MU_TYPE_LOCALIZEDTEXT"

section \<open>Decoding\<close>

text \<open>The element strides, as laid out on the 32-bit target.\<close>

definition element_size :: "mu_builtin_type \<Rightarrow> nat" where
  "element_size type =
    (if type \<in> {MU_TYPE_BOOLEAN, MU_TYPE_SBYTE, MU_TYPE_BYTE} then 1
     else if type \<in> {MU_TYPE_INT16, MU_TYPE_UINT16} then 2
     else if type \<in> {MU_TYPE_INT32, MU_TYPE_UINT32, MU_TYPE_FLOAT, MU_TYPE_STATUSCODE} then 4
     else if type \<in> {MU_TYPE_INT64, MU_TYPE_UINT64, MU_TYPE_DOUBLE, MU_TYPE_DATETIME} then 8
     else if type \<in> {MU_TYPE_STRING, MU_TYPE_BYTESTRING} then 8
     else if type = MU_TYPE_NODEID then 28
     else if type = MU_TYPE_QUALIFIEDNAME then 12
     else if type = MU_TYPE_LOCALIZEDTEXT then 16
     else 0)"

definition read_scalar_value :: "mu_builtin_type \<Rightarrow> mu_scalar rd" where
  "read_scalar_value type =
    (if type = MU_TYPE_BOOLEAN then rd_bind mu_binary_read_boolean (rd_return \<circ> V_b)
     else if type = MU_TYPE_SBYTE then rd_bind mu_binary_read_sbyte (rd_return \<circ> V_sb)
     else if type = MU_TYPE_BYTE then rd_bind mu_binary_read_byte (rd_return \<circ> V_by)
     else if type = MU_TYPE_INT16 then rd_bind mu_binary_read_int16 (rd_return \<circ> V_i16)
     else if type = MU_TYPE_UINT16 then rd_bind mu_binary_read_uint16 (rd_return \<circ> V_ui16)
     else if type = MU_TYPE_INT32 then rd_bind mu_binary_read_int32 (rd_return \<circ> V_i32)
     else if type = MU_TYPE_UINT32 then rd_bind mu_binary_read_uint32 (rd_return \<circ> V_ui32)
     else if type = MU_TYPE_INT64 then rd_bind mu_binary_read_int64 (rd_return \<circ> V_i64)
     else if type = MU_TYPE_UINT64 then rd_bind mu_binary_read_uint64 (rd_return \<circ> V_ui64)
     else if type = MU_TYPE_FLOAT then rd_bind mu_binary_read_float (rd_return \<circ> V_f)
     else if type = MU_TYPE_DOUBLE then rd_bind mu_binary_read_double (rd_return \<circ> V_d)
     else if type = MU_TYPE_STRING then rd_bind mu_binary_read_string (rd_return \<circ> V_str)
     else if type = MU_TYPE_BYTESTRING then rd_bind mu_binary_read_bytestring (rd_return \<circ> V_bytestr)
     else if type = MU_TYPE_DATETIME then rd_bind mu_binary_read_int64 (rd_return \<circ> V_dt)
     else if type = MU_TYPE_STATUSCODE then rd_bind mu_binary_read_statuscode (rd_return \<circ> V_status)
     else if type = MU_TYPE_NODEID then rd_bind mu_binary_read_nodeid (rd_return \<circ> V_nodeid)
     else if type = MU_TYPE_QUALIFIEDNAME then
       rd_bind mu_binary_read_qualified_name (rd_return \<circ> V_qualified_name)
     else if type = MU_TYPE_LOCALIZEDTEXT then
       rd_bind mu_binary_read_byte (\<lambda>lt_mask.
       rd_bind (if lt_mask AND 0x01 \<noteq> 0 then mu_binary_read_string else rd_return null_string) (\<lambda>loc.
       rd_bind (if lt_mask AND 0x02 \<noteq> 0 then mu_binary_read_string else rd_return null_string) (\<lambda>txt.
       rd_return (V_localized_text \<lparr>lt_locale = loc, lt_text = txt\<rparr>))))
     else rd_error MU_STATUS_BAD_DECODINGERROR)"

text \<open>The elements of an array variant, with the guards that precede their decoding.\<close>

definition read_variant_elements :: "(nat \<Rightarrow> bool) \<Rightarrow> mu_builtin_type \<Rightarrow> opcua_int32_t \<Rightarrow> mu_value rd" where
  "read_variant_elements calloc_ok type length' =
    (if sint length' > 0 then
       (let stride = element_size type in
        if stride = 0 then rd_error MU_STATUS_BAD_DECODINGERROR
        else (\<lambda>r. if rd_position r > rd_length r \<or> unat length' > rd_length r - rd_position r
                  then rd_error MU_STATUS_BAD_DECODINGERROR r
                  else if unat length' > SIZE_MAX div stride then rd_error MU_STATUS_BAD_DECODINGERROR r
                  else if \<not> calloc_ok (unat length' * stride) then rd_error MU_STATUS_BAD_OUTOFMEMORY r
                  else rd_bind (rd_list (unat length') (read_scalar_value type)) (rd_return \<circ> Elements) r))
     else rd_return NoValue)"

text \<open>The dimensions array is consumed and dropped.\<close>

definition skip_variant_dimensions :: "unit rd" where
  "skip_variant_dimensions =
    rd_bind mu_binary_read_int32 (\<lambda>dim_count.
    if sint dim_count < -1 then rd_error MU_STATUS_BAD_DECODINGERROR
    else rd_bind (rd_list (nat (sint dim_count)) mu_binary_read_int32) (\<lambda>_. rd_return ()))"

definition mu_binary_read_variant :: "(nat \<Rightarrow> bool) \<Rightarrow> mu_variant \<Rightarrow> mu_variant rd" where
  "mu_binary_read_variant calloc_ok variant =
    rd_bind mu_binary_read_byte (\<lambda>encoding_mask.
    let type = encoding_mask AND 0x3F;
        is_array = encoding_mask AND 0x80 \<noteq> 0;
        has_dimensions = encoding_mask AND 0x40 \<noteq> 0;
        variant = variant\<lparr>v_type := type, v_is_array := False, v_array_length := 0, v_value := NoValue\<rparr>
    in
    if has_dimensions \<and> \<not> is_array then rd_error MU_STATUS_BAD_DECODINGERROR
    else if type = MU_TYPE_NULL then rd_return variant
    else if is_array then
      rd_bind mu_binary_read_int32 (\<lambda>length'.
      if sint length' < -1 then rd_error MU_STATUS_BAD_DECODINGERROR
      else if sint length' > int MU_INTERN_MAX_ARRAY_LENGTH then rd_error MU_STATUS_BAD_ENCODINGLIMITSEXCEEDED
      else
        rd_bind (read_variant_elements calloc_ok type length') (\<lambda>elements.
        rd_bind (if has_dimensions then skip_variant_dimensions else rd_return ()) (\<lambda>_.
        rd_return (variant\<lparr>v_is_array := True, v_array_length := length', v_value := elements\<rparr>))))
    else rd_bind (read_scalar_value type) (\<lambda>s. rd_return (variant\<lparr>v_value := Scalar s\<rparr>)))"

section \<open>Encoding\<close>

definition write_scalar_value :: "mu_builtin_type \<Rightarrow> mu_scalar \<Rightarrow> wr" where
  "write_scalar_value type p =
    (if type \<noteq> scalar_type p then wr_return MU_STATUS_BAD_ENCODINGERROR
     else case p of
       V_b x \<Rightarrow> mu_binary_write_boolean x
     | V_sb x \<Rightarrow> mu_binary_write_sbyte x
     | V_by x \<Rightarrow> mu_binary_write_byte x
     | V_i16 x \<Rightarrow> mu_binary_write_int16 x
     | V_ui16 x \<Rightarrow> mu_binary_write_uint16 x
     | V_i32 x \<Rightarrow> mu_binary_write_int32 x
     | V_ui32 x \<Rightarrow> mu_binary_write_uint32 x
     | V_i64 x \<Rightarrow> mu_binary_write_int64 x
     | V_ui64 x \<Rightarrow> mu_binary_write_uint64 x
     | V_f x \<Rightarrow> mu_binary_write_float x
     | V_d x \<Rightarrow> mu_binary_write_double x
     | V_str x \<Rightarrow> mu_binary_write_string x
     | V_bytestr x \<Rightarrow> mu_binary_write_bytestring x
     | V_dt x \<Rightarrow> mu_binary_write_int64 x
     | V_status x \<Rightarrow> mu_binary_write_statuscode x
     | V_nodeid x \<Rightarrow> mu_binary_write_nodeid x
     | V_qualified_name q \<Rightarrow>
         wr_seq (mu_binary_write_uint16 (qn_namespace_index q)) (mu_binary_write_string (qn_name q))
     | V_localized_text lt \<Rightarrow>
         (let lt_mask = localized_text_mask lt in
          wr_seq (mu_binary_write_byte lt_mask)
          (wr_seq (if lt_mask AND 0x01 \<noteq> 0 then mu_binary_write_string (lt_locale lt) else wr_return MU_STATUS_GOOD)
            (if lt_mask AND 0x02 \<noteq> 0 then mu_binary_write_string (lt_text lt) else wr_return MU_STATUS_GOOD))))"

definition write_variant_elements :: "mu_variant \<Rightarrow> wr" where
  "write_variant_elements variant =
    (if sint (v_array_length variant) < 0 \<or> v_value variant = NoValue then wr_return MU_STATUS_GOOD
     else if v_type variant = MU_TYPE_EXTENSIONOBJECT then
       (case v_value variant of
          Arguments args \<Rightarrow> wr_list mu_binary_write_argument (take (unat (v_array_length variant)) args)
        | _ \<Rightarrow> wr_return MU_STATUS_BAD_ENCODINGERROR)
     else if element_size (v_type variant) = 0 then wr_return MU_STATUS_BAD_ENCODINGERROR
     else (case v_value variant of
          Elements xs \<Rightarrow> wr_list (write_scalar_value (v_type variant)) (take (unat (v_array_length variant)) xs)
        | _ \<Rightarrow> wr_return MU_STATUS_BAD_ENCODINGERROR))"

definition mu_binary_write_variant :: "mu_variant \<Rightarrow> wr" where
  "mu_binary_write_variant variant =
    wr_seq (mu_binary_write_byte (if v_is_array variant then v_type variant OR 0x80 else v_type variant))
      (if v_type variant = MU_TYPE_NULL then wr_return MU_STATUS_GOOD
       else if v_is_array variant then
         wr_seq (mu_binary_write_int32 (v_array_length variant)) (write_variant_elements variant)
       else if v_type variant = MU_TYPE_EXTENSIONOBJECT \<and> v_ext_encoding_id variant = 861 then
         (case v_value variant of
            DiagnosticsSummary d \<Rightarrow> mu_binary_write_server_diagnostics_summary d
          | _ \<Rightarrow> wr_return MU_STATUS_BAD_INTERNALERROR)
       else if v_type variant = MU_TYPE_EXTENSIONOBJECT \<and> v_ext_encoding_id variant = 864 then
         (case v_value variant of
            ServerStatus s \<Rightarrow> mu_binary_write_server_status s
          | _ \<Rightarrow> wr_return MU_STATUS_BAD_INTERNALERROR)
       else (case v_value variant of
            Scalar s \<Rightarrow> write_scalar_value (v_type variant) s
          | _ \<Rightarrow> wr_return MU_STATUS_BAD_ENCODINGERROR))"

section \<open>DataValue\<close>

text \<open>
  Fields whose presence bit is clear keep what the caller's structure held, so the decoder takes
  that structure.
\<close>

definition rd_when :: "bool \<Rightarrow> 'a rd \<Rightarrow> 'a \<Rightarrow> 'a rd" where
  "rd_when present m old = (if present then m else rd_return old)"

definition mu_binary_read_datavalue :: "(nat \<Rightarrow> bool) \<Rightarrow> mu_datavalue \<Rightarrow> mu_datavalue rd" where
  "mu_binary_read_datavalue calloc_ok value =
    rd_bind mu_binary_read_byte (\<lambda>encoding_mask.
    let value = value\<lparr>has_value := encoding_mask AND 0x01 \<noteq> 0, has_status := encoding_mask AND 0x02 \<noteq> 0,
          has_source_timestamp := encoding_mask AND 0x04 \<noteq> 0, has_server_timestamp := encoding_mask AND 0x08 \<noteq> 0,
          has_source_picoseconds := encoding_mask AND 0x10 \<noteq> 0, has_server_picoseconds := encoding_mask AND 0x20 \<noteq> 0\<rparr>
    in
    rd_bind (rd_when (has_value value) (mu_binary_read_variant calloc_ok (dv_value value)) (dv_value value)) (\<lambda>v.
    rd_bind (rd_when (has_status value) mu_binary_read_statuscode (dv_status value)) (\<lambda>st.
    rd_bind (rd_when (has_source_timestamp value) mu_binary_read_int64 (dv_source_timestamp value)) (\<lambda>sts.
    rd_bind (rd_when (has_source_picoseconds value) mu_binary_read_uint16 (dv_source_picoseconds value)) (\<lambda>sps.
    rd_bind (rd_when (has_server_timestamp value) mu_binary_read_int64 (dv_server_timestamp value)) (\<lambda>vts.
    rd_bind (rd_when (has_server_picoseconds value) mu_binary_read_uint16 (dv_server_picoseconds value)) (\<lambda>vps.
    rd_return (value\<lparr>dv_value := v, dv_status := st, dv_source_timestamp := sts, dv_source_picoseconds := sps,
      dv_server_timestamp := vts, dv_server_picoseconds := vps\<rparr>))))))))"

definition datavalue_mask :: "mu_datavalue \<Rightarrow> opcua_byte_t" where
  "datavalue_mask value =
    (let m = 0;
         m = (if has_value value then m OR 0x01 else m);
         m = (if has_status value then m OR 0x02 else m);
         m = (if has_source_timestamp value then m OR 0x04 else m);
         m = (if has_source_picoseconds value then m OR 0x10 else m);
         m = (if has_server_timestamp value then m OR 0x08 else m)
     in if has_server_picoseconds value then m OR 0x20 else m)"

definition wr_when :: "bool \<Rightarrow> wr \<Rightarrow> wr" where
  "wr_when present m = (if present then m else wr_return MU_STATUS_GOOD)"

definition mu_binary_write_datavalue :: "mu_datavalue \<Rightarrow> wr" where
  "mu_binary_write_datavalue value =
    wr_seq (mu_binary_write_byte (datavalue_mask value))
    (wr_seq (wr_when (has_value value) (mu_binary_write_variant (dv_value value)))
    (wr_seq (wr_when (has_status value) (mu_binary_write_statuscode (dv_status value)))
    (wr_seq (wr_when (has_source_timestamp value) (mu_binary_write_int64 (dv_source_timestamp value)))
    (wr_seq (wr_when (has_source_picoseconds value) (mu_binary_write_uint16 (dv_source_picoseconds value)))
    (wr_seq (wr_when (has_server_timestamp value) (mu_binary_write_int64 (dv_server_timestamp value)))
      (wr_when (has_server_picoseconds value) (mu_binary_write_uint16 (dv_server_picoseconds value))))))))"

section \<open>Assignability\<close>

definition mu_variant_type_is_assignable :: "mu_builtin_type \<Rightarrow> mu_builtin_type \<Rightarrow> opcua_boolean_t" where
  "mu_variant_type_is_assignable expected actual = (if expected = actual then True else False)"

section \<open>Contracts\<close>

lemma reader_op_comp [decoder_intros]: "(\<And>x. reader_op (f (g x))) \<Longrightarrow> reader_op ((f \<circ> g) x)"
  by simp

lemma reader_op_qualified_name [decoder_intros]: "reader_op mu_binary_read_qualified_name"
  by (rule decoder_reader_op [OF decoder_qualified_name])

lemma reader_op_scalar [decoder_intros]: "reader_op (read_scalar_value t)"
  unfolding read_scalar_value_def by (intro decoder_intros) simp_all

lemma reader_op_elements [decoder_intros]: "reader_op (read_variant_elements c t n)"
proof -
  let ?P = "\<lambda>r. rd_position r > rd_length r \<or> unat n > rd_length r - rd_position r"
  let ?m = "rd_bind (rd_list (unat n) (read_scalar_value t)) (rd_return \<circ> Elements)"
  have m: "reader_op ?m" by (intro decoder_intros)
  have "reader_op (\<lambda>r. if ?P r then rd_error MU_STATUS_BAD_DECODINGERROR r
      else if unat n > SIZE_MAX div k then rd_error MU_STATUS_BAD_DECODINGERROR r
      else if \<not> c (unat n * k) then rd_error MU_STATUS_BAD_OUTOFMEMORY r else ?m r)" for k
  proof (unfold_locales, goal_cases)
    case (7 r1 r2)
    then have "?P r1 = ?P r2" by (simp add: same_view_def)
    with 7 show ?case using reader_op.view [OF m 7] by (simp add: rd_error_def)
  qed (auto simp: rd_error_def reader_op.keeps_buffer [OF m] reader_op.keeps_length [OF m]
       reader_op.advances [OF m] reader_op.in_bounds [OF m] reader_op.keeps_status [OF m]
       reader_op.error_code [OF m] split: if_splits)
  then show ?thesis
    unfolding read_variant_elements_def Let_def
    by (auto intro!: decoder_intros)
qed

lemma reader_op_dimensions [decoder_intros]: "reader_op skip_variant_dimensions"
  unfolding skip_variant_dimensions_def by (intro decoder_intros) simp

lemma decoder_variant [decoder_intros]: "decoder (mu_binary_read_variant c old)"
  unfolding mu_binary_read_variant_def Let_def by (intro decoder_intros) simp_all

lemma reader_op_when [decoder_intros]: "reader_op m \<Longrightarrow> reader_op (rd_when b m old)"
  by (simp add: rd_when_def reader_op_return)

lemma decoder_datavalue [decoder_intros]: "decoder (mu_binary_read_datavalue c old)"
  unfolding mu_binary_read_datavalue_def Let_def
  by (intro decoder_intros decoder_reader_op [OF decoder_variant])

interpretation variant_reader: decoder "mu_binary_read_variant c old" for c old
  by (rule decoder_variant)

interpretation datavalue_reader: decoder "mu_binary_read_datavalue c old" for c old
  by (rule decoder_datavalue)

lemma encoder_scalar [encoder_intros]: "encoder (write_scalar_value t p)"
  unfolding write_scalar_value_def Let_def
  by (cases p) (auto intro!: encoder_intros)

lemma writer_op_wrapped [encoder_intros]:
  "writer_op (mu_binary_write_argument a)" "writer_op (mu_binary_write_server_diagnostics_summary d)"
  "writer_op (mu_binary_write_server_status s)" "writer_op (write_scalar_value t p)"
  by (intro encoder_writer_op encoder_intros)+

lemma writer_op_elements [encoder_intros]: "writer_op (write_variant_elements v)"
  unfolding write_variant_elements_def by (cases "v_value v") (auto intro!: encoder_intros)

lemma encoder_variant [encoder_intros]: "encoder (mu_binary_write_variant v)"
  unfolding mu_binary_write_variant_def by (cases "v_value v") (auto intro!: encoder_intros)

lemma writer_op_when [encoder_intros]: "writer_op m \<Longrightarrow> writer_op (wr_when b m)"
  by (simp add: wr_when_def writer_op_return)

lemma encoder_datavalue [encoder_intros]: "encoder (mu_binary_write_datavalue v)"
  unfolding mu_binary_write_datavalue_def
  by (intro encoder_intros encoder_writer_op [OF encoder_variant])

interpretation variant_writer: encoder "mu_binary_write_variant v" for v
  by (rule encoder_variant)

interpretation datavalue_writer: encoder "mu_binary_write_datavalue v" for v
  by (rule encoder_datavalue)

section \<open>Byte layouts\<close>

fun valid_scalar :: "mu_scalar \<Rightarrow> bool" where
  "valid_scalar (V_str s) = valid_string s"
| "valid_scalar (V_bytestr s) = valid_string s"
| "valid_scalar (V_nodeid n) = valid_nodeid n"
| "valid_scalar (V_qualified_name q) = valid_qualified_name q"
| "valid_scalar (V_localized_text t) = valid_localized_text t"
| "valid_scalar _ = True"

fun enc_scalar :: "mu_scalar \<Rightarrow> bytes" where
  "enc_scalar (V_b x) = [if x then 1 else 0]"
| "enc_scalar (V_sb x) = [x]"
| "enc_scalar (V_by x) = [x]"
| "enc_scalar (V_i16 x) = mu_binary_le_put_u16 x"
| "enc_scalar (V_ui16 x) = mu_binary_le_put_u16 x"
| "enc_scalar (V_i32 x) = mu_binary_le_put_u32 x"
| "enc_scalar (V_ui32 x) = mu_binary_le_put_u32 x"
| "enc_scalar (V_i64 x) = mu_binary_le_put_u64 x"
| "enc_scalar (V_ui64 x) = mu_binary_le_put_u64 x"
| "enc_scalar (V_f x) = mu_binary_le_put_u32 x"
| "enc_scalar (V_d x) = mu_binary_le_put_u64 x"
| "enc_scalar (V_str x) = enc_string x"
| "enc_scalar (V_bytestr x) = enc_string x"
| "enc_scalar (V_dt x) = mu_binary_le_put_u64 x"
| "enc_scalar (V_status x) = mu_binary_le_put_u32 x"
| "enc_scalar (V_nodeid x) = enc_nodeid x"
| "enc_scalar (V_qualified_name x) = enc_qualified_name x"
| "enc_scalar (V_localized_text x) = enc_localized_text x"

lemma encodes_scalar:
  "valid_scalar v \<Longrightarrow> scalar_type v = t \<Longrightarrow> encodes (write_scalar_value t v) (enc_scalar v)"
proof (cases v)
  case (V_localized_text lt)
  assume "valid_scalar v" "scalar_type v = t"
  then show ?thesis
    using V_localized_text encodes_localized_text [of lt]
    by (simp add: write_scalar_value_def mu_binary_write_localized_text_def)
next
  case (V_qualified_name q)
  assume "valid_scalar v" "scalar_type v = t"
  then show ?thesis
    using V_qualified_name qualified_name_codec.encodes [of q]
    by (simp add: write_scalar_value_def mu_binary_write_qualified_name_def)
next
  case (V_b b)
  assume "valid_scalar v" "scalar_type v = t"
  then show ?thesis
    using V_b encodes_primitives(1) [of b] by (simp add: write_scalar_value_def)
qed (auto simp: write_scalar_value_def mu_binary_write_bytestring_def
  intro: encodes_primitives encodes_string encodes_nodeid)

lemma reads_bind_comp: "reads m bs x \<Longrightarrow> reads (rd_bind m (rd_return \<circ> f)) bs (f x)"
  using reads_bind_return [of m bs x "f x" f] by (simp add: comp_def)

lemma reads_scalar:
  "valid_scalar v \<Longrightarrow> scalar_type v = t \<Longrightarrow> reads (read_scalar_value t) (enc_scalar v) v"
proof (cases v)
  case (V_localized_text lt)
  assume v: "valid_scalar v" "scalar_type v = t"
  have "reads (rd_bind mu_binary_read_localized_text (rd_return \<circ> V_localized_text)) (enc_scalar v) v"
    using reads_bind_comp [OF reads_localized_text] v V_localized_text by simp
  then show ?thesis
    using v V_localized_text
    by (simp add: read_scalar_value_def mu_binary_read_localized_text_def rd_bind_assoc rd_bind_return)
next
  case (V_b b)
  assume "valid_scalar v" "scalar_type v = t"
  then show ?thesis
    using V_b reads_bind_comp [OF reads_primitives(1) [of b], of V_b]
    by (cases b) (simp_all add: read_scalar_value_def)
qed (auto simp: read_scalar_value_def mu_binary_read_bytestring_def
  intro!: reads_bind_comp reads_primitives reads_float reads_string reads_nodeid qualified_name_codec.reads)

interpretation scalar_codec: codec "write_scalar_value t" "read_scalar_value t" enc_scalar
  "\<lambda>v. valid_scalar v \<and> scalar_type v = t" for t
  by unfold_locales (auto intro: encodes_scalar reads_scalar)

text \<open>
  The variants the decoder can return and the encoder can print back: a null variant, a scalar, an
  array of scalars of one type, or an array without elements.
\<close>

definition valid_variant :: "(nat \<Rightarrow> bool) \<Rightarrow> mu_variant \<Rightarrow> mu_variant \<Rightarrow> bool" where
  "valid_variant c old v \<longleftrightarrow>
     v_ext_encoding_id v = v_ext_encoding_id old \<and>
     (case v_value v of
        NoValue \<Rightarrow>
          (v_type v = MU_TYPE_NULL \<and> \<not> v_is_array v \<and> v_array_length v = 0) \<or>
          (v_type v \<noteq> MU_TYPE_NULL \<and> v_type v AND 0x3F = v_type v \<and> v_is_array v \<and>
           (v_array_length v = 0 \<or> v_array_length v = -1))
      | Scalar s \<Rightarrow>
          \<not> v_is_array v \<and> v_array_length v = 0 \<and> v_type v = scalar_type s \<and> valid_scalar s
      | Elements xs \<Rightarrow>
          v_is_array v \<and> xs \<noteq> [] \<and> length xs \<le> MU_INTERN_MAX_ARRAY_LENGTH \<and>
          v_array_length v = of_nat (length xs) \<and> c (length xs * element_size (v_type v)) \<and>
          list_all (\<lambda>x. scalar_type x = v_type v \<and> valid_scalar x) xs
      | _ \<Rightarrow> False)"

definition enc_variant :: "mu_variant \<Rightarrow> bytes" where
  "enc_variant v =
     [if v_is_array v then v_type v OR 0x80 else v_type v] @
     (if v_type v = MU_TYPE_NULL then []
      else if v_is_array v then mu_binary_le_put_u32 (v_array_length v) @
        (case v_value v of Elements xs \<Rightarrow> concat (map enc_scalar xs) | _ \<Rightarrow> [])
      else (case v_value v of Scalar s \<Rightarrow> enc_scalar s | _ \<Rightarrow> []))"

lemma scalar_type_bits [simp]:
  "scalar_type s \<noteq> 0" "scalar_type s AND 0x3F = scalar_type s" "scalar_type s AND 0x40 = 0"
  "scalar_type s AND 0x80 = 0" "scalar_type s \<noteq> 0x16"
  by (cases s; simp)+

lemma element_size_scalar [simp]:
  "0 < element_size (scalar_type s)" "element_size (scalar_type s) \<le> 28"
  "element_size (scalar_type s) \<noteq> 0"
  by (cases s; simp add: element_size_def)+

lemma array_mask_facts:
  assumes "t AND 0x3F = (t :: 8 word)"
  shows "(t OR 0x80) AND 0x3F = t" "(t OR 0x80) AND 0x80 \<noteq> 0" "(t OR 0x80) AND 0x40 = 0"
proof -
  have *: "t AND k = t AND (0x3F AND k)" for k
    by (metis assms and.assoc)
  from * [of "0x40"] * [of "0x80"] have "t AND 0x40 = 0" "t AND 0x80 = 0"
    by simp_all
  then show "(t OR 0x80) AND 0x3F = t" "(t OR 0x80) AND 0x80 \<noteq> 0" "(t OR 0x80) AND 0x40 = 0"
    by (simp_all only: word_ao_dist assms) simp_all
qed

lemma encodes_variant:
  assumes v: "valid_variant c old v"
  shows "encodes (mu_binary_write_variant v) (enc_variant v)"
  unfolding mu_binary_write_variant_def enc_variant_def
proof (rule encodes_seq [OF encodes_primitives(3)], goal_cases)
  case 1
  show ?case
  proof (cases "v_value v")
    case NoValue
    then have "v_type v = 0 \<or> v_is_array v" "write_variant_elements v = wr_return MU_STATUS_GOOD"
      using v by (auto simp: valid_variant_def write_variant_elements_def)
    then show ?thesis
      using NoValue encodes_seq [OF encodes_primitives(6) encodes_Nil] by (auto simp: encodes_Nil)
  next
    case (Scalar s)
    then have "v_type v = scalar_type s" "\<not> v_is_array v" "valid_scalar s"
      using v by (simp_all add: valid_variant_def)
    with Scalar show ?thesis by (simp add: encodes_scalar)
  next
    case (Elements xs)
    then have xs: "xs \<noteq> []" "length xs \<le> 8192" "v_is_array v" "v_array_length v = of_nat (length xs)"
      "\<And>x. x \<in> set xs \<Longrightarrow> scalar_type x = v_type v \<and> valid_scalar x"
      using v by (simp_all add: valid_variant_def list_all_iff)
    then have t: "v_type v = scalar_type (hd xs)" by simp
    have "write_variant_elements v = wr_list (write_scalar_value (v_type v)) xs"
      using Elements xs(2,4) by (simp add: write_variant_elements_def int32_of_nat t)
    moreover have "encodes (wr_list (write_scalar_value (v_type v)) xs) (concat (map enc_scalar xs))"
      using xs(5) by (intro scalar_codec.list_encodes) simp
    ultimately show ?thesis
      using Elements xs(3) by (simp add: t encodes_seq encodes_primitives)
  qed (use v in \<open>simp_all add: valid_variant_def\<close>)
qed

lemma enc_scalar_nonempty: "1 \<le> length (enc_scalar s)"
  by (cases s) (simp_all add: enc_string_def enc_nodeid_def enc_qualified_name_def enc_localized_text_def)

lemma length_concat_enc_scalar: "length xs \<le> length (concat (map enc_scalar xs))"
proof (induction xs)
  case (Cons x xs)
  then show ?case using enc_scalar_nonempty [of x] by simp
qed simp

lemma reads_elements:
  assumes "xs \<noteq> []" "length xs \<le> MU_INTERN_MAX_ARRAY_LENGTH" "c (length xs * element_size t)"
    and "\<And>x. x \<in> set xs \<Longrightarrow> scalar_type x = t \<and> valid_scalar x"
  shows "reads (read_variant_elements c t (of_nat (length xs))) (concat (map enc_scalar xs)) (Elements xs)"
proof -
  have t: "t = scalar_type (hd xs)" using assms(1,4) by simp
  have m: "reads (rd_bind (rd_list (length xs) (read_scalar_value t)) (rd_return \<circ> Elements))
     (concat (map enc_scalar xs)) (Elements xs)"
    using assms(4) by (intro reads_bind_comp scalar_codec.list_reads) auto
  have "8192 * element_size t \<le> 8192 * 28"
    using element_size_scalar(2) [of "hd xs"] by (simp add: t)
  then have "8192 * element_size t \<le> SIZE_MAX"
    by (simp add: SIZE_MAX_def)
  moreover have pos: "0 < element_size t" by (simp add: t)
  ultimately have "length xs \<le> SIZE_MAX div element_size t"
    using assms(2) by (simp add: less_eq_div_iff_mult_less_eq) (meson mult_le_mono1 order_trans)
  then show ?thesis
    using m assms(1-3) pos length_concat_enc_scalar [of xs]
    unfolding reads_def read_variant_elements_def Let_def
    by (auto simp: int32_of_nat)
qed

lemma reads_variant_null:
  "reads (mu_binary_read_variant c old) [0]
    (old\<lparr>v_type := 0, v_is_array := False, v_array_length := 0, v_value := NoValue\<rparr>)"
  unfolding mu_binary_read_variant_def
  by (rule reads_bind_Nil [OF reads_primitives(3)]) (simp add: reads_return)

lemma reads_variant_scalar:
  assumes "valid_scalar s"
  shows "reads (mu_binary_read_variant c old) ([scalar_type s] @ enc_scalar s)
    (old\<lparr>v_type := scalar_type s, v_is_array := False, v_array_length := 0, v_value := Scalar s\<rparr>)"
  unfolding mu_binary_read_variant_def
proof (rule reads_bind [OF reads_primitives(3)], simp add: Let_def, rule reads_bind_return)
  show "reads (read_scalar_value (scalar_type s)) (enc_scalar s) s"
    using assms by (rule reads_scalar) simp
qed simp

lemma reads_variant_array:
  assumes "t AND 0x3F = t" "t \<noteq> 0" "-1 \<le> sint n" "sint n \<le> int MU_INTERN_MAX_ARRAY_LENGTH"
    and e: "reads (read_variant_elements c t n) bs e"
  shows "reads (mu_binary_read_variant c old) ([t OR 0x80] @ mu_binary_le_put_u32 n @ bs)
    (old\<lparr>v_type := t, v_is_array := True, v_array_length := n, v_value := e\<rparr>)"
  unfolding mu_binary_read_variant_def Let_def
  apply (rule reads_bind [OF reads_primitives(3)])
  apply (simp only: array_mask_facts [OF assms(1)] assms(2) if_False if_True not_True_eq_False simp_thms)
  apply (rule reads_bind [OF reads_primitives(6)])
  using assms(3,4) apply (simp add: rd_bind_return)
  apply (rule reads_bind_return [OF e])
  apply simp
  done

lemma reads_variant:
  assumes v: "valid_variant c old v"
  shows "reads (mu_binary_read_variant c old) (enc_variant v) v"
proof (cases "v_value v")
  case NoValue
  show ?thesis
  proof (cases "v_type v = 0")
    case True
    then have "old\<lparr>v_type := 0, v_is_array := False, v_array_length := 0, v_value := NoValue\<rparr> = v"
      using v NoValue by (cases v; cases old) (simp add: valid_variant_def)
    then show ?thesis
      using reads_variant_null [of c old] True v NoValue by (simp add: enc_variant_def valid_variant_def)
  next
    case False
    then have v': "old\<lparr>v_type := v_type v, v_is_array := True, v_array_length := v_array_length v, v_value := NoValue\<rparr> = v"
      "v_type v AND 0x3F = v_type v" "v_is_array v" "v_array_length v = 0 \<or> v_array_length v = -1"
      using v NoValue by (cases v; cases old, auto simp: valid_variant_def)+
    have "reads (read_variant_elements c (v_type v) (v_array_length v)) [] NoValue"
      using v'(4) by (auto simp: read_variant_elements_def reads_return)
    from reads_variant_array [OF v'(2) False _ _ this, of old] show ?thesis
      using v'(1,3,4) False NoValue by (auto simp: enc_variant_def)
  qed
next
  case (Scalar s)
  then have "old\<lparr>v_type := scalar_type s, v_is_array := False, v_array_length := 0, v_value := Scalar s\<rparr> = v" "v_type v = scalar_type s" "\<not> v_is_array v"
    "valid_scalar s"
    using v by (cases v; cases old, simp add: valid_variant_def)+
  then show ?thesis
    using reads_variant_scalar [of s c old] Scalar by (simp add: enc_variant_def)
next
  case (Elements xs)
  then have xs: "xs \<noteq> []" "length xs \<le> 8192" "v_is_array v" "v_array_length v = of_nat (length xs)"
    "\<And>x. x \<in> set xs \<Longrightarrow> scalar_type x = v_type v \<and> valid_scalar x"
    "c (length xs * element_size (v_type v))"
    "old\<lparr>v_type := v_type v, v_is_array := True, v_array_length := of_nat (length xs), v_value := Elements xs\<rparr> = v"
    using v by (cases v; cases old, auto simp: valid_variant_def list_all_iff)+
  have t: "v_type v = scalar_type (hd xs)" using xs(1,5) by simp
  have "reads (read_variant_elements c (v_type v) (of_nat (length xs))) (concat (map enc_scalar xs)) (Elements xs)"
    using xs(1,2,5,6) by (intro reads_elements) auto
  from reads_variant_array [OF _ _ _ _ this, of old] show ?thesis
    using xs(2-4,7) Elements t by (simp add: enc_variant_def int32_of_nat)
qed (use v in \<open>simp_all add: valid_variant_def\<close>)

interpretation variant_codec: codec mu_binary_write_variant "mu_binary_read_variant c old" enc_variant
  "valid_variant c old" for c old
  by unfold_locales (auto intro: encodes_variant reads_variant)

definition valid_datavalue :: "(nat \<Rightarrow> bool) \<Rightarrow> mu_datavalue \<Rightarrow> mu_datavalue \<Rightarrow> bool" where
  "valid_datavalue c old v \<longleftrightarrow>
     (if has_value v then valid_variant c (dv_value old) (dv_value v) else dv_value v = dv_value old) \<and>
     (has_status v \<or> dv_status v = dv_status old) \<and>
     (has_source_timestamp v \<or> dv_source_timestamp v = dv_source_timestamp old) \<and>
     (has_source_picoseconds v \<or> dv_source_picoseconds v = dv_source_picoseconds old) \<and>
     (has_server_timestamp v \<or> dv_server_timestamp v = dv_server_timestamp old) \<and>
     (has_server_picoseconds v \<or> dv_server_picoseconds v = dv_server_picoseconds old)"

definition enc_datavalue :: "mu_datavalue \<Rightarrow> bytes" where
  "enc_datavalue v =
     [datavalue_mask v] @
     (if has_value v then enc_variant (dv_value v) else []) @
     (if has_status v then mu_binary_le_put_u32 (dv_status v) else []) @
     (if has_source_timestamp v then mu_binary_le_put_u64 (dv_source_timestamp v) else []) @
     (if has_source_picoseconds v then mu_binary_le_put_u16 (dv_source_picoseconds v) else []) @
     (if has_server_timestamp v then mu_binary_le_put_u64 (dv_server_timestamp v) else []) @
     (if has_server_picoseconds v then mu_binary_le_put_u16 (dv_server_picoseconds v) else [])"

lemma datavalue_mask_bits:
  "datavalue_mask v AND 0x01 \<noteq> 0 \<longleftrightarrow> has_value v"
  "datavalue_mask v AND 0x02 \<noteq> 0 \<longleftrightarrow> has_status v"
  "datavalue_mask v AND 0x04 \<noteq> 0 \<longleftrightarrow> has_source_timestamp v"
  "datavalue_mask v AND 0x08 \<noteq> 0 \<longleftrightarrow> has_server_timestamp v"
  "datavalue_mask v AND 0x10 \<noteq> 0 \<longleftrightarrow> has_source_picoseconds v"
  "datavalue_mask v AND 0x20 \<noteq> 0 \<longleftrightarrow> has_server_picoseconds v"
  by (simp_all add: datavalue_mask_def Let_def)

lemma encodes_when: "(b \<Longrightarrow> encodes m bs) \<Longrightarrow> encodes (wr_when b m) (if b then bs else [])"
  by (simp add: wr_when_def encodes_Nil)

lemma reads_when:
  "b = b' \<Longrightarrow> (b' \<Longrightarrow> reads m bs v) \<Longrightarrow> (\<not> b' \<Longrightarrow> old = v) \<Longrightarrow>
   reads (rd_when b m old) (if b' then bs else []) v"
  by (auto simp: rd_when_def reads_return)

lemma encodes_datavalue:
  assumes "valid_datavalue c old v"
  shows "encodes (mu_binary_write_datavalue v) (enc_datavalue v)"
proof -
  have "has_value v \<Longrightarrow> encodes (mu_binary_write_variant (dv_value v)) (enc_variant (dv_value v))"
    using assms encodes_variant by (auto simp: valid_datavalue_def)
  then show ?thesis
    unfolding mu_binary_write_datavalue_def enc_datavalue_def
    by (intro encodes_seq encodes_when encodes_primitives) simp_all
qed

lemma reads_datavalue:
  assumes v: "valid_datavalue c old v"
  shows "reads (mu_binary_read_datavalue c old) (enc_datavalue v) v"
  unfolding mu_binary_read_datavalue_def enc_datavalue_def
proof (rule reads_bind [OF reads_primitives(3)], goal_cases)
  case 1
  have variant: "has_value v \<Longrightarrow> reads (mu_binary_read_variant c (dv_value old)) (enc_variant (dv_value v)) (dv_value v)"
    using v reads_variant by (auto simp: valid_datavalue_def)
  show ?case
    unfolding Let_def datavalue_mask_bits
    apply (rule reads_bind [where x = "dv_value v"])
     apply (rule reads_when; use v variant in \<open>simp add: valid_datavalue_def\<close>)
    apply (rule reads_bind [where x = "dv_status v"])
     apply (rule reads_when; use v in \<open>simp add: valid_datavalue_def reads_float\<close>)
    apply (rule reads_bind [where x = "dv_source_timestamp v"])
     apply (rule reads_when; use v in \<open>simp add: valid_datavalue_def reads_primitives\<close>)
    apply (rule reads_bind [where x = "dv_source_picoseconds v"])
     apply (rule reads_when; use v in \<open>simp add: valid_datavalue_def reads_primitives\<close>)
    apply (rule reads_bind [where x = "dv_server_timestamp v"])
     apply (rule reads_when; use v in \<open>simp add: valid_datavalue_def reads_primitives\<close>)
    apply (rule reads_bind_return [where x = "dv_server_picoseconds v"])
     apply (rule reads_when; use v in \<open>simp add: valid_datavalue_def reads_primitives\<close>)
    apply simp
    done
qed

interpretation datavalue_codec: codec mu_binary_write_datavalue "mu_binary_read_datavalue c old" enc_datavalue
  "valid_datavalue c old" for c old
  by unfold_locales (auto intro: encodes_datavalue reads_datavalue)

section \<open>Main properties\<close>

text \<open>
  C1.  Round trip of Variants.  If the encoder accepts a well-formed variant on a sound writer, then
  the decoder, started where the encoder started and given exactly the bytes up to where the encoder
  stopped, returns the same variant and stops where the encoder stopped.
\<close>

theorem variant_roundtrip:
  assumes "valid_variant calloc_ok old v" "wf_writer w" "wr_status w = MU_STATUS_GOOD" "wr_buffer w \<noteq> None"
    and "mu_binary_write_variant v w = (MU_STATUS_GOOD, w')"
  shows "mu_binary_read_variant calloc_ok old
      \<lparr>rd_buffer = wr_buffer w', rd_length = wr_position w', rd_position = wr_position w, rd_status = MU_STATUS_GOOD\<rparr> =
    (Inr v, \<lparr>rd_buffer = wr_buffer w', rd_length = wr_position w', rd_position = wr_position w',
             rd_status = MU_STATUS_GOOD\<rparr>)"
  by (rule variant_codec.round_trip [OF assms])

definition sample_variant :: mu_variant where
  "sample_variant = \<lparr>v_type = MU_TYPE_UINT16, v_value = Elements [V_ui16 7, V_ui16 0xABCD], v_is_array = True,
     v_array_length = 2, v_ext_encoding_id = 0\<rparr>"

definition sample_old :: mu_variant where
  "sample_old = \<lparr>v_type = MU_TYPE_NULL, v_value = NoValue, v_is_array = False, v_array_length = 0,
     v_ext_encoding_id = 0\<rparr>"

lemma sample_variant_facts:
  "valid_variant (\<lambda>_. True) sample_old sample_variant"
  "enc_variant sample_variant = [0x85, 2, 0, 0, 0, 7, 0, 0xCD, 0xAB]"
  by (simp_all add: valid_variant_def sample_variant_def sample_old_def enc_variant_def
      mu_binary_le_put_u16_def mu_binary_le_put_u32_def)

lemma sample_variant_written:
  "mu_binary_write_variant sample_variant (mu_binary_writer_init (Some (replicate 9 0)) 9) =
    (MU_STATUS_GOOD, \<lparr>wr_buffer = Some [0x85, 2, 0, 0, 0, 7, 0, 0xCD, 0xAB], wr_length = 9, wr_position = 9,
      wr_status = MU_STATUS_GOOD\<rparr>)"
  using encodes_fits [OF encodes_variant [OF sample_variant_facts(1)],
    of "mu_binary_writer_init (Some (replicate 9 0)) 9" "replicate 9 0"]
  by (simp add: sample_variant_facts(2) mu_binary_writer_init_def wf_writer_def put_at_def)

theorem variant_roundtrip_witness:
  "mu_binary_read_variant (\<lambda>_. True) sample_old
      \<lparr>rd_buffer = Some [0x85, 2, 0, 0, 0, 7, 0, 0xCD, 0xAB], rd_length = 9, rd_position = 0, rd_status = MU_STATUS_GOOD\<rparr> =
    (Inr sample_variant, \<lparr>rd_buffer = Some [0x85, 2, 0, 0, 0, 7, 0, 0xCD, 0xAB], rd_length = 9, rd_position = 9,
             rd_status = MU_STATUS_GOOD\<rparr>)"
  using variant_roundtrip [OF sample_variant_facts(1) _ _ _ sample_variant_written]
  by (simp add: mu_binary_writer_init_def wf_writer_def)

text \<open>
  C2.  The decoder of DataValues never looks outside its buffer.  Two buffers that agree on the first
  \<open>rd_length\<close> bytes give the same result, the cursor only moves forward and never passes
  \<open>rd_length\<close>, and a reader whose sticky status is already bad is left untouched and reports an
  error.
\<close>

theorem datavalue_decoder_safe:
  assumes "take (rd_length r) b1 = take (rd_length r) b2" "rd_position r \<le> rd_length r"
    and "mu_binary_read_datavalue calloc_ok old (r\<lparr>rd_buffer := Some b1\<rparr>) = (x, r')"
  shows "fst (mu_binary_read_datavalue calloc_ok old (r\<lparr>rd_buffer := Some b2\<rparr>)) = x \<and>
    rd_position r \<le> rd_position r' \<and> rd_position r' \<le> rd_length r \<and> rd_buffer r' = Some b1 \<and>
    (rd_status r \<noteq> MU_STATUS_GOOD \<longrightarrow> (\<exists>e. x = Inl e \<and> e \<noteq> MU_STATUS_GOOD) \<and> r' = r\<lparr>rd_buffer := Some b1\<rparr>)"
  using datavalue_reader.ignores_outside [OF assms(1), of calloc_ok old] assms(2,3)
    datavalue_reader.result_in_bounds [OF assms(3)] datavalue_reader.keeps_buffer [of calloc_ok old "r\<lparr>rd_buffer := Some b1\<rparr>"]
    datavalue_reader.keeps_length [of calloc_ok old "r\<lparr>rd_buffer := Some b1\<rparr>"]
    datavalue_reader.sticky [of "r\<lparr>rd_buffer := Some b1\<rparr>" calloc_ok old]
    datavalue_reader.error_code [of calloc_ok old "r\<lparr>rd_buffer := Some b1\<rparr>"]
  by auto

definition sample_datavalue :: mu_datavalue where
  "sample_datavalue = \<lparr>dv_value = sample_old, dv_status = 0, dv_source_timestamp = 0, dv_source_picoseconds = 0,
     dv_server_timestamp = 0, dv_server_picoseconds = 0, has_value = False, has_status = False,
     has_source_timestamp = False, has_source_picoseconds = False, has_server_timestamp = False,
     has_server_picoseconds = False\<rparr>"

theorem datavalue_decoder_safe_witness:
  "fst (mu_binary_read_datavalue (\<lambda>_. True) sample_datavalue (mu_binary_reader_init (Some [0x00, 0xFF]) 1)) =
   fst (mu_binary_read_datavalue (\<lambda>_. True) sample_datavalue (mu_binary_reader_init (Some [0x00]) 1))"
  using datavalue_decoder_safe [of "mu_binary_reader_init None 1" "[0x00]" "[0x00, 0xFF]" "\<lambda>_. True" sample_datavalue]
  by (cases "mu_binary_read_datavalue (\<lambda>_. True) sample_datavalue (mu_binary_reader_init (Some [0x00]) 1)")
    (simp add: mu_binary_reader_init_def)

text \<open>
  C3.  The encoder of DataValues never writes outside its buffer.  Whatever the outcome, the bytes
  before the cursor and the bytes from the new cursor on (in particular everything at or behind
  \<open>wr_length\<close>) keep their contents, and the cursor stays within \<open>wr_length\<close>.
\<close>

theorem datavalue_encoder_safe:
  assumes "wf_writer w" "wr_buffer w = Some b" "mu_binary_write_datavalue v w = (st, w')"
  shows "\<exists>b'. wr_buffer w' = Some b' \<and> length b' = length b \<and> wr_position w \<le> wr_position w' \<and>
    wr_position w' \<le> wr_length w \<and> wr_length w' = wr_length w \<and>
    take (wr_position w) b' = take (wr_position w) b \<and> drop (wr_position w') b' = drop (wr_position w') b"
  using datavalue_writer.frame [OF assms(1), of v] assms(2,3)
  by (auto simp: wr_frame_def split: option.splits)

theorem datavalue_encoder_safe_witness:
  "\<exists>b'. wr_buffer (snd (mu_binary_write_datavalue sample_datavalue (mu_binary_writer_init (Some [1, 2, 3]) 2))) = Some b' \<and>
    length b' = 3"
proof -
  let ?w = "mu_binary_writer_init (Some [1, 2, 3 :: 8 word]) 2"
  have "wf_writer ?w" "wr_buffer ?w = Some [1, 2, 3]"
    by (simp_all add: mu_binary_writer_init_def wf_writer_def)
  from datavalue_encoder_safe [OF this prod.collapse [symmetric], of sample_datavalue] show ?thesis
    by auto
qed

text \<open>
  C4.  Round trip of DataValues.  The optional fields that are present travel through the encoding
  mask and come back; the absent ones keep what the receiving structure held.
\<close>

theorem datavalue_roundtrip:
  assumes "valid_datavalue calloc_ok old v" "wf_writer w" "wr_status w = MU_STATUS_GOOD" "wr_buffer w \<noteq> None"
    and "mu_binary_write_datavalue v w = (MU_STATUS_GOOD, w')"
  shows "mu_binary_read_datavalue calloc_ok old
      \<lparr>rd_buffer = wr_buffer w', rd_length = wr_position w', rd_position = wr_position w, rd_status = MU_STATUS_GOOD\<rparr> =
    (Inr v, \<lparr>rd_buffer = wr_buffer w', rd_length = wr_position w', rd_position = wr_position w',
             rd_status = MU_STATUS_GOOD\<rparr>)"
  by (rule datavalue_codec.round_trip [OF assms])

definition sample_datavalue2 :: mu_datavalue where
  "sample_datavalue2 = sample_datavalue\<lparr>has_status := True, dv_status := 0x80340000,
     has_server_picoseconds := True, dv_server_picoseconds := 9\<rparr>"

lemma sample_datavalue2_facts:
  "valid_datavalue (\<lambda>_. True) sample_datavalue sample_datavalue2"
  "enc_datavalue sample_datavalue2 = [0x22, 0, 0, 0x34, 0x80, 9, 0]"
  by (simp_all add: valid_datavalue_def enc_datavalue_def sample_datavalue2_def sample_datavalue_def
      datavalue_mask_def mu_binary_le_put_u16_def mu_binary_le_put_u32_def)

lemma sample_datavalue2_written:
  "mu_binary_write_datavalue sample_datavalue2 (mu_binary_writer_init (Some (replicate 7 0)) 7) =
    (MU_STATUS_GOOD, \<lparr>wr_buffer = Some [0x22, 0, 0, 0x34, 0x80, 9, 0], wr_length = 7, wr_position = 7,
      wr_status = MU_STATUS_GOOD\<rparr>)"
  using encodes_fits [OF encodes_datavalue [OF sample_datavalue2_facts(1)],
    of "mu_binary_writer_init (Some (replicate 7 0)) 7" "replicate 7 0"]
  by (simp add: sample_datavalue2_facts(2) mu_binary_writer_init_def wf_writer_def put_at_def)

theorem datavalue_roundtrip_witness:
  "fst (mu_binary_read_datavalue (\<lambda>_. True) sample_datavalue
      \<lparr>rd_buffer = Some [0x22, 0, 0, 0x34, 0x80, 9, 0], rd_length = 7, rd_position = 0, rd_status = MU_STATUS_GOOD\<rparr>) =
    Inr sample_datavalue2"
  using datavalue_roundtrip [OF sample_datavalue2_facts(1) _ _ _ sample_datavalue2_written]
  by (simp add: mu_binary_writer_init_def wf_writer_def)

end
