(* ===== verification/Mu_Monitored_Item.thy ===== *)
theory Mu_Monitored_Item
  imports Mu_Variants Mu_Session
begin

unbundle bit_operations_syntax

text \<open>
  One monitored item of a subscription: \<^verbatim>\<open>src/cu/core_2022_server/subscription/basic/subscription_monitor.c\<close>,
  the queue it reports from (also of \<^verbatim>\<open>deadband.c\<close>) and the fields ModifyMonitoredItems changes
  (\<^verbatim>\<open>monitored_items.c\<close>).

  The queue is a ring in a fixed array; the lemmas show that it implements a bounded list that drops its
  oldest or overwrites its newest entry when it is full, as long as its size is not changed.  Doubles
  are bit patterns; the arithmetic on them is a parameter.  The state of an aggregate is of any type with
  a zero, the value \<^verbatim>\<open>memset\<close> leaves.  The fields of an item for events and the storage of its string
  identifiers are left out, and of ModifyMonitoredItems only what it does to an item it accepts is modelled.
\<close>

section \<open>Data\<close>

abbreviation (input) MU_MONITORING_MODE_DISABLED :: opcua_byte_t where "MU_MONITORING_MODE_DISABLED \<equiv> 0"
abbreviation (input) MU_MONITORING_MODE_SAMPLING :: opcua_byte_t where "MU_MONITORING_MODE_SAMPLING \<equiv> 1"
abbreviation (input) MU_MONITORING_MODE_REPORTING :: opcua_byte_t where "MU_MONITORING_MODE_REPORTING \<equiv> 2"
abbreviation (input) MU_DATACHANGE_TRIGGER_STATUS :: opcua_byte_t where "MU_DATACHANGE_TRIGGER_STATUS \<equiv> 0"
abbreviation (input) MU_DEADBAND_TYPE_ABSOLUTE :: opcua_byte_t where "MU_DEADBAND_TYPE_ABSOLUTE \<equiv> 1"
abbreviation (input) MU_DEADBAND_TYPE_PERCENT :: opcua_byte_t where "MU_DEADBAND_TYPE_PERCENT \<equiv> 2"
abbreviation (input) MU_STATUSCODE_INFOTYPE_DATAVALUE_OVERFLOW :: opcua_statuscode_t where
  "MU_STATUSCODE_INFOTYPE_DATAVALUE_OVERFLOW \<equiv> 0x480"

record mu_queue_entry =
  qe_value :: mu_variant
  qe_status :: opcua_statuscode_t

record 'g mu_monitored_item =
  next_sample_ms :: opcua_uint64_t
  deadband_value :: opcua_double_t
  last_reported_numeric :: opcua_double_t
  deadband_span :: opcua_double_t
  aggregate_state :: 'g
  resolved_node :: "nat option"
  last_value :: mu_variant
  mi_node_id :: mu_nodeid
  monitored_item_id :: opcua_uint32_t
  mi_subscription_id :: opcua_uint32_t
  mi_client_handle :: opcua_uint32_t
  attribute_id :: opcua_uint32_t
  sampling_interval_ms :: opcua_uint32_t
  index_range_start :: opcua_int32_t
  index_range_end :: opcua_int32_t
  last_status :: opcua_statuscode_t
  queue_size :: opcua_uint32_t
  triggered_items :: "opcua_uint32_t list"
  queue :: "mu_queue_entry list"
  monitoring_mode :: opcua_byte_t
  trigger :: opcua_byte_t
  mi_timestamps_to_return :: opcua_byte_t
  mi_in_use :: bool
  mi_has_value :: bool
  pending :: bool
  semantics_changed :: bool
  deadband_type :: opcua_byte_t
  has_reported :: bool
  has_aggregate :: bool
  queue_head :: opcua_byte_t
  queue_tail :: opcua_byte_t
  queue_count :: opcua_byte_t
  discard_oldest :: bool
  queue_overflow :: bool
  triggered_count :: opcua_byte_t

text \<open>The arithmetic of doubles.\<close>

record double_ops =
  d_of_int :: "int \<Rightarrow> opcua_double_t"
  d_of_float :: "opcua_float_t \<Rightarrow> opcua_double_t"
  d_minus :: "opcua_double_t \<Rightarrow> opcua_double_t \<Rightarrow> opcua_double_t"
  d_neg :: "opcua_double_t \<Rightarrow> opcua_double_t"
  d_times :: "opcua_double_t \<Rightarrow> opcua_double_t \<Rightarrow> opcua_double_t"
  d_divide :: "opcua_double_t \<Rightarrow> opcua_double_t \<Rightarrow> opcua_double_t"
  d_less :: "opcua_double_t \<Rightarrow> opcua_double_t \<Rightarrow> bool"
  d_less_eq :: "opcua_double_t \<Rightarrow> opcua_double_t \<Rightarrow> bool"

section \<open>Changes\<close>

definition variant_scalar_equal :: "mu_variant \<Rightarrow> mu_variant \<Rightarrow> bool" where
  "variant_scalar_equal a b \<longleftrightarrow>
    v_type a = v_type b \<and> v_is_array a = v_is_array b \<and> \<not> v_is_array a \<and>
    (1 \<le> v_type a \<and> v_type a \<le> 11 \<or> v_type a = MU_TYPE_DATETIME) \<and> v_value a = v_value b"

definition variant_numeric_to_double :: "double_ops \<Rightarrow> mu_variant \<Rightarrow> opcua_double_t option" where
  "variant_numeric_to_double ops value =
    (if v_is_array value then None
     else (case v_value value of
       Scalar s \<Rightarrow>
         if scalar_type s \<noteq> v_type value then None
         else (case s of
             V_sb x \<Rightarrow> Some (d_of_int ops (sint x)) | V_by x \<Rightarrow> Some (d_of_int ops (uint x))
           | V_i16 x \<Rightarrow> Some (d_of_int ops (sint x)) | V_ui16 x \<Rightarrow> Some (d_of_int ops (uint x))
           | V_i32 x \<Rightarrow> Some (d_of_int ops (sint x)) | V_ui32 x \<Rightarrow> Some (d_of_int ops (uint x))
           | V_i64 x \<Rightarrow> Some (d_of_int ops (sint x)) | V_ui64 x \<Rightarrow> Some (d_of_int ops (uint x))
           | V_f x \<Rightarrow> Some (d_of_float ops x) | V_d x \<Rightarrow> Some x | _ \<Rightarrow> None)
     | _ \<Rightarrow> None))"

definition monitored_item_change_reportable ::
  "double_ops \<Rightarrow> 'g mu_monitored_item \<Rightarrow> mu_variant \<Rightarrow> opcua_statuscode_t \<Rightarrow> bool" where
  "monitored_item_change_reportable ops item cur status =
    (if \<not> has_reported item \<or> status \<noteq> last_status item then True
     else (case (variant_numeric_to_double ops cur, variant_numeric_to_double ops (last_value item)) of
       (Some numeric, Some _) \<Rightarrow>
         let diff = d_minus ops numeric (last_reported_numeric item);
             diff = (if d_less ops diff 0 then d_neg ops diff else diff) in
         if deadband_type item = MU_DEADBAND_TYPE_ABSOLUTE then d_less_eq ops (deadband_value item) diff
         else if deadband_type item = MU_DEADBAND_TYPE_PERCENT then
           d_less_eq ops (d_times ops (d_divide ops (deadband_value item) 0x4059000000000000) (deadband_span item)) diff
         else d_less ops 0 diff
     | _ \<Rightarrow> True))"

definition monitored_item_sample_changed :: "'g mu_monitored_item \<Rightarrow> mu_variant \<Rightarrow> opcua_statuscode_t \<Rightarrow> bool" where
  "monitored_item_sample_changed item cur status =
    (if trigger item = MU_DATACHANGE_TRIGGER_STATUS then status \<noteq> last_status item
     else status \<noteq> last_status item \<or> \<not> variant_scalar_equal cur (last_value item))"

definition monitored_item_record_reported :: "double_ops \<Rightarrow> mu_variant \<Rightarrow> 'g mu_monitored_item \<Rightarrow> 'g mu_monitored_item" where
  "monitored_item_record_reported ops cur item =
    (case variant_numeric_to_double ops cur of
       Some numeric \<Rightarrow> item\<lparr>last_reported_numeric := numeric, has_reported := True\<rparr>
     | None \<Rightarrow> item\<lparr>has_reported := True\<rparr>)"

section \<open>The queue\<close>

text \<open>\<^verbatim>\<open>MU_INTERN_MONITORED_QUEUE_DEPTH\<close> is the length of the array.\<close>

definition monitored_item_effective_queue_size :: "'g mu_monitored_item \<Rightarrow> opcua_uint32_t \<times> 'g mu_monitored_item" where
  "monitored_item_effective_queue_size item =
    (let n = queue_size item;
         n = (if n = 0 then 1 else n);
         n = (if unat n > length (queue item) then of_nat (length (queue item)) else n);
         item = item\<lparr>queue_size := n\<rparr>;
         item = (if unat (queue_head item) \<ge> unat n then item\<lparr>queue_head := 0\<rparr> else item);
         item = (if unat (queue_tail item) \<ge> unat n then item\<lparr>queue_tail := 0\<rparr> else item);
         item = (if unat (queue_count item) > unat n then item\<lparr>queue_count := ucast n\<rparr> else item)
     in (n, item))"

definition monitored_item_queue_next :: "opcua_byte_t \<Rightarrow> opcua_uint32_t \<Rightarrow> opcua_byte_t" where
  "monitored_item_queue_next index n = (let index = index + 1 in if unat index \<ge> unat n then 0 else index)"

definition monitored_item_queue_previous :: "opcua_byte_t \<Rightarrow> opcua_uint32_t \<Rightarrow> opcua_byte_t" where
  "monitored_item_queue_previous index n = (if index = 0 then ucast (n - 1) else index - 1)"

definition monitored_item_mark_overflow :: "opcua_byte_t \<Rightarrow> 'g mu_monitored_item \<Rightarrow> 'g mu_monitored_item" where
  "monitored_item_mark_overflow index item =
    (let e = queue item ! unat index in
     item\<lparr>queue := (queue item)[unat index := e\<lparr>qe_status := qe_status e OR MU_STATUSCODE_INFOTYPE_DATAVALUE_OVERFLOW\<rparr>],
          queue_overflow := True\<rparr>)"

text \<open>\<^verbatim>\<open>item->queue[i].value = *cur; item->queue[i].status = status\<close>\<close>

definition queue_store :: "opcua_byte_t \<Rightarrow> mu_variant \<Rightarrow> opcua_statuscode_t \<Rightarrow> 'g mu_monitored_item \<Rightarrow> 'g mu_monitored_item" where
  "queue_store i cur status item = item\<lparr>queue := (queue item)[unat i := \<lparr>qe_value = cur, qe_status = status\<rparr>]\<rparr>"

definition monitored_item_enqueue_report ::
  "double_ops \<Rightarrow> mu_variant \<Rightarrow> opcua_statuscode_t \<Rightarrow> 'g mu_monitored_item \<Rightarrow> 'g mu_monitored_item" where
  "monitored_item_enqueue_report ops cur status item =
    (case monitored_item_effective_queue_size item of (n, item) \<Rightarrow>
      let item =
        (if unat (queue_count item) < unat n then
           let item = queue_store (queue_tail item) cur status item in
           item\<lparr>queue_tail := monitored_item_queue_next (queue_tail item) n, queue_count := queue_count item + 1\<rparr>
         else if discard_oldest item then
           let item = item\<lparr>queue_head := monitored_item_queue_next (queue_head item) n\<rparr>;
               item = queue_store (queue_tail item) cur status item;
               item = item\<lparr>queue_tail := monitored_item_queue_next (queue_tail item) n\<rparr>
           in monitored_item_mark_overflow (queue_head item) item
         else
           let newest = monitored_item_queue_previous (queue_tail item) n in
           monitored_item_mark_overflow newest (queue_store newest cur status item));
          item = monitored_item_record_reported ops cur item
      in item\<lparr>pending := queue_count item > 0\<rparr>)"

definition monitored_item_prepare_pending_queue :: "double_ops \<Rightarrow> 'g mu_monitored_item \<Rightarrow> 'g mu_monitored_item" where
  "monitored_item_prepare_pending_queue ops item =
    (if pending item \<and> queue_count item = 0 \<and> mi_has_value item then
       monitored_item_enqueue_report ops (last_value item) (last_status item) item
     else if mi_has_value item \<and> \<not> has_reported item then monitored_item_record_reported ops (last_value item) item
     else item)"

text \<open>Removing reported entries; \<open>remaining\<close> is a signed count.\<close>

function drain_loop :: "opcua_uint32_t \<Rightarrow> opcua_int32_t \<Rightarrow> 'g mu_monitored_item \<Rightarrow> opcua_int32_t \<times> 'g mu_monitored_item" where
  "drain_loop n remaining item =
    (if queue_count item > 0 \<and> sint remaining > 0 then
       drain_loop n (remaining - 1)
         (item\<lparr>queue_head := monitored_item_queue_next (queue_head item) n, queue_count := queue_count item - 1\<rparr>)
     else (remaining, item))"
  by pat_completeness auto
termination
  by (relation "measure (\<lambda>(n, remaining, item). unat (queue_count item))") (auto simp: word_gt_0 unat_minus_one unat_gt_0 intro!: diff_less)

declare drain_loop.simps [simp del]

definition monitored_item_drain_reported_entries ::
  "opcua_int32_t \<Rightarrow> 'g mu_monitored_item \<Rightarrow> opcua_int32_t \<times> 'g mu_monitored_item" where
  "monitored_item_drain_reported_entries remaining item =
    (case monitored_item_effective_queue_size item of (n, item) \<Rightarrow>
     case drain_loop n remaining item of (remaining, item) \<Rightarrow>
       (remaining,
        if queue_count item = 0 then item\<lparr>queue_head := 0, queue_tail := 0, pending := False, queue_overflow := False\<rparr>
        else item\<lparr>pending := True\<rparr>))"

section \<open>The sampling timer\<close>

abbreviation (input) max_tick :: opcua_uint64_t where "max_tick \<equiv> - 1"

function elapsed_steps :: "opcua_uint64_t \<Rightarrow> opcua_uint64_t \<Rightarrow> opcua_uint64_t \<Rightarrow> opcua_uint64_t" where
  "elapsed_steps interval elapsed steps =
    (if elapsed \<ge> interval \<and> steps < 10 then elapsed_steps interval (elapsed - interval) (steps + 1) else steps)"
  by pat_completeness auto
termination
  by (relation "measure (\<lambda>(interval, elapsed, steps). 10 - unat steps)") (auto simp: word_less_nat_alt unat_word_ariths)

declare elapsed_steps.simps [simp del]

function tick_forward :: "opcua_uint64_t \<Rightarrow> opcua_uint64_t \<Rightarrow> opcua_uint64_t \<Rightarrow> opcua_uint64_t" where
  "tick_forward interval advance next =
    (if advance > 0 then
       if next > max_tick - interval then max_tick else tick_forward interval (advance - 1) (next + interval)
     else next)"
  by pat_completeness auto
termination
  by (relation "measure (\<lambda>(interval, advance, next). unat advance)") (auto simp: word_gt_0 unat_minus_one unat_gt_0 intro!: diff_less)

declare tick_forward.simps [simp del]

definition advance_sample_timer :: "opcua_uint64_t \<Rightarrow> 'g mu_monitored_item \<Rightarrow> 'g mu_monitored_item" where
  "advance_sample_timer now item =
    (let interval = (ucast (sampling_interval_ms item) :: opcua_uint64_t);
         interval = (if interval = 0 then 1 else interval);
         next = next_sample_ms item in
     if next \<le> now then
       let elapsed = now - next in
       if elapsed < interval then
         item\<lparr>next_sample_ms := (if next > max_tick - interval then max_tick else next + interval)\<rparr>
       else item\<lparr>next_sample_ms := tick_forward interval (elapsed_steps interval elapsed 0 + 1) next\<rparr>
     else item)"


section \<open>Intervals\<close>

abbreviation (input) MU_MIN_PUBLISHING_INTERVAL_MS :: opcua_uint32_t where "MU_MIN_PUBLISHING_INTERVAL_MS \<equiv> 50"
abbreviation (input) MU_MAX_PUBLISHING_INTERVAL_MS :: opcua_uint32_t where "MU_MAX_PUBLISHING_INTERVAL_MS \<equiv> 60000"
abbreviation (input) MU_PUBLISHING_INTERVAL_MIN_BITS :: opcua_uint64_t where "MU_PUBLISHING_INTERVAL_MIN_BITS \<equiv> 0x4049000000000000"
abbreviation (input) MU_PUBLISHING_INTERVAL_MAX_BITS :: opcua_uint64_t where "MU_PUBLISHING_INTERVAL_MAX_BITS \<equiv> 0x40ed4c0000000000"

text \<open>The conversion in range is that of session timeouts.\<close>

definition publishing_interval_bits_to_ms :: "opcua_uint64_t \<Rightarrow> opcua_uint32_t" where
  "publishing_interval_bits_to_ms bits =
    (if bits AND MU_DOUBLE_SIGN_BIT \<noteq> 0 \<or> bits < MU_PUBLISHING_INTERVAL_MIN_BITS then MU_MIN_PUBLISHING_INTERVAL_MS
     else if bits > MU_PUBLISHING_INTERVAL_MAX_BITS then MU_MAX_PUBLISHING_INTERVAL_MS
     else duration_bits_to_ms bits)"

function leading_exponent :: "opcua_uint32_t \<Rightarrow> opcua_uint32_t \<Rightarrow> opcua_uint32_t" where
  "leading_exponent value exponent =
    (if drop_bit 1 value \<noteq> 0 then leading_exponent (drop_bit 1 value) (exponent + 1) else exponent)"
  by pat_completeness auto
termination
proof (relation "measure (\<lambda>(value, exponent). unat value)")
  fix v e :: opcua_uint32_t
  assume "drop_bit 1 v \<noteq> 0"
  then have "0 < unat (v div 2)" by (simp add: unat_gt_0 drop_bit_eq_div)
  then show "((drop_bit 1 v, e + 1), v, e) \<in> measure (\<lambda>(value, exponent). unat value)"
    by (simp add: unat_div drop_bit_eq_div)
qed simp

declare leading_exponent.simps [simp del]

definition publishing_interval_ms_to_bits :: "opcua_uint32_t \<Rightarrow> opcua_uint64_t" where
  "publishing_interval_ms_to_bits interval_ms =
    (let exponent = leading_exponent interval_ms 0;
         leading = (push_bit (unat exponent) 1 :: opcua_uint64_t);
         fraction = push_bit (unat (52 - exponent)) (ucast interval_ms - leading)
     in push_bit 52 (ucast (exponent + 1023)) OR fraction)"

section \<open>Modifying an item\<close>

record item_filter =
  fi_trigger :: opcua_uint32_t
  fi_deadband_type :: opcua_uint32_t
  fi_deadband_value :: opcua_double_t
  fi_aggregate_type :: opcua_uint32_t
  fi_processing_interval :: opcua_double_t

definition clamp_queue_size :: "nat \<Rightarrow> opcua_uint32_t \<Rightarrow> opcua_uint32_t" where
  "clamp_queue_size depth n = (if n = 0 then 1 else if unat n > depth then of_nat depth else n)"

text \<open>\<open>restart\<close> sets the fields of the aggregate.\<close>

definition apply_modify_item_filters ::
  "(opcua_uint32_t \<Rightarrow> opcua_double_t \<Rightarrow> opcua_uint64_t \<Rightarrow> 'g \<Rightarrow> 'g) \<Rightarrow> opcua_uint64_t \<Rightarrow> bool \<Rightarrow> bool \<Rightarrow> item_filter \<Rightarrow>
   'g mu_monitored_item \<Rightarrow> 'g mu_monitored_item" where
  "apply_modify_item_filters restart now has_datachange_filter has_aggregate_filter f item =
    (let item = (if has_datachange_filter then
                   item\<lparr>trigger := ucast (fi_trigger f), deadband_type := ucast (fi_deadband_type f), deadband_value := fi_deadband_value f\<rparr>
                 else item)
     in if has_aggregate_filter then
          item\<lparr>has_aggregate := True,
               aggregate_state := restart (fi_aggregate_type f) (fi_processing_interval f) now (aggregate_state item)\<rparr>
        else item)"

text \<open>What ModifyMonitoredItems changes in an item, once its filter is accepted.\<close>

definition modify_item ::
  "(opcua_uint32_t \<Rightarrow> opcua_double_t \<Rightarrow> opcua_uint64_t \<Rightarrow> 'g \<Rightarrow> 'g) \<Rightarrow> opcua_uint64_t \<Rightarrow> opcua_uint32_t \<Rightarrow> opcua_uint64_t \<Rightarrow> opcua_uint32_t \<Rightarrow>
   bool \<Rightarrow> bool \<Rightarrow> item_filter \<Rightarrow> opcua_uint32_t \<Rightarrow> bool \<Rightarrow> 'g mu_monitored_item \<Rightarrow> 'g mu_monitored_item" where
  "modify_item restart now handle sampling_interval_bits timestamps_to_return has_datachange_filter has_aggregate_filter f
      requested_size oldest item =
    apply_modify_item_filters restart now has_datachange_filter has_aggregate_filter f
      (item\<lparr>sampling_interval_ms := publishing_interval_bits_to_ms sampling_interval_bits, mi_client_handle := handle,
            mi_timestamps_to_return := ucast timestamps_to_return,
            queue_size := clamp_queue_size (length (queue item)) requested_size, discard_oldest := oldest\<rparr>)"

section \<open>The ring is a bounded queue\<close>

definition ring_view :: "'a list \<Rightarrow> nat \<Rightarrow> nat \<Rightarrow> nat \<Rightarrow> 'a list" where
  "ring_view q n h c = map (\<lambda>i. q ! ((h + i) mod n)) [0..<c]"

lemma length_ring_view [simp]: "length (ring_view q n h c) = c"
  by (simp add: ring_view_def)

lemma ring_index_inj:
  assumes "i < n" "j < n" "(h + i) mod n = (h + j) mod (n::nat)"
  shows "i = j"
proof -
  have "\<not> x < y" if "(h + x) mod n = (h + y) mod n" "y < n" for x y
  proof
    assume xy: "x < y"
    then have "n dvd (h + y) - (h + x)" using mod_eq_dvd_iff_nat [of "h + x" "h + y" n] that(1) by simp
    then show False using nat_dvd_not_less [of "y - x" n] xy that(2) by simp
  qed
  then show ?thesis using assms by (metis linorder_neqE_nat)
qed

lemma ring_view_update:
  assumes "k < n" "c \<le> n" "n \<le> length q"
  shows "ring_view (q[(h + k) mod n := x]) n h c = (ring_view q n h c)[k := x]"
proof (rule nth_equalityI)
  fix i
  assume "i < length (ring_view (q[(h + k) mod n := x]) n h c)"
  then have i: "i < c" by simp
  have "(h + k) mod n < n" using assms(1) by simp
  then have b: "(h + k) mod n < length q" using assms(3) by (rule less_le_trans)
  show "ring_view (q[(h + k) mod n := x]) n h c ! i = (ring_view q n h c)[k := x] ! i"
  proof (cases "i = k")
    case False
    then have "(h + k) mod n \<noteq> (h + i) mod n" using ring_index_inj [of i n k h] i assms(1,2) by auto
    then show ?thesis using i False by (simp add: ring_view_def)
  qed (use i b in \<open>simp add: ring_view_def\<close>)
qed simp

lemma ring_view_Suc: "ring_view q n h (Suc c) = ring_view q n h c @ [q ! ((h + c) mod n)]"
  by (simp add: ring_view_def)

lemma ring_view_drop: "c = Suc c' \<Longrightarrow> ring_view q n (Suc h) c' = tl (ring_view q n h c)"
  by (simp add: ring_view_def upt_rec [of 0 "Suc c'"] map_Suc_upt [symmetric] comp_def del: upt_Suc)

lemma ring_view_mod [simp]: "ring_view q n (h mod n) c = ring_view q n h c"
  by (simp add: ring_view_def mod_add_left_eq)

text \<open>The entries of a queue, oldest first.\<close>

definition ring_entries :: "'g mu_monitored_item \<Rightarrow> mu_queue_entry list" where
  "ring_entries item = ring_view (queue item) (unat (queue_size item)) (unat (queue_head item)) (unat (queue_count item))"

definition ring_ok :: "'g mu_monitored_item \<Rightarrow> bool" where
  "ring_ok item \<longleftrightarrow>
    0 < unat (queue_size item) \<and> unat (queue_size item) \<le> length (queue item) \<and> length (queue item) < 256 \<and>
    unat (queue_head item) < unat (queue_size item) \<and> unat (queue_count item) \<le> unat (queue_size item) \<and>
    unat (queue_tail item) = (unat (queue_head item) + unat (queue_count item)) mod unat (queue_size item)"

definition overflowed :: "mu_queue_entry \<Rightarrow> mu_queue_entry" where
  "overflowed e = e\<lparr>qe_status := qe_status e OR MU_STATUSCODE_INFOTYPE_DATAVALUE_OVERFLOW\<rparr>"

text \<open>The specification: a list of at most \<open>n\<close> entries.\<close>

definition queue_add :: "nat \<Rightarrow> bool \<Rightarrow> mu_queue_entry \<Rightarrow> mu_queue_entry list \<Rightarrow> mu_queue_entry list" where
  "queue_add n oldest e es =
    (if length es < n then es @ [e]
     else if oldest then (case tl es @ [e] of x # xs \<Rightarrow> overflowed x # xs)
     else butlast es @ [overflowed e])"

lemma queue_next_mod:
  assumes "unat i < unat n" "unat n < 256"
  shows "unat (monitored_item_queue_next i n) = (unat i + 1) mod unat n"
proof -
  have "unat (i + 1) = unat i + 1" using assms unat_add_lem [of i 1] by simp
  moreover have "(unat i + 1) mod unat n = (if unat n \<le> unat i + 1 then 0 else unat i + 1)"
    using assms(1) by (cases "unat i + 1 = unat n") simp_all
  ultimately show ?thesis by (simp add: monitored_item_queue_next_def Let_def)
qed

lemma queue_previous_mod:
  assumes "unat i < unat n" "unat n < 256"
  shows "unat (monitored_item_queue_previous i n) = (unat i + (unat n - 1)) mod unat n"
proof (cases "i = 0")
  case True
  have n: "n \<noteq> 0" using assms by auto
  then have "unat (ucast (n - 1) :: 8 word) = unat n - 1"
    using assms(2) by (simp add: unsigned_ucast_eq unat_minus_one take_bit_nat_eq_self)
  then show ?thesis using assms True by (simp add: monitored_item_queue_previous_def)
next
  case False
  then have "0 < unat i" by (simp add: unat_gt_0)
  then have e: "unat i + (unat n - 1) = unat n + (unat i - 1)" using assms(1) by simp
  have "(unat i + (unat n - 1)) mod unat n = unat i - 1" unfolding e mod_add_self1 using assms(1) by (intro mod_less) simp
  then show ?thesis using False by (simp add: monitored_item_queue_previous_def unat_minus_one)
qed

lemma queue_size_same: "item\<lparr>queue_size := queue_size item\<rparr> = item"
  by (cases item) simp

lemma effective_queue_size_ok:
  assumes "ring_ok item"
  shows "monitored_item_effective_queue_size item = (queue_size item, item)"
proof -
  have "0 < unat (queue_size item)" "unat (queue_tail item) = (unat (queue_head item) + unat (queue_count item)) mod unat (queue_size item)"
    using assms by (auto simp: ring_ok_def)
  then have t: "\<not> unat (queue_size item) \<le> unat (queue_tail item)" by (simp only: not_le mod_less_divisor)
  have c: "queue_size item \<noteq> 0" using assms by (auto simp: ring_ok_def)
  have l: "\<not> length (queue item) < unat (queue_size item)" "\<not> unat (queue_size item) \<le> unat (queue_head item)"
    "\<not> unat (queue_size item) < unat (queue_count item)" using assms by (simp_all add: ring_ok_def)
  show ?thesis
    unfolding monitored_item_effective_queue_size_def Let_def by (simp only: t c l queue_size_same if_False)
qed

lemma record_reported_frame [simp]:
  "ring_ok (monitored_item_record_reported ops cur item) = ring_ok item"
  "ring_entries (monitored_item_record_reported ops cur item) = ring_entries item"
  "queue_size (monitored_item_record_reported ops cur item) = queue_size item"
  "queue_count (monitored_item_record_reported ops cur item) = queue_count item"
  by (simp_all add: monitored_item_record_reported_def ring_ok_def ring_entries_def split: option.split)

lemma pending_ring_frame [simp]:
  "ring_ok (item\<lparr>pending := b\<rparr>) = ring_ok item" "ring_entries (item\<lparr>pending := b\<rparr>) = ring_entries item"
  by (simp_all add: ring_ok_def ring_entries_def)

text \<open>What the three ways of storing do to the ring.\<close>

lemma enqueue_room:
  assumes "ring_ok item" "unat (queue_count item) < unat (queue_size item)"
    and "item' = (queue_store (queue_tail item) cur status item)\<lparr>
      queue_tail := monitored_item_queue_next (queue_tail item) (queue_size item), queue_count := queue_count item + 1\<rparr>"
  shows "ring_ok item'" "ring_entries item' = ring_entries item @ [\<lparr>qe_value = cur, qe_status = status\<rparr>]"
    "queue_size item' = queue_size item" "discard_oldest item' = discard_oldest item"
proof -
  let ?n = "unat (queue_size item)" and ?h = "unat (queue_head item)" and ?c = "unat (queue_count item)"
  have n: "0 < ?n" "?n \<le> length (queue item)" "?n < 256" "?h < ?n" and t: "unat (queue_tail item) = (?h + ?c) mod ?n" and l: "length (queue item) < 256"
    using assms(1) by (auto simp: ring_ok_def)
  have c: "unat (queue_count item + 1) = ?c + 1" using assms(2) n(3) unat_add_lem [of "queue_count item" 1] by simp
  have t': "unat (monitored_item_queue_next (queue_tail item) (queue_size item)) = (?h + (?c + 1)) mod ?n"
    using queue_next_mod [of "queue_tail item" "queue_size item"] t n by (simp add: mod_Suc_eq)
  show "ring_ok item'" using n l c t' assms(2) by (simp add: ring_ok_def assms(3) queue_store_def)
  show "ring_entries item' = ring_entries item @ [\<lparr>qe_value = cur, qe_status = status\<rparr>]"
  proof -
    let ?e = "\<lparr>qe_value = cur, qe_status = status\<rparr>" and ?i = "(?h + ?c) mod ?n"
    have "?i < ?n" using n(1) by simp
    then have "?i < length (queue item)" using n(2) by (rule less_le_trans)
    moreover have "ring_view ((queue item)[?i := ?e]) ?n ?h ?c = ring_view (queue item) ?n ?h ?c"
      using ring_view_update [OF assms(2) _ n(2), of ?c ?h ?e] assms(2) by (simp add: list_update_beyond)
    ultimately show ?thesis using c by (simp add: ring_entries_def assms(3) queue_store_def t ring_view_Suc)
  qed
  show "queue_size item' = queue_size item" "discard_oldest item' = discard_oldest item" by (simp_all add: assms(3) queue_store_def)
qed

lemma enqueue_oldest:
  assumes "ring_ok item" "unat (queue_count item) = unat (queue_size item)"
    and "h = monitored_item_queue_next (queue_head item) (queue_size item)"
    and "item' = monitored_item_mark_overflow h ((queue_store (queue_tail item) cur status (item\<lparr>queue_head := h\<rparr>))\<lparr>
      queue_tail := monitored_item_queue_next (queue_tail item) (queue_size item)\<rparr>)"
  shows "ring_ok item'" "ring_entries item' = queue_add (unat (queue_size item)) True \<lparr>qe_value = cur, qe_status = status\<rparr> (ring_entries item)"
    "queue_size item' = queue_size item" "queue_count item' = queue_count item"
proof -
  let ?n = "unat (queue_size item)" and ?h = "unat (queue_head item)" and ?e = "\<lparr>qe_value = cur, qe_status = status\<rparr>"
  obtain m where m: "?n = Suc m" using assms(1) by (cases ?n) (auto simp: ring_ok_def)
  have n: "?n \<le> length (queue item)" "?n < 256" "?h < ?n" "length (queue item) < 256" and t: "unat (queue_tail item) = ?h"
    using assms(1,2) by (auto simp: ring_ok_def)
  have h: "unat h = Suc ?h mod ?n" using queue_next_mod [of "queue_head item" "queue_size item"] n by (simp add: assms(3))
  have t': "unat (monitored_item_queue_next (queue_tail item) (queue_size item)) = Suc ?h mod ?n"
    using queue_next_mod [of "queue_tail item" "queue_size item"] n t by simp
  let ?q = "(queue item)[?h := ?e]"
  have e: "Suc ?h + m = ?h + ?n" using m by simp
  have hh: "(Suc ?h + m) mod ?n = ?h" unfolding e mod_add_self2 by (rule mod_less [OF n(3)])
  have v: "ring_view ?q ?n (Suc ?h) ?n = (ring_view (queue item) ?n (Suc ?h) ?n)[m := ?e]"
    using ring_view_update [of m ?n ?n "queue item" "Suc ?h" ?e] n(1) m hh by simp
  have v': "ring_view (queue item) ?n (Suc ?h) ?n = tl (ring_entries item) @ [queue item ! ?h]"
    using ring_view_drop [of ?n m "queue item" ?n ?h] ring_view_Suc [of "queue item" ?n "Suc ?h" m] m hh assms(2)
    by (simp add: ring_entries_def)
  have w: "ring_view ?q ?n (Suc ?h) ?n = tl (ring_entries item) @ [?e]"
    unfolding v v' using m assms(2) by (simp add: ring_entries_def list_update_append)
  have first: "?q ! (Suc ?h mod ?n) = (tl (ring_entries item) @ [?e]) ! 0"
    unfolding w [symmetric] using m by (simp add: ring_view_def del: upt_Suc)
  have "ring_view (?q[Suc ?h mod ?n := overflowed (?q ! (Suc ?h mod ?n))]) ?n (Suc ?h) ?n =
      (tl (ring_entries item) @ [?e])[0 := overflowed ((tl (ring_entries item) @ [?e]) ! 0)]"
    using ring_view_update [of 0 ?n ?n ?q "Suc ?h"] n(1) m first w by simp
  also have "\<dots> = queue_add ?n True ?e (ring_entries item)"
    using assms(2) by (cases "tl (ring_entries item)") (simp_all add: queue_add_def ring_entries_def)
  finally show "ring_entries item' = queue_add ?n True ?e (ring_entries item)"
    by (simp add: ring_entries_def assms(2,4) monitored_item_mark_overflow_def queue_store_def Let_def h t overflowed_def)
  show "ring_ok item'" using n h t' assms(2)
    by (simp add: ring_ok_def assms(4) monitored_item_mark_overflow_def queue_store_def Let_def)
  show "queue_size item' = queue_size item" "queue_count item' = queue_count item"
    by (simp_all add: assms(4) monitored_item_mark_overflow_def queue_store_def Let_def)
qed

lemma enqueue_newest:
  assumes "ring_ok item" "unat (queue_count item) = unat (queue_size item)"
    and "i = monitored_item_queue_previous (queue_tail item) (queue_size item)"
    and "item' = monitored_item_mark_overflow i (queue_store i cur status item)"
  shows "ring_ok item'" "ring_entries item' = queue_add (unat (queue_size item)) False \<lparr>qe_value = cur, qe_status = status\<rparr> (ring_entries item)"
    "queue_size item' = queue_size item" "queue_count item' = queue_count item"
proof -
  let ?n = "unat (queue_size item)" and ?h = "unat (queue_head item)" and ?e = "\<lparr>qe_value = cur, qe_status = status\<rparr>"
  obtain m where m: "?n = Suc m" using assms(1) by (cases ?n) (auto simp: ring_ok_def)
  have n: "?n \<le> length (queue item)" "?n < 256" "?h < ?n" "length (queue item) < 256" and t: "unat (queue_tail item) = ?h"
    using assms(1,2) by (auto simp: ring_ok_def)
  have i: "unat i = (?h + m) mod ?n" using queue_previous_mod [of "queue_tail item" "queue_size item"] n t m by (simp add: assms(3))
  have "(?h + m) mod ?n < ?n" using m by simp
  then have il: "(?h + m) mod ?n < length (queue item)" using n(1) by (rule less_le_trans)
  have "ring_view ((queue item)[(?h + m) mod ?n := overflowed ?e]) ?n ?h ?n = (ring_entries item)[m := overflowed ?e]"
    using ring_view_update [of m ?n ?n "queue item" ?h "overflowed ?e"] n(1) m assms(2) by (simp add: ring_entries_def)
  also have "\<dots> = queue_add ?n False ?e (ring_entries item)"
    using m assms(2) by (simp add: queue_add_def ring_entries_def ring_view_Suc list_update_append)
  finally show "ring_entries item' = queue_add ?n False ?e (ring_entries item)"
    using il by (simp add: ring_entries_def assms(2,4) monitored_item_mark_overflow_def queue_store_def Let_def i overflowed_def)
  show "ring_ok item'" using n m t assms(1,2)
    by (simp add: ring_ok_def assms(4) monitored_item_mark_overflow_def queue_store_def Let_def)
  show "queue_size item' = queue_size item" "queue_count item' = queue_count item"
    by (simp_all add: assms(4) monitored_item_mark_overflow_def queue_store_def Let_def)
qed

lemma enqueue_report_ring:
  assumes "ring_ok item"
  shows "ring_ok (monitored_item_enqueue_report ops cur status item)"
    "ring_entries (monitored_item_enqueue_report ops cur status item) =
       queue_add (unat (queue_size item)) (discard_oldest item) \<lparr>qe_value = cur, qe_status = status\<rparr> (ring_entries item)"
proof -
  note e = effective_queue_size_ok [OF assms]
  have le: "unat (queue_count item) \<le> unat (queue_size item)" using assms by (simp add: ring_ok_def)
  have len: "length (ring_entries item) = unat (queue_count item)" by (simp add: ring_entries_def)
  consider (room) "unat (queue_count item) < unat (queue_size item)"
    | (oldest) "unat (queue_count item) = unat (queue_size item)" "discard_oldest item"
    | (newest) "unat (queue_count item) = unat (queue_size item)" "\<not> discard_oldest item" using le by linarith
  then have "ring_ok (monitored_item_enqueue_report ops cur status item) \<and>
    ring_entries (monitored_item_enqueue_report ops cur status item) =
       queue_add (unat (queue_size item)) (discard_oldest item) \<lparr>qe_value = cur, qe_status = status\<rparr> (ring_entries item)"
  proof cases
    case room
    from enqueue_room [OF assms room refl, of cur status] show ?thesis
      using room len by (simp add: monitored_item_enqueue_report_def e Let_def queue_store_def queue_add_def)
  next
    case oldest
    from enqueue_oldest [OF assms oldest(1) refl refl, of cur status] show ?thesis
      using oldest by (simp add: monitored_item_enqueue_report_def e Let_def queue_store_def monitored_item_mark_overflow_def)
  next
    case newest
    from enqueue_newest [OF assms newest(1) refl refl, of cur status] show ?thesis
      using newest by (simp add: monitored_item_enqueue_report_def e Let_def)
  qed
  then show "ring_ok (monitored_item_enqueue_report ops cur status item)"
    "ring_entries (monitored_item_enqueue_report ops cur status item) =
       queue_add (unat (queue_size item)) (discard_oldest item) \<lparr>qe_value = cur, qe_status = status\<rparr> (ring_entries item)" by simp_all
qed

text \<open>Draining removes the oldest entries and counts them.\<close>

lemma drain_step:
  assumes "ring_ok item" "queue_count item > 0"
    and "item' = item\<lparr>queue_head := monitored_item_queue_next (queue_head item) (queue_size item), queue_count := queue_count item - 1\<rparr>"
  shows "ring_ok item'" "ring_entries item' = tl (ring_entries item)"
proof -
  let ?n = "unat (queue_size item)" and ?h = "unat (queue_head item)"
  obtain c where c: "unat (queue_count item) = Suc c" using assms(2) by (cases "unat (queue_count item)") (auto simp: unat_eq_zero)
  have c': "unat (queue_count item - 1) = c" using assms(2) c by (simp add: unat_minus_one word_gt_0)
  have n: "?n < 256" "?h < ?n" "unat (queue_tail item) = (?h + Suc c) mod ?n" using assms(1) c by (auto simp: ring_ok_def)
  have h: "unat (monitored_item_queue_next (queue_head item) (queue_size item)) = Suc ?h mod ?n"
    using queue_next_mod [OF n(2,1)] by simp
  have "(Suc ?h mod ?n + c) mod ?n = (?h + Suc c) mod ?n" by (simp add: mod_add_left_eq)
  then show "ring_ok item'" using assms(1) c c' n h by (simp add: ring_ok_def assms(3))
  show "ring_entries item' = tl (ring_entries item)"
    using ring_view_drop [OF c, of "queue item" ?n ?h] c' h by (simp add: ring_entries_def assms(3))
qed

lemma drain_loop_ring:
  assumes "ring_ok item" "0 \<le> sint remaining" "drain_loop (queue_size item) remaining item = (remaining', item')"
  shows "ring_ok item' \<and> queue_size item' = queue_size item \<and>
    ring_entries item' = drop (unat remaining) (ring_entries item) \<and>
    unat remaining' = unat remaining - length (ring_entries item)"
  using assms
proof (induction "queue_size item" remaining item arbitrary: remaining' item' rule: drain_loop.induct)
  case (1 remaining item)
  have s: "sint remaining = int (unat remaining)" by (rule sint_nonneg32 [OF "1.prems"(2)])
  show ?case
  proof (cases "queue_count item > 0 \<and> sint remaining > 0")
    case True
    define i where "i = item\<lparr>queue_head := monitored_item_queue_next (queue_head item) (queue_size item), queue_count := queue_count item - 1\<rparr>"
    have i: "ring_ok i" "ring_entries i = tl (ring_entries item)" "queue_size i = queue_size item"
      using drain_step [OF "1.prems"(1) _ i_def] True by (simp_all add: i_def)
    have "0 < unat remaining" using True s by linarith
    then have r0: "remaining \<noteq> 0" "0 < unat remaining" by auto
    then have r: "unat (remaining - 1) = unat remaining - 1" by (simp add: unat_minus_one)
    have "unat (remaining - 1) < 2 ^ 31" using r sint_neg_iff [of remaining] "1.prems"(2) by simp
    then have nn: "0 \<le> sint (remaining - 1)" using sint_neg_iff [of "remaining - 1"] by simp
    have lp: "drain_loop (queue_size i) (remaining - 1) i = (remaining', item')"
      using "1.prems"(3) True unfolding i(3) i_def by (subst (asm) drain_loop.simps) simp
    note ih = "1.hyps" [of remaining', OF True, folded i_def, OF i(3) [symmetric] i(1) nn lp]
    have e: "0 < length (ring_entries item)" using True by (simp add: ring_entries_def word_gt_0 unat_gt_0)
    show ?thesis using ih i r r0 e by (simp add: drop_Suc [symmetric] tl_drop [symmetric] flip: drop_Suc)
  next
    case False
    then have "remaining' = remaining" "item' = item" using "1.prems"(3) by (auto simp: drain_loop.simps)
    moreover have "ring_entries item = [] \<or> unat remaining = 0"
      using False s by (auto simp: ring_entries_def ring_view_def word_gt_0 simp del: of_nat_unat)
    ultimately show ?thesis using "1.prems"(1) by auto
  qed
qed

lemma drain_ring:
  assumes "ring_ok item" "0 \<le> sint remaining" "monitored_item_drain_reported_entries remaining item = (remaining', item')"
  shows "ring_ok item'" "ring_entries item' = drop (unat remaining) (ring_entries item)"
    "unat remaining' = unat remaining - length (ring_entries item)" "pending item' \<longleftrightarrow> ring_entries item' \<noteq> []"
proof -
  obtain i where l: "drain_loop (queue_size item) remaining item = (remaining', i)" and
    i: "item' = (if queue_count i = 0 then i\<lparr>queue_head := 0, queue_tail := 0, pending := False, queue_overflow := False\<rparr>
        else i\<lparr>pending := True\<rparr>)"
    using assms(3) by (auto simp: monitored_item_drain_reported_entries_def effective_queue_size_ok [OF assms(1)] split: prod.splits)
  note d = drain_loop_ring [OF assms(1,2) l]
  have e: "ring_entries i = [] \<longleftrightarrow> queue_count i = 0" by (auto simp: ring_entries_def ring_view_def unat_eq_zero)
  show "ring_ok item'" using d by (auto simp: i ring_ok_def)
  show "ring_entries item' = drop (unat remaining) (ring_entries item)" "pending item' \<longleftrightarrow> ring_entries item' \<noteq> []"
    using d e by (auto simp: i ring_entries_def ring_view_def)
  show "unat remaining' = unat remaining - length (ring_entries item)" using d by simp
qed

section \<open>Intervals on the wire\<close>

lemma leading_exponent_log:
  assumes "2 ^ e \<le> unat v" "unat v < 2 ^ Suc e"
  shows "leading_exponent v k = k + of_nat e"
  using assms
proof (induction e arbitrary: v k)
  case 0
  then have "unat v = 1" by simp
  then have "v = 1" by (simp add: word_unat_eq_iff)
  then show ?case by (subst leading_exponent.simps) simp
next
  case (Suc e)
  have h: "unat (drop_bit 1 v) = unat v div 2" by (simp add: drop_bit_eq_div unat_div)
  have "2 ^ e \<le> unat (drop_bit 1 v)" "unat (drop_bit 1 v) < 2 ^ Suc e" using Suc.prems unfolding h by simp_all
  moreover from this(1) have "drop_bit 1 v \<noteq> 0" by (metis le_zero_eq power_not_zero unsigned_0 zero_neq_numeral)
  ultimately show ?case using Suc.IH [of "drop_bit 1 v" "k + 1"] by (subst leading_exponent.simps) (simp add: add.assoc add.commute)
qed

lemma interval_bits:
  assumes "2 ^ e \<le> unat ms" "unat ms < 2 ^ Suc e" "e \<le> 20"
  shows "unat (publishing_interval_ms_to_bits ms) = (e + 1023) * 2 ^ 52 + (unat ms - 2 ^ e) * 2 ^ (52 - e)"
proof -
  have ex: "leading_exponent ms 0 = of_nat e" using leading_exponent_log [OF assms(1,2), of 0] by simp
  have ue: "unat (of_nat e :: 32 word) = e" using assms(3) by (intro unat_of_nat32) simp
  have f: "(unat ms - 2 ^ e) * 2 ^ (52 - e) < 2 ^ 52"
  proof -
    have "(unat ms - 2 ^ e) * 2 ^ (52 - e) < 2 ^ e * 2 ^ (52 - e)" using assms(1,2) by simp
    also have "\<dots> = 2 ^ 52" using assms(3) by (simp flip: power_add)
    finally show ?thesis .
  qed
  define hi where "hi = (push_bit 52 (ucast (of_nat e + 1023 :: 32 word)) :: 64 word)"
  define lo where "lo = (push_bit (52 - e) (ucast ms - push_bit e 1) :: 64 word)"
  have "unat (of_nat e + 1023 :: 32 word) = e + 1023" using assms(3) ue by (simp add: unat_word_ariths)
  then have uc: "unat (ucast (of_nat e + 1023 :: 32 word) :: 64 word) = e + 1023"
    using assms(3) unfolding unsigned_ucast_eq by (intro trans [OF take_bit_nat_eq_self]) simp_all
  have hi: "unat hi = (e + 1023) * 2 ^ 52"
    unfolding hi_def unsigned_push_bit_eq uc using assms(3) by (simp add: push_bit_eq_mult take_bit_nat_eq_self)
  have ld: "unat (push_bit e 1 :: 64 word) = 2 ^ e"
    unfolding unsigned_push_bit_eq using assms(3) by (simp add: push_bit_eq_mult take_bit_nat_eq_self)
  have um: "unat (ucast ms :: 64 word) = unat ms"
    unfolding unsigned_ucast_eq using unsigned_less [of ms, where ?'a = nat] by (simp add: take_bit_nat_eq_self)
  have "unat (ucast ms - push_bit e 1 :: 64 word) = unat ms - 2 ^ e"
    using assms(1) ld um by (subst unat_sub) (simp_all add: word_le_nat_alt)
  then have lo: "unat lo = (unat ms - 2 ^ e) * 2 ^ (52 - e)"
    unfolding lo_def unsigned_push_bit_eq using f by (simp add: push_bit_eq_mult take_bit_nat_eq_self)
  have sh: "unat (52 - of_nat e :: 32 word) = 52 - e" using ue assms(3) by (subst unat_sub) (simp_all add: word_le_nat_alt)
  have "take_bit 52 lo = lo" using lo f by (simp add: take_bit_eq_mod word_unat_eq_iff unat_mod)
  then have "hi OR lo = hi + lo"
    by (intro disjunctive_add [symmetric]) (metis bit_take_bit_iff hi_def bit_push_bit_iff not_le)
  moreover have "unat (hi + lo) = unat hi + unat lo"
  proof -
    have "unat hi + unat lo < 2 ^ 64" using hi lo f assms(3) by simp
    then show ?thesis using unat_add_lem [of hi lo] by simp
  qed
  ultimately show ?thesis
    unfolding publishing_interval_ms_to_bits_def Let_def ex ue sh using hi lo by (simp only: hi_def lo_def)
qed

lemma sign_bit_clear:
  assumes "unat (b :: opcua_uint64_t) < 2 ^ 63"
  shows "b AND MU_DOUBLE_SIGN_BIT = 0"
proof -
  have "b div 2 ^ 63 = 0" using assms by (simp add: word_unat_eq_iff unat_div)
  then have "\<not> bit b 63" by (simp add: bit_iff_odd)
  then have "b AND 2 ^ 63 = 0" by (intro bit_eqI) (unfold bit_and_iff bit_exp_iff bit_0_eq, auto)
  then show ?thesis by simp
qed

lemma interval_exponent:
  assumes "50 \<le> unat (ms :: 32 word)" "unat ms \<le> 60000"
  obtains e where "2 ^ e \<le> unat ms" "unat ms < 2 ^ Suc e" "5 \<le> e" "e \<le> 15"
proof -
  consider "unat ms < 64" | "64 \<le> unat ms" "unat ms < 128" | "128 \<le> unat ms" "unat ms < 256" | "256 \<le> unat ms" "unat ms < 512"
    | "512 \<le> unat ms" "unat ms < 1024" | "1024 \<le> unat ms" "unat ms < 2048" | "2048 \<le> unat ms" "unat ms < 4096"
    | "4096 \<le> unat ms" "unat ms < 8192" | "8192 \<le> unat ms" "unat ms < 16384" | "16384 \<le> unat ms" "unat ms < 32768" | "32768 \<le> unat ms"
    by linarith
  then show ?thesis
    using assms that [of 5] that [of 6] that [of 7] that [of 8] that [of 9] that [of 10] that [of 11] that [of 12] that [of 13] that [of 14] that [of 15]
    by cases simp_all
qed


lemma drain_loop_frame: "drain_loop n remaining item = (r, item') \<Longrightarrow> discard_oldest item' = discard_oldest item"
proof (induction n remaining item rule: drain_loop.induct)
  case (1 n remaining item)
  then show ?case by (subst (asm) (2) drain_loop.simps) (auto split: if_splits)
qed

lemma queue_kept:
  assumes "ring_ok item"
  shows "queue_size (monitored_item_enqueue_report ops cur status item) = queue_size item"
    "discard_oldest (monitored_item_enqueue_report ops cur status item) = discard_oldest item"
    "0 \<le> sint r \<Longrightarrow> queue_size (snd (monitored_item_drain_reported_entries r item)) = queue_size item"
    "discard_oldest (snd (monitored_item_drain_reported_entries r item)) = discard_oldest item"
proof -
  note e = effective_queue_size_ok [OF assms]
  show "queue_size (monitored_item_enqueue_report ops cur status item) = queue_size item"
    "discard_oldest (monitored_item_enqueue_report ops cur status item) = discard_oldest item"
    by (simp_all add: monitored_item_enqueue_report_def e Let_def queue_store_def monitored_item_mark_overflow_def
        monitored_item_record_reported_def split: option.split)
  obtain r' i where l: "drain_loop (queue_size item) r item = (r', i)" by fastforce
  show "discard_oldest (snd (monitored_item_drain_reported_entries r item)) = discard_oldest item"
    using drain_loop_frame [OF l] by (simp add: monitored_item_drain_reported_entries_def e l)
  show "queue_size (snd (monitored_item_drain_reported_entries r item)) = queue_size item" if "0 \<le> sint r"
    using drain_loop_ring [OF assms that l] by (simp add: monitored_item_drain_reported_entries_def e l)
qed

section \<open>Runs of the queue\<close>

text \<open>What happens to a queue between two changes of its size.\<close>

datatype queue_op = Sampled mu_variant opcua_statuscode_t | Reported opcua_int32_t

fun queue_run :: "double_ops \<Rightarrow> 'g mu_monitored_item \<Rightarrow> queue_op list \<Rightarrow> 'g mu_monitored_item" where
  "queue_run d item [] = item"
| "queue_run d item (Sampled v s # ops) = queue_run d (monitored_item_enqueue_report d v s item) ops"
| "queue_run d item (Reported r # ops) = queue_run d (snd (monitored_item_drain_reported_entries r item)) ops"

fun list_run :: "nat \<Rightarrow> bool \<Rightarrow> mu_queue_entry list \<Rightarrow> queue_op list \<Rightarrow> mu_queue_entry list" where
  "list_run n oldest es [] = es"
| "list_run n oldest es (Sampled v s # ops) = list_run n oldest (queue_add n oldest \<lparr>qe_value = v, qe_status = s\<rparr> es) ops"
| "list_run n oldest es (Reported r # ops) = list_run n oldest (drop (unat r) es) ops"

lemma ring_entries_bounded: "ring_ok item \<Longrightarrow> length (ring_entries item) \<le> unat (queue_size item)"
  by (simp add: ring_ok_def ring_entries_def)

lemma queue_run_ring:
  assumes "ring_ok item" "\<forall>r. Reported r \<in> set ops \<longrightarrow> 0 \<le> sint r"
  shows "ring_ok (queue_run d item ops) \<and> queue_size (queue_run d item ops) = queue_size item \<and>
    ring_entries (queue_run d item ops) = list_run (unat (queue_size item)) (discard_oldest item) (ring_entries item) ops"
  using assms
proof (induction d item ops rule: queue_run.induct)
  case (2 d item v s ops)
  then show ?case using enqueue_report_ring [OF "2.prems"(1)] queue_kept(1,2) [OF "2.prems"(1)] by simp
next
  case (3 d item r ops)
  have r: "0 \<le> sint r" using "3.prems"(2) by simp
  obtain r' i where d: "monitored_item_drain_reported_entries r item = (r', i)" by fastforce
  show ?case using "3.IH" "3.prems" drain_ring [OF "3.prems"(1) r d] queue_kept(3,4) [OF "3.prems"(1), of r] r by (simp add: d)
qed simp

section \<open>Properties\<close>

text \<open>
  C38.  The sample queue.  Whatever values are sampled and whatever numbers of them are reported, in any
  order, the ring of an item behaves as a list of at most \<open>queue_size\<close> entries: a sample is appended; when
  the list is full the oldest entry is dropped and the next one marked as overflowed, or the newest is
  replaced by the marked sample, as \<open>discard_oldest\<close> says; reporting removes the oldest entries.
\<close>

theorem sample_queue_refines_list:
  assumes "ring_ok item" "\<forall>r. Reported r \<in> set ops \<longrightarrow> 0 \<le> sint r"
  shows "ring_ok (queue_run d item ops) \<and> length (ring_entries (queue_run d item ops)) \<le> unat (queue_size item) \<and>
    ring_entries (queue_run d item ops) = list_run (unat (queue_size item)) (discard_oldest item) (ring_entries item) ops"
  using queue_run_ring [OF assms] ring_entries_bounded [of "queue_run d item ops"] by simp

text \<open>
  C40.  Growing a queue that has wrapped around.  ModifyMonitoredItems changes the size of the queue and
  leaves its entries where they are.  When the queue is full and its oldest entry is not in the first
  slot but in slot \<open>h\<close>, and the new size exceeds the old one by at least \<open>h\<close>, the \<open>h\<close> newest values are
  lost, and in their place the client is sent the contents of \<open>h\<close> slots that were not part of the queue.
\<close>

theorem queue_growth_loses_entries:
  assumes "ring_ok item" "unat (queue_count item) = n" "unat (queue_size item) = n" "unat (queue_head item) = h" "0 < h"
    and "h + n \<le> unat requested" "unat requested \<le> length (queue item)"
    and "item' = modify_item restart now handle bits timestamps dc agg f requested oldest item"
  shows "monitored_item_effective_queue_size item' = (requested, item') \<and>
    ring_entries item' = take (n - h) (ring_entries item) @ slice n h (queue item)"
proof -
  have r: "unat (clamp_queue_size (length (queue item)) requested) = unat requested" "clamp_queue_size (length (queue item)) requested = requested"
    using assms(5-7) by (auto simp: clamp_queue_size_def)
  have f: "queue_size item' = requested" "queue_head item' = queue_head item" "queue_tail item' = queue_tail item"
    "queue_count item' = queue_count item" "queue item' = queue item"
    using r by (simp_all add: assms(8) modify_item_def apply_modify_item_filters_def Let_def)
  have n: "h < n" "n \<le> length (queue item)" "unat (queue_tail item) = h" using assms(1-4) by (auto simp: ring_ok_def)
  have eff: "monitored_item_effective_queue_size item' = (requested, item')"
  proof -
    have "requested \<noteq> 0" using assms(5,6) by auto
    moreover have "\<not> length (queue item') < unat requested" "\<not> unat requested \<le> unat (queue_head item')"
      "\<not> unat requested \<le> unat (queue_tail item')" "\<not> unat requested < unat (queue_count item')"
      using f n assms(2,4-7) by simp_all
    ultimately show ?thesis
      unfolding monitored_item_effective_queue_size_def Let_def f(1) by (simp only: f(1) queue_size_same [of item', unfolded f(1)] if_False)
  qed
  have "ring_entries item' = map (\<lambda>i. queue item ! (h + i)) [0..<n]"
    unfolding ring_entries_def ring_view_def f assms(2,4) using assms(6) by (intro map_cong) auto
  also have "\<dots> = slice h n (queue item)"
    using assms(6,7) by (intro nth_equalityI) (auto simp: slice_def)
  also have "\<dots> = slice h (n - h) (queue item) @ slice n h (queue item)"
    using take_add [of "n - h" h "drop h (queue item)"] n(1) by (simp add: slice_def)
  also have "slice h (n - h) (queue item) = take (n - h) (ring_entries item)"
    using n(1,2) assms(2-4) by (intro nth_equalityI) (auto simp: slice_def ring_entries_def ring_view_def)
  finally show ?thesis using eff by simp
qed

text \<open>
  C39.  Intervals on the wire.  The Double the server writes for a publishing or sampling interval in the
  range it grants is read back, by its own reader, as the same number of milliseconds.
\<close>

theorem interval_roundtrip:
  assumes "MU_MIN_PUBLISHING_INTERVAL_MS \<le> ms" "ms \<le> MU_MAX_PUBLISHING_INTERVAL_MS"
  shows "publishing_interval_bits_to_ms (publishing_interval_ms_to_bits ms) = ms"
proof -
  have r: "50 \<le> unat ms" "unat ms \<le> 60000" using assms by (simp_all add: word_le_nat_alt)
  obtain e where e: "2 ^ e \<le> unat ms" "unat ms < 2 ^ Suc e" "5 \<le> e" "e \<le> 15" using interval_exponent [OF r] .
  define b where "b = publishing_interval_ms_to_bits ms"
  define f where "f = (unat ms - 2 ^ e) * 2 ^ (52 - e)"
  have b: "unat b = (e + 1023) * 2 ^ 52 + f" using interval_bits [OF e(1,2)] e(4) by (simp add: b_def f_def)
  have "(unat ms - 2 ^ e) * 2 ^ (52 - e) < 2 ^ e * 2 ^ (52 - e)" using e(1,2) by simp
  also have "\<dots> = 2 ^ 52" using e(4) by (simp flip: power_add)
  finally have f: "f < 2 ^ 52" by (simp add: f_def)
  have d: "unat b div 2 ^ 52 = e + 1023" "unat b mod 2 ^ 52 = f"
    unfolding b using f by (simp_all only: div_mult_self3 mod_mult_self3 div_less mod_less power_not_zero zero_neq_numeral not_False_eq_True add_0_right)
  have ms: "2 ^ 52 + f = unat ms * 2 ^ (52 - e)"
  proof -
    have "unat ms * 2 ^ (52 - e) = 2 ^ e * 2 ^ (52 - e) + f" using e(1) by (simp add: f_def diff_mult_distrib)
    then show ?thesis using e(4) by (simp flip: power_add)
  qed
  have "1028 * 2 ^ 52 + 18 * 2 ^ 47 \<le> unat b"
  proof (cases "e = 5")
    case False
    then have "6 \<le> e" using e(3) by simp
    then show ?thesis unfolding b by simp
  qed (use r(1) in \<open>simp add: b f_def\<close>)
  then have lo: "\<not> b < MU_PUBLISHING_INTERVAL_MIN_BITS" by (simp add: word_less_nat_alt)
  have "unat b \<le> 1038 * 2 ^ 52 + 27232 * 2 ^ 37"
  proof (cases "e = 15")
    case False
    then have "e \<le> 14" using e(4) by simp
    then show ?thesis using f unfolding b by simp
  qed (use r(2) in \<open>simp add: b f_def\<close>)
  then have hi: "\<not> b > MU_PUBLISHING_INTERVAL_MAX_BITS" "unat b < 2 ^ 63" by (simp_all add: word_less_nat_alt)
  have "unat (duration_bits_to_ms b) = unat ms"
    using bits_to_ms [of b] d ms e(3,4) by simp
  then show ?thesis
    unfolding publishing_interval_bits_to_ms_def b_def [symmetric] using lo hi(1) sign_bit_clear [OF hi(2)] by (simp add: word_unat_eq_iff)
qed

theorem interval_roundtrip_witness:
  "publishing_interval_ms_to_bits 1000 = 0x408F400000000000 \<and>
   publishing_interval_bits_to_ms (publishing_interval_ms_to_bits 1000) = 1000"
  using interval_roundtrip [of 1000] by (simp add: publishing_interval_ms_to_bits_def leading_exponent.simps)

text \<open>A sample: room for three values, the oldest in the second slot, in an array of five.\<close>

definition int32_variant :: "opcua_int32_t \<Rightarrow> mu_variant" where
  "int32_variant x = \<lparr>v_type = MU_TYPE_INT32, v_value = Scalar (V_i32 x), v_is_array = False, v_array_length = 0, v_ext_encoding_id = 0\<rparr>"

definition int32_entry :: "opcua_int32_t \<Rightarrow> mu_queue_entry" where
  "int32_entry x = \<lparr>qe_value = int32_variant x, qe_status = 0\<rparr>"

definition sample_item :: "unit mu_monitored_item" where
  "sample_item =
    \<lparr>next_sample_ms = 0, deadband_value = 0, last_reported_numeric = 0, deadband_span = 0, aggregate_state = (),
     resolved_node = Some 0, last_value = int32_variant 3, mi_node_id = \<lparr>namespace_index = 1, ident = NUMERIC 7\<rparr>,
     monitored_item_id = 1, mi_subscription_id = 1, mi_client_handle = 9, attribute_id = 13, sampling_interval_ms = 1000,
     index_range_start = - 1, index_range_end = - 1, last_status = 0, queue_size = 3, triggered_items = replicate 4 0,
     queue = [int32_entry 3, int32_entry 1, int32_entry 2, int32_entry 0, int32_entry 0],
     monitoring_mode = MU_MONITORING_MODE_REPORTING, trigger = 1, mi_timestamps_to_return = 2, mi_in_use = True,
     mi_has_value = True, pending = True, semantics_changed = False, deadband_type = 0, has_reported = True,
     has_aggregate = False, queue_head = 1, queue_tail = 1, queue_count = 3, discard_oldest = True,
     queue_overflow = False, triggered_count = 0\<rparr>"

lemma sample_item_facts:
  "ring_ok sample_item" "ring_entries sample_item = [int32_entry 1, int32_entry 2, int32_entry 3]"
  by (simp_all add: sample_item_def ring_ok_def ring_entries_def ring_view_def upt_rec)

definition fixed_point_ops :: double_ops where
  "fixed_point_ops =
    \<lparr>d_of_int = word_of_int, d_of_float = ucast, d_minus = (-), d_neg = uminus, d_times = (*), d_divide = (div),
     d_less = (\<lambda>x y. sint x < sint y), d_less_eq = (\<lambda>x y. sint x \<le> sint y)\<rparr>"

theorem sample_queue_refines_list_witness:
  "ring_entries (queue_run fixed_point_ops sample_item
      [Sampled (int32_variant 4) 0, Reported 1, Sampled (int32_variant 5) 0]) =
    [int32_entry 3, int32_entry 4, int32_entry 5]"
  using sample_queue_refines_list [of sample_item "[Sampled (int32_variant 4) 0, Reported 1, Sampled (int32_variant 5) 0]" fixed_point_ops]
    sample_item_facts
  by (simp add: sample_item_def queue_add_def int32_entry_def overflowed_def)

theorem queue_growth_loses_entries_witness:
  "ring_entries (modify_item (\<lambda>_ _ _ _. ()) 0 9 0 2 False False
      \<lparr>fi_trigger = 0, fi_deadband_type = 0, fi_deadband_value = 0, fi_aggregate_type = 0, fi_processing_interval = 0\<rparr> 5 True sample_item) =
    [int32_entry 1, int32_entry 2, int32_entry 0]"
  using queue_growth_loses_entries [OF sample_item_facts(1), of 3 1 5, OF _ _ _ _ _ _ refl] sample_item_facts(2)
  by (simp add: sample_item_def slice_def)

end
