(* ===== verification/Spec2Isabelle.thy ===== *)
theory Spec2Isabelle
  imports Mu_Server Mu_Monitored_Item
begin

text \<open>
  Verification of the muc-opcua server, an OPC UA server in C for small devices.  The model follows the
  sources under \<^verbatim>\<open>src/src/\<close> and \<^verbatim>\<open>src/include/muc_opcua/\<close> in the full profile, with every optional
  service compiled in and the sizes of the 32-bit target.  Paths below are relative to \<^verbatim>\<open>src/\<close>.

  \<^bold>\<open>The program.\<close>  A poll loop reads bytes from TCP connections and cuts messages out of them.  A message
  is a Hello, an OPN chunk (OpenSecureChannel), a MSG chunk (a service request) or a CLO chunk.  Chunks of
  a secured channel are verified and decrypted; the request inside is looked up in a table of services and
  handed to the service function, whose response is protected and written back.  All structures on the
  wire go through one bounds-checked reader and one writer.  Monitored items sample values into queues
  from which notifications are built.

  \<^bold>\<open>Theories, from the bottom.\<close>  Names of definitions are those of the C functions and types wherever a
  definition stands for one function.

  \<^item> \<open>Mu_Prelude\<close>: scalar types at their width, status codes, byte strings, the lemmas on lists and words
    all theories share, and the collections of rules.
  \<^item> \<open>Mu_Binary_IO\<close>: \<^verbatim>\<open>src/encoding/binary_le.h\<close>, \<^verbatim>\<open>src/core/safe_mem.h\<close> and the primitives of
    \<^verbatim>\<open>binary_reader.c\<close> and \<^verbatim>\<open>binary_writer.c\<close>.  The locales \<open>reader_op\<close>, \<open>decoder\<close>, \<open>writer_op\<close>,
    \<open>encoder\<close> and \<open>codec\<close> state what every reader and writer promises: it stays in its buffer, keeps the
    first error, and (a codec) reads back what was written.  They are interpreted on the operations of
    this and the next four theories.
  \<^item> \<open>Mu_Strings\<close>, \<open>Mu_NodeIds\<close>, \<open>Mu_Extension_Object\<close>, \<open>Mu_Variants\<close>: the other files of
    \<^verbatim>\<open>src/encoding/\<close>.  C1 to C8 are round trips, confinement to the buffer, unambiguity of NodeIds and a
    string that is dropped without an error.
  \<^item> \<open>Mu_Framing\<close>: \<^verbatim>\<open>src/core/message_chunk.c\<close>, \<^verbatim>\<open>sequence.c\<close>, \<^verbatim>\<open>uasc.c\<close>, \<^verbatim>\<open>tcp_connection.c\<close>,
    \<^verbatim>\<open>service_message.c\<close> and \<^verbatim>\<open>src/services/service_header.c\<close>.  C9 to C13: sequence numbers, the chunk
    header, framed responses and the negotiation of a Hello, whose results are given by the bytes of the
    Hello and of the Acknowledge.
  \<^item> \<open>Mu_Security_Policy\<close> (\<^verbatim>\<open>src/security/security_policy.c\<close>), \<open>Mu_Key_Derivation\<close>
    (\<^verbatim>\<open>src/security/secure_util.c\<close> and \<^verbatim>\<open>key_derivation.c\<close>) and \<open>Mu_Sym_Chunk\<close> (\<^verbatim>\<open>sym_chunk.c\<close>): C14 to
    C19, the policy table, equality of the derivation loops with the standard's formulas, round trip and
    authenticity of symmetric chunks, and what building one writes.
  \<^item> \<open>Mu_Identifiers\<close>: the locale \<open>id_candidates\<close>, a search for an unused 32-bit identifier; \<open>Mu_Session\<close>
    interprets it for session ids and tokens, and its instance for stepped candidates serves the ids of
    \<open>Mu_Channel\<close>.
  \<^item> \<open>Mu_Channel\<close> (\<^verbatim>\<open>src/services/secure_channel.c\<close>) and \<open>Mu_Session\<close> (\<^verbatim>\<open>src/services/session.c\<close>): C20 to
    C25, invariants of all reachable channels and session tables by rule induction over step relations,
    success of the searches, and the refinement of the session table to a map from tokens to sessions.
  \<^item> \<open>Mu_Poll\<close> (\<^verbatim>\<open>src/core/server/poll.c\<close>): C26 and C27.  The sliding receive window implements cutting
    messages from one stream of bytes; the loop ends, handles exactly the whole messages and leaves room.
  \<^item> \<open>Mu_Dispatch\<close> (\<^verbatim>\<open>src/core/service_dispatch/dispatch_core.c\<close>, \<^verbatim>\<open>response_encode.c\<close> and the counters of
    \<^verbatim>\<open>diagnostics.c\<close>): the record \<open>mu_server\<close>; C28 and C29, the binary search over the service table and
    the checks before a service runs.
  \<^item> \<open>Mu_Certificate\<close>, \<open>Mu_Asym_Chunk\<close> (\<^verbatim>\<open>certificate.c\<close>, \<^verbatim>\<open>trustlist.c\<close>, \<^verbatim>\<open>ecc.c\<close> and \<^verbatim>\<open>asym_chunk/\<close> under
    \<^verbatim>\<open>src/cu/core_2022_server/security/\<close>): C30 to C32, round trip of OPN chunks, a padding size that wraps,
    and what the signature of an accepted OPN chunk covers.
  \<^item> \<open>Mu_Open_Channel\<close> (\<^verbatim>\<open>src/core/service_dispatch/osc_handler.c\<close>): C33, the state and the response of a
    successful OpenSecureChannel.
  \<^item> \<open>Mu_Server\<close> (\<^verbatim>\<open>src/core/server/data_chunk.c\<close>, \<^verbatim>\<open>process_message.c\<close>): the handling of one message
    composed of all of the above.  C34 and C35 say that single MSG chunks of a secured channel have an
    effect only when they are authenticated, and that a client's request is delivered and its response
    protected, under the policies with a MAC as under authenticated encryption.  C36 and C37 are two ways
    around the protection: messages in several chunks, and a renewal of policy None.
  \<^item> \<open>Mu_Monitored_Item\<close> (\<^verbatim>\<open>src/cu/core_2022_server/subscription/basic/\<close>: \<^verbatim>\<open>subscription_monitor.c\<close> and parts of
    \<^verbatim>\<open>deadband.c\<close>, \<^verbatim>\<open>filter_reader.c\<close>, \<^verbatim>\<open>monitored_items.c\<close>): C38 to C40, the ring of samples as a bounded
    list, intervals on the wire, and what growing a wrapped ring loses.

  \<^bold>\<open>State and effects.\<close>  A struct is a record, an array a list, a pointer into an array an index, a
  pointer that may be null an option.  Integers keep their width; signed ones are words read with
  \<^term>\<open>sint\<close>; \<^verbatim>\<open>size_t\<close> is a natural number with its bound where the code tests it.  Floating-point numbers
  are bit patterns.  A function that fails yields its status (\<^const>\<open>Inl\<close>); what it wrote before is
  returned where a later step can see it.  Calls of the TCP adapter are recorded in the server in order.

  \<^bold>\<open>Parameters.\<close>  The adapters for cryptography, entropy, clock and TCP are records of functions or the
  values the calls return, since their code is in libraries.  What the theorems need of them is named:
  \<open>hmac_length\<close>, \<open>ciphers_inverse\<close>, \<open>decrypts_keep_length\<close>, \<open>aead_inverse\<close> and \<open>sym_laws\<close> for the
  symmetric part, peers whose keys match for the asymmetric part, \<open>adapter_contract\<close> for the channel
  service.  None of them says that a signature or MAC cannot be forged: the theorems state what has been
  verified, not what an attacker can compute.  The service functions are a parameter of the dispatcher,
  the message handler is one of the poll loop, and the arithmetic of doubles is one of the monitored item.

  \<^bold>\<open>Bounds and termination.\<close>  Loops are structural recursion or have a measure; the poll loop's is the
  number of bytes left, that of the service search the width of the interval.  The searches for identifiers
  count down the candidates the C loops really try, and C21 and C23 show that they succeed before.  No
  definition has fuel the code does not have.

  \<^bold>\<open>Not modelled.\<close>  The service functions other than OpenSecureChannel and CloseSecureChannel: the session
  handlers (the session table they use is modelled), discovery, attribute read and write, browse, query,
  node management, methods, history, the table of subscriptions and publishing.  Also the address space and
  its generated tables, PubSub, events and auditing, JSON web tokens, roles, certificate and credential
  management, initialisation and configuration, the client library, and the platform adapters, which are
  sockets and calls of cryptographic libraries.  The wiping of secrets in scratch arrays and all timing are
  outside the model.
\<close>

end
